(* ===== verification/Prelude.thy ===== *)
theory Prelude
  imports Main "HOL-Library.Word"
begin

unbundle bit_operations_syntax

text \<open>
  Shared vocabulary of the development: bytes, return codes, the allocator, decimal
  printing and the generic lemmas every component uses.

  \<^item> A byte (\<open>u_char\<close>) is a HOL \<open>char\<close>, a byte string is a \<open>string\<close>; \<open>byte\<close> reads a
    character as an 8-bit word where the code shifts or masks it.
  \<^item> An \<open>ngx_str_t\<close> is the list of its bytes. A pointer the code compares with \<open>NULL\<close> is an
    \<open>option\<close>; a pointer/length pair is an optional list together with its length.
  \<^item> An allocation may fail: a pool is a function that says, for a program point (the
    variable that receives the memory) and a size, whether the allocation succeeds, so every
    \<open>NULL\<close> branch after an allocation is a branch of the model.
  \<^item> \<open>time_t\<close>, \<open>int64_t\<close> and \<open>int\<close> are words of their width, read as signed.
\<close>

section \<open>Types\<close>

type_synonym u_char = char
type_synonym bytes = string
type_synonym time_t = "64 word"
type_synonym ngx_pool_t = "string \<Rightarrow> nat \<Rightarrow> bool"

datatype ngx_int_t = NGX_OK | NGX_ERROR | NGX_DECLINED



definition byte :: "char \<Rightarrow> 8 word" where
  "byte c = of_nat (of_char c)"

text \<open>A \<open>u_char\<close> promoted to a 32-bit \<open>int\<close> or cast to \<open>uint32_t\<close>.\<close>

definition promote :: "u_char \<Rightarrow> 32 word" where
  "promote c = of_nat (of_char c)"

definition of_byte :: "8 word \<Rightarrow> char" where
  "of_byte w = char_of (unat w)"

lemma unat_byte [simp]: "unat (byte c) = of_char c"
  by (simp add: byte_def unat_of_nat take_bit_eq_mod)

lemma of_byte_byte [simp]: "of_byte (byte c) = c"
  by (simp add: of_byte_def)

lemma byte_of_byte [simp]: "byte (of_byte w) = w"
proof -
  have "unat w < 256" using unsigned_less [of w, where ?'a = nat] by simp
  then show ?thesis by (simp add: byte_def of_byte_def)
qed

lemma byte_eq_iff [simp]: "byte c = byte d \<longleftrightarrow> c = d"
  by (metis of_byte_byte)

lemma bit_promote: "8 \<le> n \<Longrightarrow> \<not> bit (promote c) n"
proof -
  assume "8 \<le> n"
  have "(of_char c :: nat) = take_bit 8 (of_char c)" by (simp add: take_bit_eq_mod)
  then have "\<not> bit (of_char c :: nat) n" using \<open>8 \<le> n\<close> by (metis bit_take_bit_iff not_less)
  then show ?thesis by (simp add: promote_def bit_simps)
qed

lemma unat_promote: "unat (promote c) = of_char c"
proof -
  have "(of_char c :: nat) < 256" by simp
  then have "(of_char c :: nat) < 4294967296" by linarith
  then show ?thesis by (simp add: promote_def unat_of_nat take_bit_eq_mod)
qed

section \<open>Decimal printing and reading\<close>

text \<open>The decimal text \<open>printf\<close> gives for \<open>%lu\<close> (naturals) and for \<open>%d\<close>, \<open>%lld\<close> and nginx's
  \<open>%T\<close> (integers), and the value of a digit string.\<close>

definition digit :: "nat \<Rightarrow> char" where
  "digit n = char_of (48 + n)"

fun show_nat :: "nat \<Rightarrow> string" where
  "show_nat n = (if n < 10 then [digit n] else show_nat (n div 10) @ [digit (n mod 10)])"

declare show_nat.simps [simp del]

definition show_int :: "int \<Rightarrow> string" where
  "show_int i = (if i < 0 then CHR ''-'' # show_nat (nat (- i)) else show_nat (nat i))"

definition is_digit :: "char \<Rightarrow> bool" where
  "is_digit c \<longleftrightarrow> 48 \<le> (of_char c :: nat) \<and> (of_char c :: nat) \<le> 57"

definition digit_val :: "char \<Rightarrow> nat" where
  "digit_val c = of_char c - 48"

fun read_nat :: "nat \<Rightarrow> string \<Rightarrow> nat" where
  "read_nat acc [] = acc"
| "read_nat acc (c # cs) = read_nat (acc * 10 + digit_val c) cs"

lemma digit_val_digit [simp]: "n < 10 \<Longrightarrow> digit_val (digit n) = n"
  by (simp add: digit_val_def digit_def)

lemma is_digit_digit [simp]: "n < 10 \<Longrightarrow> is_digit (digit n)"
  by (simp add: is_digit_def digit_def)

lemma digit_val_less [simp]: "is_digit c \<Longrightarrow> digit_val c < 10"
  by (auto simp: is_digit_def digit_val_def)

lemma read_nat_append: "read_nat acc (xs @ ys) = read_nat (read_nat acc xs) ys"
  by (induction xs arbitrary: acc) auto

lemma show_nat_digits: "list_all is_digit (show_nat n)"
proof (induction n rule: show_nat.induct)
  case (1 n)
  then show ?case by (cases "n < 10") (simp_all add: show_nat.simps [of n])
qed

lemma read_show_nat: "read_nat 0 (show_nat n) = n"
proof (induction n rule: show_nat.induct)
  case (1 n)
  then show ?case by (cases "n < 10") (simp_all add: show_nat.simps [of n] read_nat_append)
qed

lemma show_nat_nonempty [simp]: "show_nat n \<noteq> []"
  by (simp add: show_nat.simps [of n])

lemma show_nat_inj [simp]: "show_nat m = show_nat n \<longleftrightarrow> m = n"
  by (metis read_show_nat)

lemma length_show_nat: "n < 10 ^ k \<Longrightarrow> 0 < k \<Longrightarrow> length (show_nat n) \<le> k"
proof (induction k arbitrary: n)
  case 0
  then show ?case by simp
next
  case (Suc k)
  show ?case
  proof (cases "n < 10")
    case True
    then show ?thesis by (simp add: show_nat.simps [of n])
  next
    case False
    with Suc.prems have "n div 10 < 10 ^ k" "0 < k" by (auto simp: div_less_iff_less_mult mult.commute intro: Suc_leI) (cases k; simp)
    with Suc.IH [of "n div 10"] False show ?thesis by (simp add: show_nat.simps [of n])
  qed
qed

lemma digit_simps [simp]:
  "digit 0 = CHR ''0''" "digit (Suc 0) = CHR ''1''" "digit 2 = CHR ''2''" "digit 3 = CHR ''3''"
  "digit 4 = CHR ''4''" "digit 5 = CHR ''5''" "digit 6 = CHR ''6''" "digit 7 = CHR ''7''"
  "digit 8 = CHR ''8''" "digit 9 = CHR ''9''"
  by (simp_all add: digit_def char_of_def bit_Suc_0_iff)

end
