(* ===== verification/Hash.thy ===== *)
theory Hash
  imports Prelude
begin

text \<open>
  The OpenSSL interface the sources call, as a record of parameters, and
  \<open>src/ngx_auth_webauthn_hash.c\<close>. OpenSSL is not part of the repository: each field is the
  result of the call (or short sequence of calls that the sources always make together) as a
  function of its inputs, \<open>None\<close> or a non-positive integer being the failure OpenSSL documents.
\<close>

section \<open>OpenSSL\<close>

datatype evp_pkey_type = EVP_PKEY_EC | EVP_PKEY_RSA | EVP_PKEY_ED25519 | EVP_PKEY_OTHER

datatype evp_md = EVP_sha256

text \<open>
  \<open>EVP_Digest\<close> is \<open>EVP_Digest(.., EVP_sha256(), NULL)\<close>: the digest written, or \<open>None\<close> when the
  call does not return 1. \<open>EC_pubkey\<close>, \<open>RSA_pubkey\<close> and \<open>ED25519_pubkey\<close> are the key
  constructions of \<open>ngx_auth_webauthn_cose.c\<close> from an uncompressed P-256 point, from modulus
  and exponent, and from a raw Ed25519 key.
\<close>

record 'k openssl =
  EVP_Digest :: "bytes \<Rightarrow> bytes option"
  d2i_PUBKEY :: "bytes \<Rightarrow> 'k option"
  i2d_PUBKEY_len :: "'k \<Rightarrow> int"
  i2d_PUBKEY :: "'k \<Rightarrow> int \<times> bytes"
  EVP_PKEY_base_id :: "'k \<Rightarrow> evp_pkey_type"
  EVP_MD_CTX_new :: bool
  EVP_DigestVerifyInit :: "evp_md option \<Rightarrow> 'k \<Rightarrow> bool"
  EVP_DigestVerify :: "evp_md option \<Rightarrow> 'k \<Rightarrow> bytes \<Rightarrow> bytes \<Rightarrow> int"
  EC_pubkey :: "bytes \<Rightarrow> 'k option"
  RSA_pubkey :: "bytes \<Rightarrow> bytes \<Rightarrow> 'k option"
  ED25519_pubkey :: "bytes \<Rightarrow> 'k option"

text \<open>The documented behaviour of SHA-256 the code relies on: the digest is 32 bytes.\<close>

definition sha256_total :: "'k openssl \<Rightarrow> bool" where
  "sha256_total ossl \<longleftrightarrow> (\<forall>x. \<exists>d. EVP_Digest ossl x = Some d \<and> length d = 32)"

section \<open>\<open>ngx_auth_webauthn_hash_sha256\<close>\<close>

definition NGX_AUTH_WEBAUTHN_SHA256_LEN :: nat where
  "NGX_AUTH_WEBAUTHN_SHA256_LEN = 32"

definition ngx_auth_webauthn_hash_sha256 ::
    "'k openssl \<Rightarrow> bytes option \<Rightarrow> nat \<Rightarrow> bytes option \<Rightarrow> ngx_int_t \<times> bytes option" where
  "ngx_auth_webauthn_hash_sha256 ossl data len out =
     (if out = None \<or> (data = None \<and> len \<noteq> 0) then (NGX_ERROR, out)
      else
        case EVP_Digest ossl (if len = 0 then [] else take len (the data)) of
          None \<Rightarrow> (NGX_ERROR, out)
        | Some digest \<Rightarrow>
            if length digest \<noteq> NGX_AUTH_WEBAUTHN_SHA256_LEN then (NGX_ERROR, Some digest)
            else (NGX_OK, Some digest))"

text \<open>The digest of a whole byte string, as every caller uses the function.\<close>

definition sha256 :: "'k openssl \<Rightarrow> bytes \<Rightarrow> bytes option" where
  "sha256 ossl x =
     (case EVP_Digest ossl x of
        Some d \<Rightarrow> if length d = NGX_AUTH_WEBAUTHN_SHA256_LEN then Some d else None
      | None \<Rightarrow> None)"

lemma hash_sha256_bytes:
  "fst (ngx_auth_webauthn_hash_sha256 ossl (Some x) (length x) (Some buf)) = NGX_OK
     \<longleftrightarrow> sha256 ossl x \<noteq> None"
  by (auto simp: ngx_auth_webauthn_hash_sha256_def sha256_def split: option.splits)

lemma hash_sha256_OK:
  "ngx_auth_webauthn_hash_sha256 ossl (Some x) (length x) (Some buf) = (NGX_OK, out)
     \<longleftrightarrow> sha256 ossl x \<noteq> None \<and> out = sha256 ossl x"
  by (auto simp: ngx_auth_webauthn_hash_sha256_def sha256_def split: option.splits)

lemma hash_sha256_not_declined:
  "fst (ngx_auth_webauthn_hash_sha256 ossl data len out) \<noteq> NGX_DECLINED"
  by (auto simp: ngx_auth_webauthn_hash_sha256_def split: option.splits)

lemma hash_sha256_total:
  assumes "sha256_total ossl" and "len = 0 \<or> data \<noteq> None"
  shows "\<exists>d. ngx_auth_webauthn_hash_sha256 ossl data len (Some buf) = (NGX_OK, Some d) \<and> length d = 32"
proof -
  obtain d where "EVP_Digest ossl (if len = 0 then [] else take len (the data)) = Some d"
    and "length d = 32"
    using assms(1) unfolding sha256_total_def by blast
  with assms(2) show ?thesis
    by (auto simp: ngx_auth_webauthn_hash_sha256_def NGX_AUTH_WEBAUTHN_SHA256_LEN_def)
qed

end
