(* ===== verification/Cose.thy ===== *)
theory Cose
  imports Hash
begin

unbundle bit_operations_syntax

text \<open>
  \<open>src/ngx_auth_webauthn_cose.c\<close>: decoding a COSE_Key into an OpenSSL public key. libcbor is not
  part of the repository: \<open>cbor_load\<close> is a parameter, and \<open>cbor_item\<close> is what its accessors
  (\<open>cbor_isa_*\<close>, \<open>cbor_get_int\<close>, \<open>cbor_bytestring_handle\<close>, \<open>cbor_map_handle\<close>, ...) show of an item.
  Integers keep their width: \<open>cbor_get_int\<close> is a \<open>uint64_t\<close>, the labels are \<open>int64_t\<close>.
\<close>

section \<open>libcbor\<close>

datatype cbor_item =
    CBOR_uint "64 word"
  | CBOR_negint "64 word"
  | CBOR_bytestring bool bytes
  | CBOR_string bool bytes
  | CBOR_array "cbor_item list"
  | CBOR_map "(cbor_item \<times> cbor_item) list"
  | CBOR_other

text \<open>The root item (\<open>None\<close> for \<open>NULL\<close>), whether \<open>result.error.code\<close> is \<open>CBOR_ERR_NONE\<close>, and
  \<open>result.read\<close>.\<close>

type_synonym cbor_load_t = "bytes \<Rightarrow> cbor_item option \<times> bool \<times> nat"

section \<open>Constants\<close>

definition COSE_ALG_ES256 :: "64 word" where "COSE_ALG_ES256 = - 7"

definition COSE_ALG_EDDSA :: "64 word" where "COSE_ALG_EDDSA = - 8"

definition COSE_ALG_RS256 :: "64 word" where "COSE_ALG_RS256 = - 257"

definition COSE_KTY_OKP :: "64 word" where "COSE_KTY_OKP = 1"

definition COSE_KTY_EC2 :: "64 word" where "COSE_KTY_EC2 = 2"

definition COSE_KTY_RSA :: "64 word" where "COSE_KTY_RSA = 3"

definition COSE_CRV_P256 :: "64 word" where "COSE_CRV_P256 = 1"

definition COSE_CRV_ED25519 :: "64 word" where "COSE_CRV_ED25519 = 6"

lemmas cose_const_defs =
  COSE_ALG_ES256_def COSE_ALG_EDDSA_def COSE_ALG_RS256_def COSE_KTY_OKP_def COSE_KTY_EC2_def
  COSE_KTY_RSA_def COSE_CRV_P256_def COSE_CRV_ED25519_def

section \<open>Reading items\<close>

definition ngx_auth_webauthn_cose_int :: "cbor_item option \<Rightarrow> 64 word option" where
  "ngx_auth_webauthn_cose_int item =
     (case item of
        None \<Rightarrow> None
      | Some (CBOR_uint n) \<Rightarrow> Some n
      | Some (CBOR_negint n) \<Rightarrow> Some (- 1 - n)
      | Some _ \<Rightarrow> None)"

definition ngx_auth_webauthn_cose_bytes :: "cbor_item option \<Rightarrow> bytes option" where
  "ngx_auth_webauthn_cose_bytes item =
     (case item of
        Some (CBOR_bytestring definite data) \<Rightarrow> if definite then Some data else None
      | _ \<Rightarrow> None)"

section \<open>Building the public key\<close>

definition ngx_auth_webauthn_cose_ec2_pkey ::
    "'k openssl \<Rightarrow> cbor_item option \<Rightarrow> cbor_item option \<Rightarrow> cbor_item option \<Rightarrow> ngx_int_t \<times> 'k option" where
  "ngx_auth_webauthn_cose_ec2_pkey ossl crv x_item y_item =
     (if ngx_auth_webauthn_cose_int crv \<noteq> Some COSE_CRV_P256 then (NGX_DECLINED, None)
      else
        case (ngx_auth_webauthn_cose_bytes x_item, ngx_auth_webauthn_cose_bytes y_item) of
          (Some x, Some y) \<Rightarrow>
            if length x \<noteq> 32 \<or> length y \<noteq> 32 then (NGX_DECLINED, None)
            else (case EC_pubkey ossl (CHR 0x04 # x @ y) of
                    None \<Rightarrow> (NGX_ERROR, None)
                  | Some pkey \<Rightarrow> (NGX_OK, Some pkey))
        | _ \<Rightarrow> (NGX_DECLINED, None))"

definition ngx_auth_webauthn_cose_okp_pkey ::
    "'k openssl \<Rightarrow> cbor_item option \<Rightarrow> cbor_item option \<Rightarrow> ngx_int_t \<times> 'k option" where
  "ngx_auth_webauthn_cose_okp_pkey ossl crv x_item =
     (if ngx_auth_webauthn_cose_int crv \<noteq> Some COSE_CRV_ED25519 then (NGX_DECLINED, None)
      else
        case ngx_auth_webauthn_cose_bytes x_item of
          None \<Rightarrow> (NGX_DECLINED, None)
        | Some x \<Rightarrow>
            if length x \<noteq> 32 then (NGX_DECLINED, None)
            else (case ED25519_pubkey ossl x of
                    None \<Rightarrow> (NGX_ERROR, None)
                  | Some pkey \<Rightarrow> (NGX_OK, Some pkey)))"

definition ngx_auth_webauthn_cose_rsa_pkey ::
    "'k openssl \<Rightarrow> cbor_item option \<Rightarrow> cbor_item option \<Rightarrow> ngx_int_t \<times> 'k option" where
  "ngx_auth_webauthn_cose_rsa_pkey ossl n_item e_item =
     (case (ngx_auth_webauthn_cose_bytes n_item, ngx_auth_webauthn_cose_bytes e_item) of
        (Some n, Some e) \<Rightarrow>
          (case RSA_pubkey ossl n e of
             None \<Rightarrow> (NGX_ERROR, None)
           | Some pkey \<Rightarrow> (NGX_OK, Some pkey))
      | _ \<Rightarrow> (NGX_DECLINED, None))"

record cose_labels =
  v_kty :: "cbor_item option"
  v_alg :: "cbor_item option"
  v_m1 :: "cbor_item option"
  v_m2 :: "cbor_item option"
  v_m3 :: "cbor_item option"

definition cose_labels_null :: cose_labels where
  "cose_labels_null = \<lparr> v_kty = None, v_alg = None, v_m1 = None, v_m2 = None, v_m3 = None \<rparr>"

fun cose_collect :: "(cbor_item \<times> cbor_item) list \<Rightarrow> cose_labels \<Rightarrow> cose_labels" where
  "cose_collect [] v = v"
| "cose_collect ((k, value) # pairs) v =
     cose_collect pairs
       (case ngx_auth_webauthn_cose_int (Some k) of
          None \<Rightarrow> v
        | Some key \<Rightarrow>
            if key = 1 then v\<lparr> v_kty := Some value \<rparr>
            else if key = 3 then v\<lparr> v_alg := Some value \<rparr>
            else if key = - 1 then v\<lparr> v_m1 := Some value \<rparr>
            else if key = - 2 then v\<lparr> v_m2 := Some value \<rparr>
            else if key = - 3 then v\<lparr> v_m3 := Some value \<rparr>
            else v)"

definition cose_key_of :: "'k openssl \<Rightarrow> cose_labels \<Rightarrow> 64 word \<Rightarrow> 64 word \<Rightarrow> ngx_int_t \<times> 'k option" where
  "cose_key_of ossl v kty alg_id =
     (if kty = COSE_KTY_EC2 then
        (if alg_id \<noteq> COSE_ALG_ES256 then (NGX_DECLINED, None)
         else ngx_auth_webauthn_cose_ec2_pkey ossl (v_m1 v) (v_m2 v) (v_m3 v))
      else if kty = COSE_KTY_OKP then
        (if alg_id \<noteq> COSE_ALG_EDDSA then (NGX_DECLINED, None)
         else ngx_auth_webauthn_cose_okp_pkey ossl (v_m1 v) (v_m2 v))
      else if kty = COSE_KTY_RSA then
        (if alg_id \<noteq> COSE_ALG_RS256 then (NGX_DECLINED, None)
         else ngx_auth_webauthn_cose_rsa_pkey ossl (v_m1 v) (v_m2 v))
      else (NGX_DECLINED, None))"

text \<open>\<open>pkey\<close> and \<open>alg\<close> are what the two out-pointers point to (\<open>None\<close> for a \<open>NULL\<close> pointer); the
  outer option of \<open>pkey\<close> is the pointer, the inner one the key.\<close>

definition ngx_auth_webauthn_cose_to_pkey ::
    "'k openssl \<Rightarrow> cbor_load_t \<Rightarrow> bytes option \<Rightarrow> nat \<Rightarrow> 'k option option \<Rightarrow> 32 word option
     \<Rightarrow> ngx_int_t \<times> 'k option option \<times> 32 word option" where
  "ngx_auth_webauthn_cose_to_pkey ossl cbor_load cose cose_len pkey alg =
     (if cose = None \<or> pkey = None \<or> alg = None then (NGX_ERROR, pkey, alg)
      else
        case cbor_load (take cose_len (the cose)) of
          (Some (CBOR_map pairs), True, _) \<Rightarrow>
            let v = cose_collect pairs cose_labels_null in
            (case (ngx_auth_webauthn_cose_int (v_kty v), ngx_auth_webauthn_cose_int (v_alg v)) of
               (Some kty, Some alg_id) \<Rightarrow>
                 let (rc, key) = cose_key_of ossl v kty alg_id in
                 (rc, Some key, if rc = NGX_OK then Some (ucast alg_id) else alg)
             | _ \<Rightarrow> (NGX_DECLINED, Some None, alg))
        | _ \<Rightarrow> (NGX_ERROR, Some None, alg))"

definition ngx_auth_webauthn_cose_to_der ::
    "'k openssl \<Rightarrow> cbor_load_t \<Rightarrow> ngx_pool_t option \<Rightarrow> bytes option \<Rightarrow> nat \<Rightarrow> bytes option \<Rightarrow> 32 word option
     \<Rightarrow> ngx_int_t \<times> bytes option \<times> 32 word option" where
  "ngx_auth_webauthn_cose_to_der ossl cbor_load pool cose cose_len der alg =
     (if pool = None \<or> der = None then (NGX_ERROR, der, alg)
      else
        let (rc, pkey, alg) = ngx_auth_webauthn_cose_to_pkey ossl cbor_load cose cose_len (Some None) alg in
        if rc \<noteq> NGX_OK then (rc, der, alg)
        else
          let key = the (the pkey); der_len = i2d_PUBKEY_len ossl key in
          if der_len \<le> 0 then (NGX_ERROR, der, alg)
          else if \<not> the pool ''der->data'' (nat der_len) then (NGX_ERROR, der, alg)
          else
            let (n, bs) = i2d_PUBKEY ossl key in
            if n \<noteq> der_len then (NGX_ERROR, der, alg)
            else (NGX_OK, Some (take (nat der_len) bs), alg))"

section \<open>Specification and lemmas\<close>

text \<open>The three supported key kinds, with the algorithm each is bound to.\<close>

inductive cose_key :: "'k openssl \<Rightarrow> cose_labels \<Rightarrow> 64 word \<Rightarrow> 'k \<Rightarrow> bool" for ossl v where
  es256: "ngx_auth_webauthn_cose_int (v_kty v) = Some COSE_KTY_EC2
     \<Longrightarrow> ngx_auth_webauthn_cose_int (v_m1 v) = Some COSE_CRV_P256
     \<Longrightarrow> v_m2 v = Some (CBOR_bytestring True x) \<Longrightarrow> length x = 32
     \<Longrightarrow> v_m3 v = Some (CBOR_bytestring True y) \<Longrightarrow> length y = 32
     \<Longrightarrow> EC_pubkey ossl (CHR 0x04 # x @ y) = Some k \<Longrightarrow> cose_key ossl v COSE_ALG_ES256 k"
| eddsa: "ngx_auth_webauthn_cose_int (v_kty v) = Some COSE_KTY_OKP
     \<Longrightarrow> ngx_auth_webauthn_cose_int (v_m1 v) = Some COSE_CRV_ED25519
     \<Longrightarrow> v_m2 v = Some (CBOR_bytestring True x) \<Longrightarrow> length x = 32
     \<Longrightarrow> ED25519_pubkey ossl x = Some k \<Longrightarrow> cose_key ossl v COSE_ALG_EDDSA k"
| rs256: "ngx_auth_webauthn_cose_int (v_kty v) = Some COSE_KTY_RSA
     \<Longrightarrow> v_m1 v = Some (CBOR_bytestring True n) \<Longrightarrow> v_m2 v = Some (CBOR_bytestring True e)
     \<Longrightarrow> RSA_pubkey ossl n e = Some k \<Longrightarrow> cose_key ossl v COSE_ALG_RS256 k"

inductive_simps cose_key_simps: "cose_key ossl v alg k"

lemma cose_bytes_Some [simp]:
  "ngx_auth_webauthn_cose_bytes item = Some x \<longleftrightarrow> item = Some (CBOR_bytestring True x)"
  by (auto simp: ngx_auth_webauthn_cose_bytes_def split: option.splits cbor_item.splits)

lemma cose_bytes_definite [simp]: "ngx_auth_webauthn_cose_bytes (Some (CBOR_bytestring True x)) = Some x"
  by simp

lemma ec2_pkey_OK [simp]:
  "ngx_auth_webauthn_cose_ec2_pkey ossl crv xi yi = (NGX_OK, k) \<longleftrightarrow>
     ngx_auth_webauthn_cose_int crv = Some COSE_CRV_P256
     \<and> (\<exists>x y key. xi = Some (CBOR_bytestring True x) \<and> yi = Some (CBOR_bytestring True y)
          \<and> length x = 32 \<and> length y = 32 \<and> EC_pubkey ossl (CHR 0x04 # x @ y) = Some key \<and> k = Some key)"
  by (auto simp: ngx_auth_webauthn_cose_ec2_pkey_def split: option.splits if_splits)

lemma okp_pkey_OK [simp]:
  "ngx_auth_webauthn_cose_okp_pkey ossl crv xi = (NGX_OK, k) \<longleftrightarrow>
     ngx_auth_webauthn_cose_int crv = Some COSE_CRV_ED25519
     \<and> (\<exists>x key. xi = Some (CBOR_bytestring True x) \<and> length x = 32
          \<and> ED25519_pubkey ossl x = Some key \<and> k = Some key)"
  by (auto simp: ngx_auth_webauthn_cose_okp_pkey_def split: option.splits if_splits)

lemma rsa_pkey_OK [simp]:
  "ngx_auth_webauthn_cose_rsa_pkey ossl ni ei = (NGX_OK, k) \<longleftrightarrow>
     (\<exists>n e key. ni = Some (CBOR_bytestring True n) \<and> ei = Some (CBOR_bytestring True e)
          \<and> RSA_pubkey ossl n e = Some key \<and> k = Some key)"
  by (auto simp: ngx_auth_webauthn_cose_rsa_pkey_def split: option.splits if_splits)

lemma cose_key_of_OK:
  assumes "ngx_auth_webauthn_cose_int (v_kty v) = Some kty"
  shows "cose_key_of ossl v kty alg = (NGX_OK, k) \<longleftrightarrow> (\<exists>key. k = Some key \<and> cose_key ossl v alg key)"
  using assms unfolding cose_key_of_def cose_key_simps
  by (auto simp: cose_const_defs)

lemma cose_to_pkey_OK_iff:
  "ngx_auth_webauthn_cose_to_pkey ossl cbor_load (Some cose) (length cose) (Some k0) (Some a0)
     = (NGX_OK, pkey, alg)
   \<longleftrightarrow> (\<exists>pairs read alg_id key.
          cbor_load cose = (Some (CBOR_map pairs), True, read)
          \<and> ngx_auth_webauthn_cose_int (v_alg (cose_collect pairs cose_labels_null)) = Some alg_id
          \<and> cose_key ossl (cose_collect pairs cose_labels_null) alg_id key
          \<and> pkey = Some (Some key) \<and> alg = Some (ucast alg_id))"
  (is "?l = ?r")
proof
  assume ?l
  then show ?r
    by (auto simp: ngx_auth_webauthn_cose_to_pkey_def Let_def cose_key_of_OK
        split: prod.splits option.splits cbor_item.splits bool.splits if_splits)
next
  assume ?r
  then obtain pairs read alg_id key where 1: "cbor_load cose = (Some (CBOR_map pairs), True, read)"
    "ngx_auth_webauthn_cose_int (v_alg (cose_collect pairs cose_labels_null)) = Some alg_id"
    "cose_key ossl (cose_collect pairs cose_labels_null) alg_id key"
    "pkey = Some (Some key)" "alg = Some (ucast alg_id)" by blast
  then obtain kty where 2: "ngx_auth_webauthn_cose_int (v_kty (cose_collect pairs cose_labels_null)) = Some kty"
    by (auto simp: cose_key_simps)
  from 1(3) cose_key_of_OK [OF 2, of ossl alg_id "Some key"]
  have "cose_key_of ossl (cose_collect pairs cose_labels_null) kty alg_id = (NGX_OK, Some key)" by simp
  with 1 2 show ?l by (simp add: ngx_auth_webauthn_cose_to_pkey_def Let_def)
qed

lemma cose_to_pkey_alg:
  assumes "ngx_auth_webauthn_cose_to_pkey ossl cbor_load (Some cose) (length cose) (Some k0) (Some a0)
     = (NGX_OK, pkey, alg)"
  shows "alg \<in> {Some (- 7), Some (- 8), Some (- 257)}"
  using assms unfolding cose_to_pkey_OK_iff
  by (auto simp: cose_key_simps cose_const_defs)

text \<open>The one-pass collection finds, for each label, the value of its last occurrence.\<close>

definition cose_lookup :: "(cbor_item \<times> cbor_item) list \<Rightarrow> 64 word \<Rightarrow> cbor_item option" where
  "cose_lookup pairs label =
     map_of (rev (map (\<lambda>(k, v). (ngx_auth_webauthn_cose_int (Some k), v)) pairs)) (Some label)"

definition cose_labels_of :: "(cbor_item \<times> cbor_item) list \<Rightarrow> cose_labels" where
  "cose_labels_of pairs =
     \<lparr> v_kty = cose_lookup pairs 1, v_alg = cose_lookup pairs 3, v_m1 = cose_lookup pairs (- 1),
       v_m2 = cose_lookup pairs (- 2), v_m3 = cose_lookup pairs (- 3) \<rparr>"

lemma cose_lookup_Cons:
  "cose_lookup ((k, x) # pairs) label =
     (case cose_lookup pairs label of
        Some y \<Rightarrow> Some y
      | None \<Rightarrow> if ngx_auth_webauthn_cose_int (Some k) = Some label then Some x else None)"
  by (auto simp: cose_lookup_def map_add_def split: option.splits)

lemma cose_lookup_Nil: "cose_lookup [] label = None"
  by (simp add: cose_lookup_def)

lemma cose_collect_v_kty:
  "v_kty (cose_collect pairs v) = (case cose_lookup pairs 1 of None \<Rightarrow> v_kty v | Some x \<Rightarrow> Some x)"
  by (induction pairs v rule: cose_collect.induct)
    (auto simp: cose_lookup_Nil cose_lookup_Cons split: option.splits)

lemma cose_collect_v_alg:
  "v_alg (cose_collect pairs v) = (case cose_lookup pairs 3 of None \<Rightarrow> v_alg v | Some x \<Rightarrow> Some x)"
  by (induction pairs v rule: cose_collect.induct)
    (auto simp: cose_lookup_Nil cose_lookup_Cons split: option.splits)

lemma cose_collect_v_m1:
  "v_m1 (cose_collect pairs v) = (case cose_lookup pairs (- 1) of None \<Rightarrow> v_m1 v | Some x \<Rightarrow> Some x)"
  by (induction pairs v rule: cose_collect.induct)
    (auto simp: cose_lookup_Nil cose_lookup_Cons split: option.splits)

lemma cose_collect_v_m2:
  "v_m2 (cose_collect pairs v) = (case cose_lookup pairs (- 2) of None \<Rightarrow> v_m2 v | Some x \<Rightarrow> Some x)"
  by (induction pairs v rule: cose_collect.induct)
    (auto simp: cose_lookup_Nil cose_lookup_Cons split: option.splits)

lemma cose_collect_v_m3:
  "v_m3 (cose_collect pairs v) = (case cose_lookup pairs (- 3) of None \<Rightarrow> v_m3 v | Some x \<Rightarrow> Some x)"
  by (induction pairs v rule: cose_collect.induct)
    (auto simp: cose_lookup_Nil cose_lookup_Cons split: option.splits)

lemmas cose_collect_lookup =
  cose_collect_v_kty cose_collect_v_alg cose_collect_v_m1 cose_collect_v_m2 cose_collect_v_m3

lemma cose_collect_labels: "cose_collect pairs cose_labels_null = cose_labels_of pairs"
  by (auto intro!: cose_labels.equality
      simp: cose_collect_lookup cose_labels_of_def cose_labels_null_def split: option.splits)

section \<open>Properties\<close>

text \<open>C25: \<open>ngx_auth_webauthn_cose_to_pkey\<close> accepts a COSE_Key exactly when it is a CBOR map whose
  labels (the last occurrence of each counts) describe an EC2 P-256 key with algorithm ES256, an OKP
  Ed25519 key with EdDSA or an RSA key with RS256, each with byte-string parameters of the right
  length that OpenSSL takes; the key and the algorithm it returns are those. The algorithm of an
  accepted key is always one of the three.\<close>

theorem cose_to_pkey_correct:
  "ngx_auth_webauthn_cose_to_pkey ossl cbor_load (Some cose) (length cose) (Some k0) (Some a0)
     = (NGX_OK, Some (Some key), Some alg)
   \<longleftrightarrow> alg \<in> {- 7, - 8, - 257}
       \<and> (\<exists>pairs read alg_id. cbor_load cose = (Some (CBOR_map pairs), True, read)
          \<and> ngx_auth_webauthn_cose_int (cose_lookup pairs 3) = Some alg_id \<and> alg = ucast alg_id
          \<and> cose_key ossl (cose_labels_of pairs) alg_id key)"
  (is "?l = ?r")
proof
  assume l: ?l
  then have "alg \<in> {- 7, - 8, - 257}" using cose_to_pkey_alg by fastforce
  with l show ?r
    by (auto simp: cose_to_pkey_OK_iff cose_collect_labels) (auto simp: cose_labels_of_def)
next
  assume ?r
  then show ?l by (auto simp: cose_to_pkey_OK_iff cose_collect_labels) (auto simp: cose_labels_of_def)
qed

end
