(* ===== verification/Authdata.thy ===== *)
theory Authdata
  imports Hash
begin

unbundle bit_operations_syntax

text \<open>
  \<open>src/ngx_auth_webauthn_authdata.c\<close>: the authenticatorData parser. \<open>data\<close> and \<open>len\<close> are the
  pointer and length of the C function, \<open>out\<close> the structure behind the out-pointer; the result
  carries the return code and that structure, which keeps what was written before an error.
\<close>

section \<open>The parsed structure\<close>

definition NGX_AUTH_WEBAUTHN_AUTHDATA_MIN_LEN :: nat where
  "NGX_AUTH_WEBAUTHN_AUTHDATA_MIN_LEN = 37"

definition NGX_AUTH_WEBAUTHN_AAGUID_LEN :: nat where
  "NGX_AUTH_WEBAUTHN_AAGUID_LEN = 16"

definition FLAG_UP :: "8 word" where "FLAG_UP = 0x01"

definition FLAG_UV :: "8 word" where "FLAG_UV = 0x04"

definition FLAG_AT :: "8 word" where "FLAG_AT = 0x40"

definition FLAG_ED :: "8 word" where "FLAG_ED = 0x80"

record authdata =
  ad_rp_id_hash :: bytes
  ad_flags :: "8 word"
  ad_sign_count :: "32 word"
  ad_aaguid :: bytes
  ad_credential_id :: bytes
  ad_cose_public_key :: bytes

definition authdata_zero :: authdata where
  "authdata_zero =
     \<lparr> ad_rp_id_hash = replicate 32 (CHR 0x00), ad_flags = 0, ad_sign_count = 0,
       ad_aaguid = replicate 16 (CHR 0x00), ad_credential_id = [], ad_cose_public_key = [] \<rparr>"

section \<open>The parser\<close>

definition be32 :: "bytes \<Rightarrow> 32 word" where
  "be32 p = push_bit 24 (promote (p ! 0)) OR push_bit 16 (promote (p ! 1))
            OR push_bit 8 (promote (p ! 2)) OR promote (p ! 3)"

definition be16 :: "u_char \<Rightarrow> u_char \<Rightarrow> nat" where
  "be16 hi lo = push_bit 8 (of_char hi) OR of_char lo"

definition ngx_auth_webauthn_authdata_parse ::
    "bytes option \<Rightarrow> nat \<Rightarrow> authdata option \<Rightarrow> ngx_int_t \<times> authdata option" where
  "ngx_auth_webauthn_authdata_parse data len out =
     (if out = None then (NGX_ERROR, None)
      else if data = None \<or> len < NGX_AUTH_WEBAUTHN_AUTHDATA_MIN_LEN
      then (NGX_DECLINED, Some authdata_zero)
      else
        let p = the data;
            out = authdata_zero\<lparr> ad_rp_id_hash := take NGX_AUTH_WEBAUTHN_SHA256_LEN p,
                                 ad_flags := byte (p ! NGX_AUTH_WEBAUTHN_SHA256_LEN),
                                 ad_sign_count := be32 (drop (NGX_AUTH_WEBAUTHN_SHA256_LEN + 1) p) \<rparr>
        in
        if ad_flags out AND FLAG_AT = 0 then (NGX_OK, Some out)
        else
          let offset = NGX_AUTH_WEBAUTHN_AUTHDATA_MIN_LEN in
          if len < offset + NGX_AUTH_WEBAUTHN_AAGUID_LEN + 2 then (NGX_DECLINED, Some out)
          else
            let out = out\<lparr> ad_aaguid := take NGX_AUTH_WEBAUTHN_AAGUID_LEN (drop offset p) \<rparr>;
                offset = offset + NGX_AUTH_WEBAUTHN_AAGUID_LEN;
                cred_id_len = be16 (p ! offset) (p ! (offset + 1));
                offset = offset + 2
            in
            if cred_id_len > len - offset then (NGX_DECLINED, Some out)
            else
              (NGX_OK,
               Some (out\<lparr> ad_credential_id := take cred_id_len (drop offset p),
                          ad_cose_public_key :=
                            take (len - (offset + cred_id_len)) (drop (offset + cred_id_len) p) \<rparr>)))"

section \<open>The layout the parser inverts\<close>

text \<open>WebAuthn 6.1: rpIdHash, flags, big-endian signCount and, when AT is set, the attested
  credential data.\<close>

definition be32_bytes :: "32 word \<Rightarrow> bytes" where
  "be32_bytes w = map (\<lambda>k. char_of (unat (drop_bit k w))) [24, 16, 8, 0]"

definition authdata_bytes :: "authdata \<Rightarrow> bytes" where
  "authdata_bytes ad =
     ad_rp_id_hash ad @ [of_byte (ad_flags ad)] @ be32_bytes (ad_sign_count ad)
     @ (if ad_flags ad AND FLAG_AT = 0 then []
        else ad_aaguid ad
             @ [char_of (length (ad_credential_id ad) div 256), char_of (length (ad_credential_id ad) mod 256)]
             @ ad_credential_id ad @ ad_cose_public_key ad)"

definition authdata_wf :: "authdata \<Rightarrow> bool" where
  "authdata_wf ad \<longleftrightarrow>
     length (ad_rp_id_hash ad) = 32
     \<and> (if ad_flags ad AND FLAG_AT = 0
        then ad_aaguid ad = replicate 16 (CHR 0x00) \<and> ad_credential_id ad = [] \<and> ad_cose_public_key ad = []
        else length (ad_aaguid ad) = 16 \<and> length (ad_credential_id ad) < 65536)"

lemmas authdata_const_defs =
  NGX_AUTH_WEBAUTHN_AUTHDATA_MIN_LEN_def NGX_AUTH_WEBAUTHN_AAGUID_LEN_def
  NGX_AUTH_WEBAUTHN_SHA256_LEN_def

section \<open>Lemmas\<close>

lemma be16_eq: "be16 hi lo = 256 * of_char hi + of_char lo"
proof -
  have "(of_char lo :: nat) = take_bit 8 (of_char lo)" by (simp add: take_bit_eq_mod)
  then have "push_bit 8 (of_char hi :: nat) AND of_char lo = 0"
    by (intro bit_eqI) (metis bit_0_eq bit_and_iff bit_push_bit_iff bit_take_bit_iff bot_apply bot_bool_def not_less)
  then have "push_bit 8 (of_char hi :: nat) OR of_char lo = push_bit 8 (of_char hi) + of_char lo"
    by (simp add: disjunctive_add_eq_or)
  then show ?thesis by (simp add: be16_def push_bit_eq_mult)
qed

lemma be16_length: "n < 65536 \<Longrightarrow> be16 (char_of (n div 256)) (char_of (n mod 256)) = n"
  by (simp add: be16_eq less_mult_imp_div_less)

lemma promote_char_of: "promote (char_of (unat w)) = take_bit 8 (w :: 32 word)"
proof -
  have "unat (promote (char_of (unat w))) = unat (take_bit 8 w)"
    by (simp add: unat_promote unsigned_take_bit_eq) (simp add: take_bit_eq_mod)
  then show ?thesis by (rule unsigned_word_eqI)
qed

lemma be32_bytes: "be32 (be32_bytes w @ rest) = w"
proof (rule bit_word_eqI)
  fix n assume "n < LENGTH(32)"
  then show "bit (be32 (be32_bytes w @ rest)) n = bit w n"
    by (cases "n < 8"; cases "n < 16"; cases "n < 24";
        simp add: be32_def be32_bytes_def promote_char_of bit_simps not_less; linarith?)
qed

lemma length_be32_bytes [simp]: "length (be32_bytes w) = 4"
  by (simp add: be32_bytes_def)

text \<open>The two shapes an accepted input has, and their codes.\<close>

lemma parse_prefix:
  assumes "length h = 32" and "length sc = 4" and "byte f AND FLAG_AT = 0" and "37 \<le> len"
  shows "ngx_auth_webauthn_authdata_parse (Some (h @ f # sc @ rest)) len (Some o') =
    (NGX_OK, Some (authdata_zero\<lparr> ad_rp_id_hash := h, ad_flags := byte f, ad_sign_count := be32 (sc @ rest) \<rparr>))"
  using assms
  by (simp add: ngx_auth_webauthn_authdata_parse_def authdata_const_defs nth_append Let_def)

lemma parse_attested:
  assumes "length h = 32" and "length sc = 4" and "byte f AND FLAG_AT \<noteq> 0"
    and "length g = 16" and "length cid = be16 hi lo"
  shows "ngx_auth_webauthn_authdata_parse (Some (h @ f # sc @ g @ hi # lo # cid @ key))
      (55 + length cid + length key) (Some o') =
    (NGX_OK, Some \<lparr> ad_rp_id_hash = h, ad_flags = byte f, ad_sign_count = be32 (sc @ g @ hi # lo # cid @ key),
                    ad_aaguid = g, ad_credential_id = cid, ad_cose_public_key = key \<rparr>)"
proof -
  have "drop (length (f # sc @ g @ [hi, lo] @ cid)) ((f # sc @ g @ [hi, lo] @ cid) @ key) = key"
    by (metis append_eq_conv_conj)
  with assms have "drop (23 + be16 hi lo) (f # sc @ g @ hi # lo # cid @ key) = key"
    by simp
  with assms show ?thesis
    by (simp add: ngx_auth_webauthn_authdata_parse_def authdata_const_defs authdata_zero_def nth_append Let_def)
qed

lemma authdata_parse_bytes:
  assumes "authdata_wf ad"
  shows "ngx_auth_webauthn_authdata_parse (Some (authdata_bytes ad)) (length (authdata_bytes ad)) (Some o')
    = (NGX_OK, Some ad)"
proof (cases "ad_flags ad AND FLAG_AT = 0")
  case True
  then show ?thesis
    using assms parse_prefix [of "ad_rp_id_hash ad" "be32_bytes (ad_sign_count ad)" "of_byte (ad_flags ad)" 37 "[]" o']
      be32_bytes [of "ad_sign_count ad" "[]"]
    by (cases ad) (simp add: authdata_bytes_def authdata_wf_def authdata_zero_def)
next
  case False
  then show ?thesis
    using assms be16_length [of "length (ad_credential_id ad)"]
      parse_attested [of "ad_rp_id_hash ad" "be32_bytes (ad_sign_count ad)" "of_byte (ad_flags ad)" "ad_aaguid ad"
        "ad_credential_id ad" "char_of (length (ad_credential_id ad) div 256)"
        "char_of (length (ad_credential_id ad) mod 256)" "ad_cose_public_key ad" o']
    by (cases ad) (simp add: authdata_bytes_def authdata_wf_def be32_bytes add_ac)
qed

lemma char_of_take_bit: "char_of (unat (take_bit 8 (w :: 32 word))) = char_of (unat w)"
  by (metis char_of_char promote_char_of unat_promote)

lemma be32_take:
  "take_bit 8 (drop_bit 24 (be32 p)) = promote (p ! 0)"
  "take_bit 8 (drop_bit 16 (be32 p)) = promote (p ! 1)"
  "take_bit 8 (drop_bit 8 (be32 p)) = promote (p ! 2)"
  "take_bit 8 (be32 p) = promote (p ! 3)"
proof -
  have le: "bit (promote c) n \<longleftrightarrow> n < 8 \<and> bit (promote c) n" for c n
    using bit_promote [of n c] not_less by blast
  show "take_bit 8 (drop_bit 24 (be32 p)) = promote (p ! 0)"
    "take_bit 8 (drop_bit 16 (be32 p)) = promote (p ! 1)"
    "take_bit 8 (drop_bit 8 (be32 p)) = promote (p ! 2)"
    "take_bit 8 (be32 p) = promote (p ! 3)"
    by (rule bit_word_eqI, subst le, auto simp: be32_def bit_simps bit_promote)+
qed

lemma be32_bytes_be32:
  assumes "length sc = 4"
  shows "be32_bytes (be32 (sc @ rest)) = sc"
proof -
  have k: "char_of (unat w) = c" if "take_bit 8 w = promote c" for w :: "32 word" and c
    using that by (metis char_of_take_bit char_of_char unat_promote)
  have "be32_bytes (be32 p) = [p ! 0, p ! 1, p ! 2, p ! 3]" for p
    using be32_take [of p, THEN k] by (simp add: be32_bytes_def)
  with assms show ?thesis
    by (auto simp: nth_append length_Suc_conv numeral_eq_Suc)
qed

lemma split_at_37:
  assumes "37 \<le> length d"
  obtains h f sc rest where "d = h @ f # sc @ rest" "length h = 32" "length sc = 4"
proof
  have "d = take 32 d @ drop 32 d" by simp
  also have "drop 32 d = d ! 32 # drop 33 d" using assms by (simp add: Cons_nth_drop_Suc [symmetric])
  also have "drop 33 d = take 4 (drop 33 d) @ drop 4 (drop 33 d)" by (simp only: append_take_drop_id)
  finally show "d = take 32 d @ d ! 32 # take 4 (drop 33 d) @ drop 4 (drop 33 d)" .
qed (use assms in auto)


text \<open>Every accepted input is the layout of the result, followed by bytes nobody looks at when the
  AT flag is clear and by nothing when it is set.\<close>

lemma authdata_parse_sound:
  assumes "ngx_auth_webauthn_authdata_parse (Some d) (length d) (Some o') = (NGX_OK, Some ad)"
  shows "\<exists>rest. d = authdata_bytes ad @ rest \<and> (ad_flags ad AND FLAG_AT \<noteq> 0 \<longrightarrow> rest = [])"
proof -
  from assms have "37 \<le> length d"
    by (auto simp: ngx_auth_webauthn_authdata_parse_def authdata_const_defs split: if_splits)
  then obtain h f sc rest where d: "d = h @ f # sc @ rest" and l: "length h = 32" "length sc = 4"
    by (rule split_at_37)
  show ?thesis
  proof (cases "byte f AND FLAG_AT = 0")
    case True
    with assms d l parse_prefix [OF l True, of "length d" rest o'] show ?thesis
      by (auto simp: authdata_bytes_def be32_bytes_be32)
  next
    case False
    with assms d l have r: "18 \<le> length rest" and k: "be16 (rest ! 16) (rest ! 17) \<le> length rest - 18"
      by (auto simp: ngx_auth_webauthn_authdata_parse_def authdata_const_defs nth_append Let_def
          split: if_splits)
    define cid where "cid = take (be16 (rest ! 16) (rest ! 17)) (drop 18 rest)"
    define key where "key = drop (be16 (rest ! 16) (rest ! 17)) (drop 18 rest)"
    have "rest = take 16 rest @ drop 16 rest" by simp
    also have "drop 16 rest = rest ! 16 # rest ! 17 # drop 18 rest"
      using r by (simp add: Cons_nth_drop_Suc [symmetric])
    also have "drop 18 rest = cid @ key" by (simp only: cid_def key_def append_take_drop_id)
    finally have rest: "rest = take 16 rest @ rest ! 16 # rest ! 17 # cid @ key" .
    have c: "length cid = be16 (rest ! 16) (rest ! 17)" using k by (simp add: cid_def)
    have n: "length d = 55 + length cid + length key"
      using d l arg_cong [OF rest, of length] r by simp
    have "(NGX_OK, Some ad) = (NGX_OK, Some \<lparr> ad_rp_id_hash = h, ad_flags = byte f,
        ad_sign_count = be32 (sc @ rest), ad_aaguid = take 16 rest, ad_credential_id = cid,
        ad_cose_public_key = key \<rparr>)"
      using assms parse_attested [OF l False _ c, of "take 16 rest" key o'] r d n
      by (simp add: rest [symmetric] add.assoc)
    moreover have "char_of (length cid div 256) = rest ! 16" "char_of (length cid mod 256) = rest ! 17"
      by (simp_all add: c be16_eq)
    ultimately have "authdata_bytes ad = d"
      using False d l by (simp add: authdata_bytes_def be32_bytes_be32 rest [symmetric])
    then show ?thesis by auto
  qed
qed


lemma be32_cong: "(\<And>i. i < 4 \<Longrightarrow> p ! i = q ! i) \<Longrightarrow> be32 p = be32 q"
  by (simp add: be32_def)

text \<open>The parser reads nothing past \<open>len\<close>: it gives the same result on the bytes cut there.\<close>

lemma authdata_parse_take:
  assumes "len \<le> length d"
  shows "ngx_auth_webauthn_authdata_parse (Some (take len d)) len out =
         ngx_auth_webauthn_authdata_parse (Some d) len out"
proof (cases "37 \<le> len")
  case False
  then show ?thesis
    by (simp add: ngx_auth_webauthn_authdata_parse_def authdata_const_defs)
next
  case True
  then have "be32 (drop 33 (take len d)) = be32 (drop 33 d)"
    using assms by (intro be32_cong) simp
  with True assms show ?thesis
    by (simp add: ngx_auth_webauthn_authdata_parse_def authdata_const_defs Let_def drop_take min_def)
qed

lemma authdata_parse_fields:
  assumes "ngx_auth_webauthn_authdata_parse (Some d) len (Some o') = (NGX_OK, Some ad)"
    and "len \<le> length d"
  shows "37 \<le> len" and "ad_rp_id_hash ad = take 32 d" and "length (ad_rp_id_hash ad) = 32"
    and "ad_flags ad = byte (d ! 32)" and "ad_sign_count ad = be32 (drop 33 d)"
  using assms
  by (auto simp: ngx_auth_webauthn_authdata_parse_def authdata_const_defs Let_def split: if_splits)

lemma authdata_parse_OK_out:
  "fst (ngx_auth_webauthn_authdata_parse data len (Some o')) = NGX_OK
   \<Longrightarrow> \<exists>d ad. data = Some d \<and> ngx_auth_webauthn_authdata_parse (Some d) len (Some o') = (NGX_OK, Some ad)"
  by (cases data) (auto simp: ngx_auth_webauthn_authdata_parse_def Let_def split: if_splits)

lemma authdata_parse_not_error:
  "fst (ngx_auth_webauthn_authdata_parse data len out) = NGX_ERROR \<longleftrightarrow> out = None"
  by (auto simp: ngx_auth_webauthn_authdata_parse_def Let_def)

section \<open>Properties\<close>

text \<open>C29: \<open>ngx_auth_webauthn_authdata_parse\<close> inverts the WebAuthn layout: the bytes of any well-formed
  authenticator data (rpIdHash of 32 bytes, credential id shorter than 64 KiB) parse back to it, with
  and without attested credential data.\<close>

theorem authdata_roundtrip:
  assumes "authdata_wf ad"
  shows "ngx_auth_webauthn_authdata_parse (Some (authdata_bytes ad)) (length (authdata_bytes ad)) (Some out)
    = (NGX_OK, Some ad)"
  using assms by (rule authdata_parse_bytes)

theorem authdata_roundtrip_witness:
  "ngx_auth_webauthn_authdata_parse
      (Some (authdata_bytes \<lparr> ad_rp_id_hash = replicate 32 (CHR ''h''), ad_flags = 0x45, ad_sign_count = 7,
        ad_aaguid = replicate 16 (CHR ''g''), ad_credential_id = ''id'', ad_cose_public_key = ''K'' \<rparr>)) 58
      (Some authdata_zero)
    = (NGX_OK, Some \<lparr> ad_rp_id_hash = replicate 32 (CHR ''h''), ad_flags = 0x45, ad_sign_count = 7,
        ad_aaguid = replicate 16 (CHR ''g''), ad_credential_id = ''id'', ad_cose_public_key = ''K'' \<rparr>)"
  using authdata_roundtrip [of "\<lparr> ad_rp_id_hash = replicate 32 (CHR ''h''), ad_flags = 0x45, ad_sign_count = 7,
        ad_aaguid = replicate 16 (CHR ''g''), ad_credential_id = ''id'', ad_cose_public_key = ''K'' \<rparr>" authdata_zero]
  by (simp add: authdata_wf_def authdata_bytes_def FLAG_AT_def)



end
