(* ===== verification/Base64url.thy ===== *)
theory Base64url
  imports Prelude
begin

unbundle bit_operations_syntax

text \<open>
  The base64url codec of the CLI's nginx shim (\<open>tools/admin/ngx_compat/ngx_compat.c\<close>) and the
  two length macros of \<open>ngx_compat.h\<close>. The integer arithmetic is that of C: a \<open>u_char\<close> is
  promoted to a 32-bit \<open>int\<close> before it is shifted or masked, and the decoder's accumulator is
  a 32-bit \<open>int\<close> that is shifted left without ever being masked, so it wraps.

  The locale \<open>base64url_codec\<close> is what the rest of the program relies on of \<open>ngx_encode_base64url\<close>
  and \<open>ngx_decode_base64url\<close>; it is interpreted on the shim's functions.
\<close>

section \<open>Encoder\<close>

definition basis :: string where
  "basis = ''ABCDEFGHIJKLMNOPQRSTUVWXYZabcdefghijklmnopqrstuvwxyz0123456789-_''"

definition sextet0 :: "u_char \<Rightarrow> 32 word" where
  "sextet0 s0 = drop_bit 2 (promote s0) AND 0x3f"

definition sextet1 :: "u_char \<Rightarrow> u_char \<Rightarrow> 32 word" where
  "sextet1 s0 s1 = push_bit 4 (promote s0 AND 3) OR drop_bit 4 (promote s1)"

definition sextet2 :: "u_char \<Rightarrow> u_char \<Rightarrow> 32 word" where
  "sextet2 s1 s2 = push_bit 2 (promote s1 AND 0x0f) OR drop_bit 6 (promote s2)"

definition sextet3 :: "u_char \<Rightarrow> 32 word" where
  "sextet3 s2 = promote s2 AND 0x3f"

definition last_sextet1 :: "u_char \<Rightarrow> 32 word" where
  "last_sextet1 s0 = push_bit 4 (promote s0 AND 3)"

definition last_sextet2 :: "u_char \<Rightarrow> 32 word" where
  "last_sextet2 s1 = push_bit 2 (promote s1 AND 0x0f)"

fun ngx_encode_base64url :: "bytes \<Rightarrow> bytes" where
  "ngx_encode_base64url (s0 # s1 # s2 # s) =
     basis ! unat (sextet0 s0) # basis ! unat (sextet1 s0 s1)
     # basis ! unat (sextet2 s1 s2) # basis ! unat (sextet3 s2)
     # ngx_encode_base64url s"
| "ngx_encode_base64url [s0, s1] =
     [basis ! unat (sextet0 s0), basis ! unat (sextet1 s0 s1), basis ! unat (last_sextet2 s1)]"
| "ngx_encode_base64url [s0] = [basis ! unat (sextet0 s0), basis ! unat (last_sextet1 s0)]"
| "ngx_encode_base64url [] = []"

section \<open>Decoder\<close>

definition ngx_compat_b64url_char :: "u_char \<Rightarrow> int" where
  "ngx_compat_b64url_char c =
     (let n = (of_char c :: int) in
      if 65 \<le> n \<and> n \<le> 90 then n - 65
      else if 97 \<le> n \<and> n \<le> 122 then n - 97 + 26
      else if 48 \<le> n \<and> n \<le> 57 then n - 48 + 52
      else if c = CHR ''-'' then 62
      else if c = CHR ''_'' then 63
      else - 1)"

fun decode_loop :: "bytes \<Rightarrow> nat \<Rightarrow> 32 word \<Rightarrow> bytes \<Rightarrow> ngx_int_t \<times> bytes" where
  "decode_loop [] bits buf out = (NGX_OK, out)"
| "decode_loop (ch # src) bits buf out =
     (if ch = CHR ''='' then decode_loop src bits buf out
      else
        let v = ngx_compat_b64url_char ch in
        if v < 0 then (NGX_ERROR, [])
        else
          let buf = push_bit 6 buf OR word_of_int v; bits = bits + 6 in
          if 8 \<le> bits then
            decode_loop src (bits - 8) buf
              (out @ [char_of (unat (signed_drop_bit (bits - 8) buf AND 0xff))])
          else decode_loop src bits buf out)"

definition ngx_decode_base64url :: "bytes \<Rightarrow> ngx_int_t \<times> bytes" where
  "ngx_decode_base64url src = decode_loop src 0 0 []"

definition ngx_base64_encoded_length :: "nat \<Rightarrow> nat" where
  "ngx_base64_encoded_length len = (len + 2) div 3 * 4"

definition ngx_base64_decoded_length :: "nat \<Rightarrow> nat" where
  "ngx_base64_decoded_length len = (len + 3) div 4 * 3"

text \<open>What a caller sees: the bytes on \<open>NGX_OK\<close>, nothing otherwise.\<close>

definition decoded :: "bytes \<Rightarrow> bytes option" where
  "decoded src = (case ngx_decode_base64url src of (NGX_OK, d) \<Rightarrow> Some d | _ \<Rightarrow> None)"

section \<open>The interface other components rely on\<close>

locale base64url_codec =
  fixes enc :: "bytes \<Rightarrow> bytes"
    and dec :: "bytes \<Rightarrow> bytes option"
  assumes dec_enc: "dec (enc x) = Some x"
    and enc_alphabet: "set (enc x) \<subseteq> set basis"
    and enc_fits: "length (enc x) \<le> ngx_base64_encoded_length (length x)"
    and dec_fits: "dec x = Some y \<Longrightarrow> length y \<le> ngx_base64_decoded_length (length x)"
begin

lemma enc_inj: "enc x = enc y \<longleftrightarrow> x = y"
  by (metis dec_enc option.inject)

lemma enc_no_quote: "CHR 0x22 \<notin> set (enc x)" "CHR 0x5C \<notin> set (enc x)"
  using enc_alphabet [of x] by (auto simp: basis_def)

end

section \<open>Bit-level facts about one group of four characters\<close>

lemma b64url_char_basis:
  "i < 64 \<Longrightarrow> ngx_compat_b64url_char (basis ! i) = int i \<and> basis ! i \<noteq> CHR ''=''"
proof -
  have "\<forall>i \<in> set [0..<64]. ngx_compat_b64url_char (basis ! i) = int i \<and> basis ! i \<noteq> CHR ''=''"
    by code_simp
  then show "i < 64 \<Longrightarrow> ?thesis" by simp
qed

lemma mask_lits:
  "(0xff :: 32 word) = mask 8" "(0x3f :: 32 word) = mask 6"
  "(0x0f :: 32 word) = mask 4" "(3 :: 32 word) = mask 2"
  by (simp_all add: mask_eq_exp_minus_1)

lemma less8_cases:
  "n < 8 \<Longrightarrow> n = 0 \<or> n = Suc 0 \<or> n = 2 \<or> n = 3 \<or> n = 4 \<or> n = 5 \<or> n = 6 \<or> n = (7::nat)"
  by arith

lemmas sextet_defs =
  sextet0_def sextet1_def sextet2_def sextet3_def last_sextet1_def last_sextet2_def

lemmas group_simps = bit_simps bit_promote numeral_2_eq_2 [symmetric] numeral_3_eq_3 [symmetric]

lemma group_byte0:
  "signed_drop_bit 4 (push_bit 6 (push_bit 6 buf OR sextet0 a) OR sextet1 a b) AND 0xff = promote a"
  unfolding sextet_defs mask_lits
proof (rule bit_word_eqI, goal_cases)
  case (1 n)
  then show ?case by (cases "n < 8") (auto simp: group_simps dest!: less8_cases)
qed

lemma group_byte1:
  "signed_drop_bit 2 (push_bit 6 (push_bit 6 buf OR sextet1 a b) OR sextet2 b c) AND 0xff = promote b"
  unfolding sextet_defs mask_lits
proof (rule bit_word_eqI, goal_cases)
  case (1 n)
  then show ?case by (cases "n < 8") (auto simp: group_simps dest!: less8_cases)
qed

lemma group_byte2:
  "signed_drop_bit 0 (push_bit 6 (push_bit 6 buf OR sextet2 b c) OR sextet3 c) AND 0xff = promote c"
  unfolding sextet_defs mask_lits
proof (rule bit_word_eqI, goal_cases)
  case (1 n)
  then show ?case by (cases "n < 8") (auto simp: group_simps dest!: less8_cases)
qed

lemma last_byte0:
  "signed_drop_bit 4 (push_bit 6 (push_bit 6 buf OR sextet0 a) OR last_sextet1 a) AND 0xff = promote a"
  unfolding sextet_defs mask_lits
proof (rule bit_word_eqI, goal_cases)
  case (1 n)
  then show ?case by (cases "n < 8") (auto simp: group_simps dest!: less8_cases)
qed

lemma last_byte1:
  "signed_drop_bit 2 (push_bit 6 (push_bit 6 buf OR sextet1 a b) OR last_sextet2 b) AND 0xff = promote b"
  unfolding sextet_defs mask_lits
proof (rule bit_word_eqI, goal_cases)
  case (1 n)
  then show ?case by (cases "n < 8") (auto simp: group_simps dest!: less8_cases)
qed

lemma unat_less_64:
  fixes w :: "32 word"
  assumes "\<And>n. 6 \<le> n \<Longrightarrow> \<not> bit w n"
  shows "unat w < 64"
proof -
  have "take_bit 6 w = w"
    by (rule bit_word_eqI) (use assms not_less in \<open>auto simp: bit_simps\<close>)
  then have "take_bit 6 (unat w) = unat w"
    by (metis unsigned_take_bit_eq)
  then show ?thesis using take_bit_nat_less_exp [of 6 "unat w"] by simp
qed

lemma sextet_less_64:
  "unat (sextet0 a) < 64" "unat (sextet1 a b) < 64" "unat (sextet2 b c) < 64"
  "unat (sextet3 c) < 64" "unat (last_sextet1 a) < 64" "unat (last_sextet2 b) < 64"
  by (rule unat_less_64, auto simp: sextet_defs mask_lits bit_simps bit_promote)+

section \<open>The round trip\<close>

lemma decode_step:
  fixes w :: "32 word"
  assumes "unat w < 64"
  shows "decode_loop (basis ! unat w # src) bits buf out =
     (if 2 \<le> bits
      then decode_loop src (bits - 2) (push_bit 6 buf OR w)
             (out @ [char_of (unat (signed_drop_bit (bits - 2) (push_bit 6 buf OR w) AND 0xff))])
      else decode_loop src (bits + 6) (push_bit 6 buf OR w) out)"
  using b64url_char_basis [OF assms] by (simp add: Let_def)

lemma decode_group:
  "decode_loop (basis ! unat (sextet0 a) # basis ! unat (sextet1 a b) # basis ! unat (sextet2 b c)
       # basis ! unat (sextet3 c) # src) 0 buf out =
     decode_loop src 0
       (push_bit 6 (push_bit 6 (push_bit 6 (push_bit 6 buf OR sextet0 a) OR sextet1 a b)
          OR sextet2 b c) OR sextet3 c)
       (out @ [a, b, c])"
  by (simp add: decode_step sextet_less_64 group_byte0 group_byte1 group_byte2
        unat_promote del: decode_loop.simps push_bit_or push_bit_push_bit signed_drop_bit_0)

lemma decode_encode_loop:
  "decode_loop (ngx_encode_base64url x) 0 buf out = (NGX_OK, out @ x)"
proof (induction x arbitrary: buf out rule: ngx_encode_base64url.induct)
  case (1 s0 s1 s2 s)
  then show ?case by (simp add: decode_group del: decode_loop.simps push_bit_or push_bit_push_bit)
next
  case (2 s0 s1)
  show ?case
    by (simp add: decode_step sextet_less_64 group_byte0 last_byte1 unat_promote
          del: decode_loop.simps(2) push_bit_or push_bit_push_bit)
next
  case (3 s0)
  show ?case
    by (simp add: decode_step sextet_less_64 last_byte0 unat_promote
          del: decode_loop.simps(2) push_bit_or push_bit_push_bit)
next
  case 4
  then show ?case by simp
qed

lemma decoded_encode: "decoded (ngx_encode_base64url x) = Some x"
  by (simp add: decoded_def ngx_decode_base64url_def decode_encode_loop)

lemma basis_nth_in: "i < 64 \<Longrightarrow> basis ! i \<in> set basis"
  by (rule nth_mem) (simp add: basis_def)

lemma encode_alphabet: "set (ngx_encode_base64url x) \<subseteq> set basis"
  by (induction x rule: ngx_encode_base64url.induct) (auto simp: basis_nth_in sextet_less_64)

lemma encode_length: "length (ngx_encode_base64url x) = (4 * length x + 2) div 3"
  by (induction x rule: ngx_encode_base64url.induct) auto

lemma decode_loop_length:
  "bits < 8 \<Longrightarrow> decode_loop src bits buf out = (NGX_OK, d)
   \<Longrightarrow> 8 * length d \<le> 8 * length out + bits + 6 * length src"
proof (induction src bits buf out rule: decode_loop.induct)
  case (1 bits buf out)
  then show ?case by simp
next
  case (2 ch src bits buf out)
  then show ?case
    by (fastforce simp: Let_def split: if_splits)
qed

lemma decoded_length: "decoded x = Some y \<Longrightarrow> 4 * length y \<le> 3 * length x"
  using decode_loop_length [of 0 x 0 "[]" y]
  by (auto simp: decoded_def ngx_decode_base64url_def split: prod.splits ngx_int_t.splits)

interpretation compat: base64url_codec ngx_encode_base64url decoded
proof unfold_locales
  show "decoded (ngx_encode_base64url x) = Some x" for x
    by (rule decoded_encode)
  show "set (ngx_encode_base64url x) \<subseteq> set basis" for x
    by (rule encode_alphabet)
  show "length (ngx_encode_base64url x) \<le> ngx_base64_encoded_length (length x)" for x
    unfolding encode_length ngx_base64_encoded_length_def by presburger
  show "length y \<le> ngx_base64_decoded_length (length x)" if "decoded x = Some y" for x y
    using decoded_length [OF that] unfolding ngx_base64_decoded_length_def by presburger
qed

section \<open>Properties\<close>

text \<open>C28: the shim's base64url codec round-trips. Decoding an encoded string gives it back, and neither
  direction writes past the buffer its caller allocates with \<open>ngx_base64_encoded_length\<close> or
  \<open>ngx_base64_decoded_length\<close>, whatever the input of the decoder; an encoded string is made of the 64
  alphabet characters only, so it needs no escaping in JSON.\<close>

theorem base64url_roundtrip:
  "ngx_decode_base64url (ngx_encode_base64url x) = (NGX_OK, x)
   \<and> length (ngx_encode_base64url x) \<le> ngx_base64_encoded_length (length x)
   \<and> length (snd (ngx_decode_base64url src)) \<le> ngx_base64_decoded_length (length src)
   \<and> set (ngx_encode_base64url x) \<subseteq> set basis"
proof -
  have "fst (decode_loop src bits buf out) \<noteq> NGX_DECLINED \<and>
      (fst (decode_loop src bits buf out) = NGX_ERROR \<longrightarrow> snd (decode_loop src bits buf out) = [])"
    for src bits buf out
    by (induction src bits buf out rule: decode_loop.induct) (auto simp: Let_def)
  then have "length (snd (ngx_decode_base64url src)) \<le> ngx_base64_decoded_length (length src)"
    using compat.dec_fits [of src "snd (ngx_decode_base64url src)"]
    by (cases "ngx_decode_base64url src"; cases "fst (ngx_decode_base64url src)")
      (auto simp: decoded_def ngx_decode_base64url_def, (metis fst_conv list.size(3) snd_conv zero_le)+)
  moreover have "ngx_decode_base64url (ngx_encode_base64url x) = (NGX_OK, x)"
    by (simp add: ngx_decode_base64url_def decode_encode_loop)
  ultimately show ?thesis using compat.enc_fits compat.enc_alphabet by blast
qed

end
