(* ===== verification/Clientdata.thy ===== *)
theory Clientdata
  imports Base64url
begin

text \<open>
  \<open>src/ngx_auth_webauthn_clientdata.c\<close>: the clientDataJSON verifier. JSON parsing is the
  \<open>nxe-json\<close> submodule, not part of the repository: its functions are the fields of a record, over
  an opaque node type. \<open>ngx_decode_base64url\<close> is nginx core's and a parameter too (the CLI links
  the shim's, \<^theory_text>\<open>Base64url\<close>).
\<close>

section \<open>The JSON library\<close>

record 'j nxe_json =
  nxe_json_parse_untrusted :: "bytes \<Rightarrow> 'j option"
  nxe_json_object_get :: "'j \<Rightarrow> string \<Rightarrow> 'j option"
  nxe_json_string :: "'j \<Rightarrow> bytes option"
  nxe_json_boolean :: "'j \<Rightarrow> bool option"
  nxe_json_is_object :: "'j \<Rightarrow> bool"
  nxe_json_object_get_string :: "'j \<Rightarrow> string \<Rightarrow> bytes option"

section \<open>The verifier\<close>

definition ngx_auth_webauthn_clientdata_get_string :: "'j nxe_json \<Rightarrow> 'j \<Rightarrow> string \<Rightarrow> bytes option" where
  "ngx_auth_webauthn_clientdata_get_string js root key =
     (case nxe_json_object_get js root key of
        None \<Rightarrow> None
      | Some node \<Rightarrow>
          (case nxe_json_string js node of
             None \<Rightarrow> None
           | Some out \<Rightarrow> Some out))"

definition ngx_auth_webauthn_str_equal :: "bytes \<Rightarrow> bytes \<Rightarrow> bool" where
  "ngx_auth_webauthn_str_equal a b \<longleftrightarrow> length a = length b \<and> (length a = 0 \<or> take (length a) a = take (length a) b)"

fun origin_match :: "bytes \<Rightarrow> bytes list \<Rightarrow> ngx_int_t" where
  "origin_match origin [] = NGX_DECLINED"
| "origin_match origin (a # as) =
     (if ngx_auth_webauthn_str_equal origin a then NGX_OK else origin_match origin as)"

definition ngx_auth_webauthn_clientdata_verify ::
    "'j nxe_json \<Rightarrow> (bytes \<Rightarrow> bytes option) \<Rightarrow> ngx_pool_t option \<Rightarrow> bytes option \<Rightarrow> nat
     \<Rightarrow> bytes option \<Rightarrow> bytes option \<Rightarrow> bytes list option \<Rightarrow> nat \<Rightarrow> ngx_int_t" where
  "ngx_auth_webauthn_clientdata_verify js decode_base64url pool data len expected_type
       expected_challenge allowed_origins norigins =
     (if pool = None \<or> data = None \<or> expected_type = None \<or> expected_challenge = None
         \<or> (norigins > 0 \<and> allowed_origins = None)
      then NGX_ERROR
      else
        case nxe_json_parse_untrusted js (take len (the data)) of
          None \<Rightarrow> NGX_DECLINED
        | Some root \<Rightarrow>
        (case ngx_auth_webauthn_clientdata_get_string js root ''type'' of
          None \<Rightarrow> NGX_DECLINED
        | Some type \<Rightarrow>
        if \<not> ngx_auth_webauthn_str_equal type (the expected_type) then NGX_DECLINED
        else
        (case ngx_auth_webauthn_clientdata_get_string js root ''challenge'' of
          None \<Rightarrow> NGX_DECLINED
        | Some challenge_b64 \<Rightarrow>
        if \<not> the pool ''challenge.data'' (ngx_base64_decoded_length (length challenge_b64))
        then NGX_ERROR
        else
        (case decode_base64url challenge_b64 of
          None \<Rightarrow> NGX_DECLINED
        | Some challenge \<Rightarrow>
        if length challenge \<noteq> length (the expected_challenge)
           \<or> challenge \<noteq> take (length challenge) (the expected_challenge)
        then NGX_DECLINED
        else
        (case ngx_auth_webauthn_clientdata_get_string js root ''origin'' of
          None \<Rightarrow> NGX_DECLINED
        | Some origin \<Rightarrow>
        if origin_match origin (if norigins = 0 then [] else take norigins (the allowed_origins)) \<noteq> NGX_OK
        then NGX_DECLINED
        else
        (case nxe_json_object_get js root ''crossOrigin'' of
          None \<Rightarrow> NGX_OK
        | Some node \<Rightarrow>
            if nxe_json_boolean js node = Some True then NGX_DECLINED else NGX_OK))))))"

section \<open>Specification\<close>

text \<open>WebAuthn 7.2: the client data is for this ceremony, names this challenge, comes from an
  allowed origin and is not cross-origin.\<close>

definition clientdata_ok ::
    "'j nxe_json \<Rightarrow> (bytes \<Rightarrow> bytes option) \<Rightarrow> bytes \<Rightarrow> bytes \<Rightarrow> bytes \<Rightarrow> bytes list \<Rightarrow> bool" where
  "clientdata_ok js dec raw type challenge origins \<longleftrightarrow>
     (\<exists>root b64 origin.
        nxe_json_parse_untrusted js raw = Some root
        \<and> ngx_auth_webauthn_clientdata_get_string js root ''type'' = Some type
        \<and> ngx_auth_webauthn_clientdata_get_string js root ''challenge'' = Some b64
        \<and> dec b64 = Some challenge
        \<and> ngx_auth_webauthn_clientdata_get_string js root ''origin'' = Some origin
        \<and> origin \<in> set origins
        \<and> \<not> (\<exists>node. nxe_json_object_get js root ''crossOrigin'' = Some node
                     \<and> nxe_json_boolean js node = Some True))"

lemma str_equal_iff [simp]: "ngx_auth_webauthn_str_equal a b \<longleftrightarrow> a = b"
  by (auto simp: ngx_auth_webauthn_str_equal_def)

lemma origin_match_OK [simp]: "origin_match origin os = NGX_OK \<longleftrightarrow> origin \<in> set os"
  by (induction os) auto

lemma memcmp_eq: "length a = length b \<and> a = take (length a) b \<longleftrightarrow> a = b"
  by auto

lemma clientdata_verify_OK:
  assumes "ngx_auth_webauthn_clientdata_verify js dec (Some pool) (Some data) (length data) (Some type)
             (Some challenge) (Some origins) (length origins) = NGX_OK"
  shows "clientdata_ok js dec data type challenge origins"
  using assms
  by (auto simp: ngx_auth_webauthn_clientdata_verify_def clientdata_ok_def split: option.splits if_splits)

lemma clientdata_verify_complete:
  assumes "clientdata_ok js dec data type challenge origins" and "\<And>site n. pool site n"
  shows "ngx_auth_webauthn_clientdata_verify js dec (Some pool) (Some data) (length data) (Some type)
           (Some challenge) (Some origins) (length origins) = NGX_OK"
  using assms
  by (auto simp: ngx_auth_webauthn_clientdata_verify_def clientdata_ok_def split: option.splits if_splits)

lemma clientdata_verify_iff:
  assumes "\<And>site n. pool site n"
  shows "ngx_auth_webauthn_clientdata_verify js dec (Some pool) (Some data) (length data) (Some type)
           (Some challenge) (Some origins) (length origins) = NGX_OK
         \<longleftrightarrow> clientdata_ok js dec data type challenge origins"
  using clientdata_verify_OK clientdata_verify_complete assms by metis

lemma clientdata_verify_ERROR:
  assumes "ngx_auth_webauthn_clientdata_verify js dec (Some pool) (Some data) len (Some type)
             (Some challenge) (Some origins) norigins = NGX_ERROR"
  shows "\<exists>n. \<not> pool ''challenge.data'' n"
  using assms
  by (auto simp: ngx_auth_webauthn_clientdata_verify_def split: option.splits if_splits)

end
