(* ===== verification/Examples.thy ===== *)
theory Examples
  imports Authdata Clientdata
begin

text \<open>
  Concrete instances of the parameters, at which the witnesses apply the theorems: a stand-in for
  OpenSSL whose digest is the padded first 32 bytes and whose signature of a message is the key
  followed by the message, and a JSON library that knows a few documents. They satisfy the
  documented laws the theorems assume; nothing else rests on them.
\<close>

section \<open>OpenSSL\<close>

definition ex_key :: "bytes \<Rightarrow> (evp_pkey_type \<times> bytes) option" where
  "ex_key der =
     (case der of
        [] \<Rightarrow> None
      | c # k \<Rightarrow>
          if c = CHR ''E'' then Some (EVP_PKEY_EC, k)
          else if c = CHR ''R'' then Some (EVP_PKEY_RSA, k)
          else if c = CHR ''D'' then Some (EVP_PKEY_ED25519, k)
          else None)"

definition ex_der :: "evp_pkey_type \<times> bytes \<Rightarrow> bytes" where
  "ex_der key =
     (case fst key of
        EVP_PKEY_EC \<Rightarrow> CHR ''E'' | EVP_PKEY_RSA \<Rightarrow> CHR ''R''
      | EVP_PKEY_ED25519 \<Rightarrow> CHR ''D'' | EVP_PKEY_OTHER \<Rightarrow> CHR ''?'') # snd key"

definition ex_ossl :: "(evp_pkey_type \<times> bytes) openssl" where
  "ex_ossl =
     \<lparr> EVP_Digest = (\<lambda>x. Some (take 32 (x @ replicate 32 (CHR 0x00)))),
       d2i_PUBKEY = ex_key,
       i2d_PUBKEY_len = (\<lambda>k. int (length (ex_der k))),
       i2d_PUBKEY = (\<lambda>k. (int (length (ex_der k)), ex_der k)),
       EVP_PKEY_base_id = fst,
       EVP_MD_CTX_new = True,
       EVP_DigestVerifyInit = (\<lambda>md k. True),
       EVP_DigestVerify = (\<lambda>md k sig msg. if sig = snd k @ msg then 1 else 0),
       EC_pubkey = (\<lambda>p. Some (EVP_PKEY_EC, p)),
       RSA_pubkey = (\<lambda>n e. Some (EVP_PKEY_RSA, n @ e)),
       ED25519_pubkey = (\<lambda>x. Some (EVP_PKEY_ED25519, x)) \<rparr>"

lemma ex_ossl_sha256: "sha256 ex_ossl x = Some (take 32 (x @ replicate 32 (CHR 0x00)))"
  by (auto simp: sha256_def ex_ossl_def NGX_AUTH_WEBAUTHN_SHA256_LEN_def min_def)

lemma ex_ossl_total: "sha256_total ex_ossl"
  by (auto simp: sha256_total_def ex_ossl_def min_def)

section \<open>JSON\<close>

datatype ex_node = Ex_object "(string \<times> ex_node) list" | Ex_string bytes | Ex_bool bool

definition ex_js :: "(bytes \<times> ex_node) list \<Rightarrow> ex_node nxe_json" where
  "ex_js docs =
     \<lparr> nxe_json_parse_untrusted = map_of docs,
       nxe_json_object_get = (\<lambda>n k. case n of Ex_object kvs \<Rightarrow> map_of kvs k | _ \<Rightarrow> None),
       nxe_json_string = (\<lambda>n. case n of Ex_string s \<Rightarrow> Some s | _ \<Rightarrow> None),
       nxe_json_boolean = (\<lambda>n. case n of Ex_bool b \<Rightarrow> Some b | _ \<Rightarrow> None),
       nxe_json_is_object = (\<lambda>n. case n of Ex_object _ \<Rightarrow> True | _ \<Rightarrow> False),
       nxe_json_object_get_string =
         (\<lambda>n k. case n of
                  Ex_object kvs \<Rightarrow> (case map_of kvs k of Some (Ex_string s) \<Rightarrow> Some s | _ \<Rightarrow> None)
                | _ \<Rightarrow> None) \<rparr>"

section \<open>A login\<close>

definition ex_challenge :: bytes where
  "ex_challenge = ''0123456789abcdef0123456789abcdef''"

definition ex_client_data :: "(bytes \<times> ex_node) list" where
  "ex_client_data =
     [(''CD'', Ex_object [(''type'', Ex_string ''webauthn.get''),
                          (''challenge'', Ex_string (ngx_encode_base64url ex_challenge)),
                          (''origin'', Ex_string ''https://a''), (''crossOrigin'', Ex_bool False)])]"

definition ex_auth_data :: bytes where
  "ex_auth_data = ''rp'' @ replicate 30 (CHR 0x00) @ [CHR 0x05] @ [CHR 0x00, CHR 0x00, CHR 0x00, CHR 0x09]"

definition ex_pool :: ngx_pool_t where
  "ex_pool site n = True"

lemma ex_pool [simp]: "ex_pool site n"
  by (simp add: ex_pool_def)

lemma ex_clientdata_ok:
  "clientdata_ok (ex_js ex_client_data) decoded ''CD'' ''webauthn.get'' ex_challenge [''https://a'']"
  by (simp add: clientdata_ok_def ex_js_def ex_client_data_def ngx_auth_webauthn_clientdata_get_string_def
      decoded_encode)

end
