(* ===== verification/Assertion.thy ===== *)
theory Assertion
  imports Examples
begin

unbundle bit_operations_syntax

text \<open>
  \<open>src/ngx_auth_webauthn_assertion.c\<close>: the assertion verifier, with its counter and signature
  checks. The specification \<open>valid_assertion\<close> is WebAuthn 7.2 over the parts the other components
  specify; the verifier decides it.
\<close>

section \<open>Data\<close>

datatype clone_detection =
  NGX_AUTH_WEBAUTHN_CLONE_STRICT | NGX_AUTH_WEBAUTHN_CLONE_LAX | NGX_AUTH_WEBAUTHN_CLONE_OFF

record assertion =
  as_authenticator_data :: "bytes option"
  as_client_data_json :: "bytes option"
  as_signature :: bytes

record assertion_cred =
  ac_public_key :: bytes
  ac_alg :: "32 word"
  ac_sign_count :: "32 word"

record assertion_policy =
  pol_rp_id :: bytes
  pol_expected_challenge :: bytes
  pol_allowed_origins :: "bytes list option"
  pol_norigins :: nat
  pol_require_uv :: bool
  pol_clone_detection :: clone_detection

record assertion_result =
  auth_sign_count :: "32 word"

text \<open>The bytes behind an \<open>ngx_str_t\<close> with \<open>data\<close> possibly \<open>NULL\<close>, and its \<open>len\<close>.\<close>

definition str_len :: "bytes option \<Rightarrow> nat" where
  "str_len s = (case s of None \<Rightarrow> 0 | Some x \<Rightarrow> length x)"

lemma str_len_simps [simp]: "str_len None = 0" "str_len (Some x) = length x"
  by (simp_all add: str_len_def)

section \<open>The checks\<close>

definition ngx_auth_webauthn_assertion_check_counter ::
    "clone_detection \<Rightarrow> 32 word \<Rightarrow> 32 word \<Rightarrow> ngx_int_t" where
  "ngx_auth_webauthn_assertion_check_counter policy auth stored =
     (if policy = NGX_AUTH_WEBAUTHN_CLONE_OFF then NGX_OK
      else if auth = 0 \<and> stored = 0 then NGX_OK
      else if auth > stored then NGX_OK
      else if policy = NGX_AUTH_WEBAUTHN_CLONE_LAX then NGX_OK
      else NGX_DECLINED)"

text \<open>The \<open>switch\<close> on the stored algorithm: digest and required key type.\<close>

definition alg_params :: "32 word \<Rightarrow> (evp_md option \<times> evp_pkey_type) option" where
  "alg_params alg =
     (if alg = - 7 then Some (Some EVP_sha256, EVP_PKEY_EC)
      else if alg = - 257 then Some (Some EVP_sha256, EVP_PKEY_RSA)
      else if alg = - 8 then Some (None, EVP_PKEY_ED25519)
      else None)"

definition ngx_auth_webauthn_assertion_check_signature ::
    "'k openssl \<Rightarrow> assertion_cred \<Rightarrow> bytes \<Rightarrow> nat \<Rightarrow> bytes \<Rightarrow> ngx_int_t" where
  "ngx_auth_webauthn_assertion_check_signature ossl cred signed_data signed_len signature =
     (case alg_params (ac_alg cred) of
        None \<Rightarrow> NGX_ERROR
      | Some (md, want_type) \<Rightarrow>
        (case d2i_PUBKEY ossl (ac_public_key cred) of
           None \<Rightarrow> NGX_ERROR
         | Some pkey \<Rightarrow>
             if EVP_PKEY_base_id ossl pkey \<noteq> want_type then NGX_ERROR
             else if \<not> EVP_MD_CTX_new ossl then NGX_ERROR
             else if EVP_DigestVerifyInit ossl md pkey then
               let ret = EVP_DigestVerify ossl md pkey signature (take signed_len signed_data) in
               if ret = 1 then NGX_OK else if ret = 0 then NGX_DECLINED else NGX_ERROR
             else NGX_ERROR))"

section \<open>The verifier\<close>

definition ngx_auth_webauthn_assertion_verify ::
    "'k openssl \<Rightarrow> 'j nxe_json \<Rightarrow> (bytes \<Rightarrow> bytes option) \<Rightarrow> ngx_pool_t option \<Rightarrow> assertion option
     \<Rightarrow> assertion_cred option \<Rightarrow> assertion_policy option \<Rightarrow> assertion_result option
     \<Rightarrow> ngx_int_t \<times> assertion_result option" where
  "ngx_auth_webauthn_assertion_verify ossl js decode_base64url pool assertion cred policy result =
     (if pool = None \<or> assertion = None \<or> cred = None \<or> policy = None \<or> result = None
         \<or> (pol_norigins (the policy) > 0 \<and> pol_allowed_origins (the policy) = None)
      then (NGX_ERROR, result)
      else
        let a = the assertion; c = the cred; pol = the policy;
            client_data = as_client_data_json a; auth_data = as_authenticator_data a;
            rc = ngx_auth_webauthn_clientdata_verify js decode_base64url pool client_data
                   (str_len client_data) (Some ''webauthn.get'') (Some (pol_expected_challenge pol))
                   (pol_allowed_origins pol) (pol_norigins pol)
        in
        if rc \<noteq> NGX_OK then (rc, result)
        else
        let (rc, ad) = ngx_auth_webauthn_authdata_parse auth_data (str_len auth_data) (Some authdata_zero) in
        if rc \<noteq> NGX_OK then (rc, result)
        else
        let ad = the ad in
        if ad_flags ad AND (FLAG_AT OR FLAG_ED) \<noteq> 0 then (NGX_DECLINED, result)
        else
        let (rc, rp_id_hash) =
              ngx_auth_webauthn_hash_sha256 ossl (Some (pol_rp_id pol)) (length (pol_rp_id pol)) (Some [])
        in
        if rc \<noteq> NGX_OK then (NGX_ERROR, result)
        else if the rp_id_hash \<noteq> ad_rp_id_hash ad then (NGX_DECLINED, result)
        else if ad_flags ad AND FLAG_UP = 0 then (NGX_DECLINED, result)
        else if pol_require_uv pol \<and> ad_flags ad AND FLAG_UV = 0 then (NGX_DECLINED, result)
        else if ngx_auth_webauthn_assertion_check_counter (pol_clone_detection pol) (ad_sign_count ad)
                  (ac_sign_count c) \<noteq> NGX_OK
        then (NGX_DECLINED, result)
        else
        let signed_len = str_len auth_data + NGX_AUTH_WEBAUTHN_SHA256_LEN in
        if \<not> the pool ''signed_data'' signed_len then (NGX_ERROR, result)
        else
        let (rc, digest) = ngx_auth_webauthn_hash_sha256 ossl client_data (str_len client_data) (Some []) in
        if rc \<noteq> NGX_OK then (NGX_ERROR, result)
        else
        let rc = ngx_auth_webauthn_assertion_check_signature ossl c (the auth_data @ the digest) signed_len
                   (as_signature a)
        in
        if rc \<noteq> NGX_OK then (rc, result)
        else (NGX_OK, Some \<lparr> auth_sign_count = ad_sign_count ad \<rparr>))"

section \<open>Specification\<close>

text \<open>A signature of the credential's key over \<open>msg\<close>, with the algorithm the record names and a key
  of that algorithm's type.\<close>

definition valid_signature :: "'k openssl \<Rightarrow> assertion_cred \<Rightarrow> bytes \<Rightarrow> bytes \<Rightarrow> bool" where
  "valid_signature ossl cred msg sig \<longleftrightarrow>
     (\<exists>md type key. alg_params (ac_alg cred) = Some (md, type)
        \<and> d2i_PUBKEY ossl (ac_public_key cred) = Some key \<and> EVP_PKEY_base_id ossl key = type
        \<and> EVP_MD_CTX_new ossl \<and> EVP_DigestVerifyInit ossl md key
        \<and> EVP_DigestVerify ossl md key sig msg = 1)"

definition counter_ok :: "clone_detection \<Rightarrow> 32 word \<Rightarrow> 32 word \<Rightarrow> bool" where
  "counter_ok policy auth stored \<longleftrightarrow>
     policy = NGX_AUTH_WEBAUTHN_CLONE_STRICT \<longrightarrow> auth = 0 \<and> stored = 0 \<or> stored < auth"

definition valid_assertion ::
    "'k openssl \<Rightarrow> 'j nxe_json \<Rightarrow> (bytes \<Rightarrow> bytes option) \<Rightarrow> bytes \<Rightarrow> bytes \<Rightarrow> bytes \<Rightarrow> assertion_cred
     \<Rightarrow> assertion_policy \<Rightarrow> bytes list \<Rightarrow> 32 word \<Rightarrow> bool" where
  "valid_assertion ossl js dec ad_raw cd_raw sig cred pol origins count \<longleftrightarrow>
     clientdata_ok js dec cd_raw ''webauthn.get'' (pol_expected_challenge pol) origins
     \<and> (\<exists>rp flags rest digest.
          ad_raw = rp @ [of_byte flags] @ be32_bytes count @ rest
          \<and> sha256 ossl (pol_rp_id pol) = Some rp
          \<and> sha256 ossl cd_raw = Some digest
          \<and> flags AND FLAG_AT = 0 \<and> flags AND FLAG_ED = 0
          \<and> flags AND FLAG_UP \<noteq> 0 \<and> (pol_require_uv pol \<longrightarrow> flags AND FLAG_UV \<noteq> 0)
          \<and> valid_signature ossl cred (ad_raw @ digest) sig)
     \<and> counter_ok (pol_clone_detection pol) count (ac_sign_count cred)"

section \<open>Lemmas\<close>

lemma check_counter_OK [simp]:
  "ngx_auth_webauthn_assertion_check_counter policy auth stored = NGX_OK \<longleftrightarrow> counter_ok policy auth stored"
  by (cases policy) (auto simp: ngx_auth_webauthn_assertion_check_counter_def counter_ok_def)

lemma check_signature_OK [simp]:
  "ngx_auth_webauthn_assertion_check_signature ossl cred msg len sig = NGX_OK
     \<longleftrightarrow> valid_signature ossl cred (take len msg) sig"
  by (auto simp: ngx_auth_webauthn_assertion_check_signature_def valid_signature_def Let_def
      split: option.splits if_splits)

lemma sha256_length: "sha256 ossl x = Some d \<Longrightarrow> length d = 32"
  by (auto simp: sha256_def NGX_AUTH_WEBAUTHN_SHA256_LEN_def split: option.splits if_splits)

lemma flags_mask: "(f :: 8 word) AND (FLAG_AT OR FLAG_ED) = 0 \<longleftrightarrow> f AND FLAG_AT = 0 \<and> f AND FLAG_ED = 0"
  by (auto simp: bit.conj_disj_distrib or_eq_0_iff)

text \<open>Without attested data an accepted authenticatorData is the 37-byte prefix and a tail.\<close>

lemma parse_plain:
  "ngx_auth_webauthn_authdata_parse (Some d) (length d) (Some o') = (NGX_OK, Some ad)
     \<and> ad_flags ad AND FLAG_AT = 0
   \<longleftrightarrow> (\<exists>h flags count rest. d = h @ [of_byte flags] @ be32_bytes count @ rest \<and> length h = 32
          \<and> flags AND FLAG_AT = 0
          \<and> ad = authdata_zero\<lparr> ad_rp_id_hash := h, ad_flags := flags, ad_sign_count := count \<rparr>)"
  (is "?l = ?r")
proof
  assume l: ?l
  then have "37 \<le> length d" using authdata_parse_fields(1) by blast
  then obtain h f sc rest where d: "d = h @ f # sc @ rest" and n: "length h = 32" "length sc = 4"
    by (rule split_at_37)
  have "byte f AND FLAG_AT = 0" using l d n authdata_parse_fields(4) [of d "length d" o' ad]
    by (simp add: nth_append)
  with l d n parse_prefix [OF n, of f "length d" rest o'] \<open>37 \<le> length d\<close> show ?r
    by (intro exI [of _ h] exI [of _ "byte f"] exI [of _ "be32 (sc @ rest)"] exI [of _ rest])
      (simp add: be32_bytes_be32)
next
  assume ?r
  then show ?l using parse_prefix [of _ "be32_bytes _"] by (auto simp: be32_bytes authdata_zero_def)
qed

text \<open>The result of \<open>ngx_auth_webauthn_assertion_verify\<close> on non-null arguments, with the checks in
  the order the code makes them.\<close>

lemma assertion_verify_OK_iff:
  assumes "pol_allowed_origins pol = Some origins" and "pol_norigins pol = length origins"
  shows "ngx_auth_webauthn_assertion_verify ossl js dec (Some pool)
      (Some \<lparr> as_authenticator_data = Some ad_raw, as_client_data_json = Some cd_raw, as_signature = sig \<rparr>)
      (Some cred) (Some pol) (Some r0) = (NGX_OK, r)
    \<longleftrightarrow> ngx_auth_webauthn_clientdata_verify js dec (Some pool) (Some cd_raw) (length cd_raw)
          (Some ''webauthn.get'') (Some (pol_expected_challenge pol)) (Some origins) (length origins) = NGX_OK
      \<and> pool ''signed_data'' (length ad_raw + 32)
      \<and> (\<exists>ad digest. ngx_auth_webauthn_authdata_parse (Some ad_raw) (length ad_raw) (Some authdata_zero)
                = (NGX_OK, Some ad)
           \<and> ad_flags ad AND FLAG_AT = 0 \<and> ad_flags ad AND FLAG_ED = 0
           \<and> sha256 ossl (pol_rp_id pol) = Some (ad_rp_id_hash ad)
           \<and> sha256 ossl cd_raw = Some digest
           \<and> ad_flags ad AND FLAG_UP \<noteq> 0 \<and> (pol_require_uv pol \<longrightarrow> ad_flags ad AND FLAG_UV \<noteq> 0)
           \<and> counter_ok (pol_clone_detection pol) (ad_sign_count ad) (ac_sign_count cred)
           \<and> valid_signature ossl cred (ad_raw @ digest) sig
           \<and> r = Some \<lparr> auth_sign_count = ad_sign_count ad \<rparr>)"
  (is "?l = ?r")
proof -
  obtain rc1 o1 where parse: "ngx_auth_webauthn_authdata_parse (Some ad_raw) (length ad_raw) (Some authdata_zero) = (rc1, o1)"
    by fastforce
  obtain rc2 o2 where rp: "ngx_auth_webauthn_hash_sha256 ossl (Some (pol_rp_id pol)) (length (pol_rp_id pol)) (Some []) = (rc2, o2)"
    by fastforce
  obtain rc3 o3 where cd: "ngx_auth_webauthn_hash_sha256 ossl (Some cd_raw) (length cd_raw) (Some []) = (rc3, o3)"
    by fastforce
  note rp' = hash_sha256_OK [of ossl "pol_rp_id pol" "[]"] and cd' = hash_sha256_OK [of ossl cd_raw "[]"]
  show ?thesis
  proof (cases "rc1 = NGX_OK \<and> rc2 = NGX_OK \<and> rc3 = NGX_OK")
    case True
    then obtain ad where "o1 = Some ad"
      using parse authdata_parse_OK_out [of "Some ad_raw" "length ad_raw" authdata_zero] by auto
    moreover obtain h where "sha256 ossl (pol_rp_id pol) = Some h" "o2 = Some h" using rp rp' True by auto
    moreover obtain d where "sha256 ossl cd_raw = Some d" "o3 = Some d" using cd cd' True by auto
    ultimately show ?thesis
      using True parse rp cd assms sha256_length [of ossl cd_raw d]
      by (auto simp: ngx_auth_webauthn_assertion_verify_def flags_mask NGX_AUTH_WEBAUTHN_SHA256_LEN_def Let_def)
  next
    case False
    moreover have "rc2 = NGX_OK" if "sha256 ossl (pol_rp_id pol) \<noteq> None"
      using that rp hash_sha256_bytes [of ossl "pol_rp_id pol" "[]"] by simp
    moreover have "rc3 = NGX_OK" if "sha256 ossl cd_raw \<noteq> None"
      using that cd hash_sha256_bytes [of ossl cd_raw "[]"] by simp
    ultimately show ?thesis
      using parse rp cd assms by (auto simp: ngx_auth_webauthn_assertion_verify_def Let_def)
  qed
qed

lemma assertion_verify_sound:
  assumes "ngx_auth_webauthn_assertion_verify ossl js dec (Some pool)
      (Some \<lparr> as_authenticator_data = Some ad_raw, as_client_data_json = Some cd_raw, as_signature = sig \<rparr>)
      (Some cred) (Some pol) (Some r0) = (NGX_OK, Some \<lparr> auth_sign_count = count \<rparr>)"
    and "pol_allowed_origins pol = Some origins" and "pol_norigins pol = length origins"
  shows "valid_assertion ossl js dec ad_raw cd_raw sig cred pol origins count"
proof -
  from assms(1) obtain ad digest where
    cd: "ngx_auth_webauthn_clientdata_verify js dec (Some pool) (Some cd_raw) (length cd_raw)
          (Some ''webauthn.get'') (Some (pol_expected_challenge pol)) (Some origins) (length origins) = NGX_OK"
    and p: "ngx_auth_webauthn_authdata_parse (Some ad_raw) (length ad_raw) (Some authdata_zero) = (NGX_OK, Some ad)"
           "ad_flags ad AND FLAG_AT = 0"
    and f: "ad_flags ad AND FLAG_ED = 0" "sha256 ossl (pol_rp_id pol) = Some (ad_rp_id_hash ad)"
      "sha256 ossl cd_raw = Some digest" "ad_flags ad AND FLAG_UP \<noteq> 0"
      "pol_require_uv pol \<longrightarrow> ad_flags ad AND FLAG_UV \<noteq> 0"
      "counter_ok (pol_clone_detection pol) (ad_sign_count ad) (ac_sign_count cred)"
      "valid_signature ossl cred (ad_raw @ digest) sig" "count = ad_sign_count ad"
    unfolding assertion_verify_OK_iff [OF assms(2,3)] by auto
  from p obtain h flags n rest where "ad_raw = h @ [of_byte flags] @ be32_bytes n @ rest" "flags AND FLAG_AT = 0"
    "ad = authdata_zero\<lparr> ad_rp_id_hash := h, ad_flags := flags, ad_sign_count := n \<rparr>"
    using parse_plain by blast
  with f clientdata_verify_OK [OF cd] show ?thesis
    unfolding valid_assertion_def
    by (intro conjI exI [of _ h] exI [of _ flags] exI [of _ rest] exI [of _ digest]) (simp_all add: authdata_zero_def)
qed

lemma assertion_verify_complete:
  assumes "\<And>site n. pool site n"
    and "pol_allowed_origins pol = Some origins" and "pol_norigins pol = length origins"
    and "valid_assertion ossl js dec ad_raw cd_raw sig cred pol origins count"
  shows "ngx_auth_webauthn_assertion_verify ossl js dec (Some pool)
      (Some \<lparr> as_authenticator_data = Some ad_raw, as_client_data_json = Some cd_raw, as_signature = sig \<rparr>)
      (Some cred) (Some pol) (Some r0) = (NGX_OK, Some \<lparr> auth_sign_count = count \<rparr>)"
proof -
  note r = assms(4)
  then obtain h flags rest digest where
    d: "ad_raw = h @ [of_byte flags] @ be32_bytes count @ rest" and
    f: "sha256 ossl (pol_rp_id pol) = Some h" "sha256 ossl cd_raw = Some digest" "flags AND FLAG_AT = 0"
      "flags AND FLAG_ED = 0" "flags AND FLAG_UP \<noteq> 0" "pol_require_uv pol \<longrightarrow> flags AND FLAG_UV \<noteq> 0"
      "valid_signature ossl cred (ad_raw @ digest) sig"
    unfolding valid_assertion_def by blast
  define ad where "ad = authdata_zero\<lparr> ad_rp_id_hash := h, ad_flags := flags, ad_sign_count := count \<rparr>"
  have "ngx_auth_webauthn_authdata_parse (Some ad_raw) (length ad_raw) (Some authdata_zero) = (NGX_OK, Some ad)"
    using parse_plain [of ad_raw authdata_zero ad] d f sha256_length [OF f(1)] unfolding ad_def by blast
  with f r clientdata_verify_complete [of js dec cd_raw _ _ _ pool, OF _ assms(1)] assms(1) show ?thesis
    unfolding assertion_verify_OK_iff [OF assms(2,3)]
    by (auto simp: valid_assertion_def ad_def authdata_zero_def)
qed

section \<open>Properties\<close>

text \<open>C8: the assertion verifier decides WebAuthn validity. With memory available,
  \<open>ngx_auth_webauthn_assertion_verify\<close> returns \<open>NGX_OK\<close> with a counter exactly when the client data
  is a \<open>webauthn.get\<close> for the expected challenge from an allowed origin and not cross-origin, the
  authenticator data starts with the hash of the configured RP id, has UP (and UV when required) set
  and AT and ED clear, its counter is acceptable under the clone policy, and the signature over
  \<open>authenticatorData || SHA-256(clientDataJSON)\<close> is valid for the stored key and algorithm.\<close>

theorem assertion_verify_correct:
  assumes "\<And>site n. pool site n"
    and "pol_allowed_origins pol = Some origins" and "pol_norigins pol = length origins"
  shows "ngx_auth_webauthn_assertion_verify ossl js dec (Some pool)
      (Some \<lparr> as_authenticator_data = Some ad_raw, as_client_data_json = Some cd_raw, as_signature = sig \<rparr>)
      (Some cred) (Some pol) (Some r0) = (NGX_OK, Some \<lparr> auth_sign_count = count \<rparr>)
    \<longleftrightarrow> valid_assertion ossl js dec ad_raw cd_raw sig cred pol origins count"
  using assertion_verify_sound [OF _ assms(2,3)] assertion_verify_complete [of pool, OF assms] by blast

definition ex_policy :: assertion_policy where
  "ex_policy = \<lparr> pol_rp_id = ''rp'', pol_expected_challenge = ex_challenge,
     pol_allowed_origins = Some [''https://a''], pol_norigins = 1, pol_require_uv = True,
     pol_clone_detection = NGX_AUTH_WEBAUTHN_CLONE_STRICT \<rparr>"

definition ex_cred :: assertion_cred where
  "ex_cred = \<lparr> ac_public_key = ''EKEY'', ac_alg = - 7, ac_sign_count = 8 \<rparr>"

lemma ex_valid_assertion:
  "valid_assertion ex_ossl (ex_js ex_client_data) decoded ex_auth_data ''CD''
     (''KEY'' @ ex_auth_data @ ''CD'' @ replicate 30 (CHR 0x00)) ex_cred ex_policy [''https://a''] 9"
proof -
  have sc: "be32_bytes 9 = [CHR 0x00, CHR 0x00, CHR 0x00, CHR 0x09]"
    by code_simp
  have fl: "of_byte 5 = CHR 0x05" by code_simp
  have "valid_signature ex_ossl ex_cred (ex_auth_data @ ''CD'' @ replicate 30 (CHR 0x00))
      (''KEY'' @ ex_auth_data @ ''CD'' @ replicate 30 (CHR 0x00))"
    by (simp add: valid_signature_def alg_params_def ex_cred_def ex_ossl_def ex_key_def)
  moreover have "ex_auth_data = (''rp'' @ replicate 30 (CHR 0x00)) @ [of_byte 5] @ be32_bytes 9 @ []"
    by (simp add: ex_auth_data_def sc fl)
  ultimately show ?thesis
    unfolding valid_assertion_def
    by (intro conjI exI [of _ "''rp'' @ replicate 30 (CHR 0x00)"] exI [of _ 5] exI [of _ "[]"]
          exI [of _ "''CD'' @ replicate 30 (CHR 0x00)"])
      (simp_all add: ex_policy_def ex_clientdata_ok ex_ossl_sha256 counter_ok_def ex_cred_def
        FLAG_UP_def FLAG_UV_def FLAG_AT_def FLAG_ED_def)
qed

theorem assertion_verify_correct_witness:
  "ngx_auth_webauthn_assertion_verify ex_ossl (ex_js ex_client_data) decoded (Some ex_pool)
      (Some \<lparr> as_authenticator_data = Some ex_auth_data, as_client_data_json = Some ''CD'',
              as_signature = ''KEY'' @ ex_auth_data @ ''CD'' @ replicate 30 (CHR 0x00) \<rparr>)
      (Some ex_cred) (Some ex_policy) (Some \<lparr> auth_sign_count = 0 \<rparr>) = (NGX_OK, Some \<lparr> auth_sign_count = 9 \<rparr>)"
  by (rule assertion_verify_correct [THEN iffD2, OF _ _ _ ex_valid_assertion]) (simp_all add: ex_policy_def)



end
