(* ===== verification/Attestation.thy ===== *)
theory Attestation
  imports Cose Assertion
begin

unbundle bit_operations_syntax

text \<open>
  \<open>src/ngx_auth_webauthn_attestation.c\<close>: decoding the attestationObject and the attestation policy
  of the registration tool. CBOR items and OpenSSL are the parameters of \<^theory_text>\<open>Cose\<close> and
  \<^theory_text>\<open>Hash\<close>. After a failed copy the copied field is unusable; the callers discard the
  structure on every return code but \<open>NGX_OK\<close>, so the model leaves the field as it was.
\<close>

section \<open>Data\<close>

datatype att_require = NGX_AUTH_WEBAUTHN_ATT_NONE | NGX_AUTH_WEBAUTHN_ATT_PACKED

record attestation =
  att_fmt :: bytes
  att_auth_data :: bytes
  att_alg :: "32 word"
  att_sig :: bytes
  att_has_x5c :: bool

definition attestation_zero :: attestation where
  "attestation_zero = \<lparr> att_fmt = [], att_auth_data = [], att_alg = 0, att_sig = [], att_has_x5c = False \<rparr>"

section \<open>Reading items\<close>

definition ngx_auth_webauthn_attestation_int :: "cbor_item option \<Rightarrow> 64 word option" where
  "ngx_auth_webauthn_attestation_int item =
     (case item of
        None \<Rightarrow> None
      | Some (CBOR_uint n) \<Rightarrow> Some n
      | Some (CBOR_negint n) \<Rightarrow> Some (- 1 - n)
      | Some _ \<Rightarrow> None)"

definition ngx_auth_webauthn_attestation_str_eq :: "cbor_item option \<Rightarrow> string \<Rightarrow> bool" where
  "ngx_auth_webauthn_attestation_str_eq item literal =
     (case item of
        Some (CBOR_string definite s) \<Rightarrow>
          if \<not> definite \<or> length s \<noteq> length literal then False else s = take (length s) literal
      | _ \<Rightarrow> False)"

definition ngx_auth_webauthn_attestation_dup :: "ngx_pool_t \<Rightarrow> string \<Rightarrow> bytes \<Rightarrow> bytes option" where
  "ngx_auth_webauthn_attestation_dup pool site src =
     (if length src = 0 then Some []
      else if \<not> pool site (length src) then None
      else Some src)"

section \<open>Decoding\<close>

definition parse_stmt_pair ::
    "ngx_pool_t \<Rightarrow> cbor_item \<Rightarrow> cbor_item \<Rightarrow> attestation \<Rightarrow> ngx_int_t \<times> attestation" where
  "parse_stmt_pair pool k v out =
     (if ngx_auth_webauthn_attestation_str_eq (Some k) ''alg'' then
        (case ngx_auth_webauthn_attestation_int (Some v) of
           Some alg \<Rightarrow> (NGX_OK, out\<lparr> att_alg := ucast alg \<rparr>)
         | None \<Rightarrow> (NGX_OK, out))
      else if ngx_auth_webauthn_attestation_str_eq (Some k) ''sig'' then
        (case v of
           CBOR_bytestring definite s \<Rightarrow>
             if \<not> definite then (NGX_DECLINED, out)
             else (case ngx_auth_webauthn_attestation_dup pool ''out->att_sig'' s of
                     None \<Rightarrow> (NGX_ERROR, out)
                   | Some s \<Rightarrow> (NGX_OK, out\<lparr> att_sig := s \<rparr>))
         | _ \<Rightarrow> (NGX_DECLINED, out))
      else if ngx_auth_webauthn_attestation_str_eq (Some k) ''x5c'' then
        (case v of
           CBOR_array items \<Rightarrow> (NGX_OK, if length items > 0 then out\<lparr> att_has_x5c := True \<rparr> else out)
         | _ \<Rightarrow> (NGX_OK, out))
      else (NGX_OK, out))"

fun parse_stmt_pairs ::
    "ngx_pool_t \<Rightarrow> (cbor_item \<times> cbor_item) list \<Rightarrow> attestation \<Rightarrow> ngx_int_t \<times> attestation" where
  "parse_stmt_pairs pool [] out = (NGX_OK, out)"
| "parse_stmt_pairs pool ((k, v) # pairs) out =
     (let (rc, out) = parse_stmt_pair pool k v out in
      if rc \<noteq> NGX_OK then (rc, out) else parse_stmt_pairs pool pairs out)"

definition ngx_auth_webauthn_attestation_parse_stmt ::
    "ngx_pool_t \<Rightarrow> cbor_item \<Rightarrow> attestation \<Rightarrow> ngx_int_t \<times> attestation" where
  "ngx_auth_webauthn_attestation_parse_stmt pool stmt out =
     (case stmt of
        CBOR_map pairs \<Rightarrow> parse_stmt_pairs pool pairs out
      | _ \<Rightarrow> (NGX_DECLINED, out))"

record att_items =
  v_fmt :: "cbor_item option"
  v_auth_data :: "cbor_item option"
  v_att_stmt :: "cbor_item option"

fun att_collect :: "(cbor_item \<times> cbor_item) list \<Rightarrow> att_items \<Rightarrow> att_items" where
  "att_collect [] v = v"
| "att_collect ((k, value) # pairs) v =
     att_collect pairs
       (if ngx_auth_webauthn_attestation_str_eq (Some k) ''fmt'' then v\<lparr> v_fmt := Some value \<rparr>
        else if ngx_auth_webauthn_attestation_str_eq (Some k) ''authData'' then v\<lparr> v_auth_data := Some value \<rparr>
        else if ngx_auth_webauthn_attestation_str_eq (Some k) ''attStmt'' then v\<lparr> v_att_stmt := Some value \<rparr>
        else v)"

definition ngx_auth_webauthn_attestation_parse ::
    "cbor_load_t \<Rightarrow> ngx_pool_t option \<Rightarrow> bytes option \<Rightarrow> nat \<Rightarrow> attestation option
     \<Rightarrow> ngx_int_t \<times> attestation option" where
  "ngx_auth_webauthn_attestation_parse cbor_load pool data len out =
     (if pool = None \<or> out = None then (NGX_ERROR, out)
      else
        let out = attestation_zero in
        if data = None then (NGX_ERROR, Some out)
        else
          case cbor_load (take len (the data)) of
            (Some (CBOR_map pairs), True, read) \<Rightarrow>
              if read \<noteq> len then (NGX_DECLINED, Some out)
              else
                let v = att_collect pairs \<lparr> v_fmt = None, v_auth_data = None, v_att_stmt = None \<rparr> in
                (case (v_fmt v, v_auth_data v) of
                   (Some (CBOR_string True fmt), Some (CBOR_bytestring True auth_data)) \<Rightarrow>
                     (case ngx_auth_webauthn_attestation_dup (the pool) ''out->fmt'' fmt of
                        None \<Rightarrow> (NGX_ERROR, Some out)
                      | Some fmt \<Rightarrow>
                        let out = out\<lparr> att_fmt := fmt \<rparr> in
                        (case ngx_auth_webauthn_attestation_dup (the pool) ''out->auth_data'' auth_data of
                           None \<Rightarrow> (NGX_ERROR, Some out)
                         | Some auth_data \<Rightarrow>
                           let out = out\<lparr> att_auth_data := auth_data \<rparr> in
                           (case v_att_stmt v of
                              None \<Rightarrow> (NGX_OK, Some out)
                            | Some stmt \<Rightarrow>
                                let (rc, out) = ngx_auth_webauthn_attestation_parse_stmt (the pool) stmt out
                                in (rc, Some out))))
                 | _ \<Rightarrow> (NGX_DECLINED, Some out))
          | _ \<Rightarrow> (NGX_DECLINED, Some out))"

section \<open>Verification\<close>

definition ngx_auth_webauthn_attestation_fmt_is :: "attestation \<Rightarrow> string \<Rightarrow> bool" where
  "ngx_auth_webauthn_attestation_fmt_is att literal \<longleftrightarrow>
     length (att_fmt att) = length literal \<and> att_fmt att = take (length literal) literal"

definition key_alg_md :: "32 word \<Rightarrow> evp_md option option" where
  "key_alg_md key_alg =
     (if key_alg = ucast COSE_ALG_ES256 \<or> key_alg = ucast COSE_ALG_RS256 then Some (Some EVP_sha256)
      else if key_alg = ucast COSE_ALG_EDDSA then Some None
      else None)"

definition ngx_auth_webauthn_attestation_verify_packed ::
    "'k openssl \<Rightarrow> cbor_load_t \<Rightarrow> ngx_pool_t \<Rightarrow> attestation \<Rightarrow> authdata \<Rightarrow> bytes \<Rightarrow> ngx_int_t" where
  "ngx_auth_webauthn_attestation_verify_packed ossl cbor_load pool att ad client_data_hash =
     (if length (att_sig att) = 0 then NGX_DECLINED
      else if ad_flags ad AND FLAG_AT = 0 \<or> length (ad_cose_public_key ad) = 0 then NGX_DECLINED
      else
        let (rc, pkey, key_alg) =
              ngx_auth_webauthn_cose_to_pkey ossl cbor_load (Some (ad_cose_public_key ad))
                (length (ad_cose_public_key ad)) (Some None) (Some 0)
        in
        if rc \<noteq> NGX_OK then rc
        else if att_alg att \<noteq> the key_alg then NGX_DECLINED
        else
          case key_alg_md (the key_alg) of
            None \<Rightarrow> NGX_DECLINED
          | Some md \<Rightarrow>
              let signed_len = length (att_auth_data att) + length client_data_hash in
              if \<not> pool ''signed_data'' signed_len then NGX_ERROR
              else
                let signed_data = att_auth_data att @ client_data_hash; key = the (the pkey) in
                if \<not> EVP_MD_CTX_new ossl then NGX_ERROR
                else if EVP_DigestVerifyInit ossl md key then
                  let ret = EVP_DigestVerify ossl md key (att_sig att) (take signed_len signed_data) in
                  if ret = 1 then NGX_OK else if ret = 0 then NGX_DECLINED else NGX_ERROR
                else NGX_ERROR)"

definition ngx_auth_webauthn_attestation_verify ::
    "'k openssl \<Rightarrow> cbor_load_t \<Rightarrow> ngx_pool_t option \<Rightarrow> attestation option \<Rightarrow> bytes option \<Rightarrow> bytes option
     \<Rightarrow> att_require \<Rightarrow> ngx_int_t" where
  "ngx_auth_webauthn_attestation_verify ossl cbor_load pool att expected_rp_id client_data_hash require =
     (if pool = None \<or> att = None \<or> expected_rp_id = None \<or> client_data_hash = None then NGX_ERROR
      else
        let a = the att;
            (rc, ad) = ngx_auth_webauthn_authdata_parse (Some (att_auth_data a)) (length (att_auth_data a))
                         (Some authdata_zero)
        in
        if rc \<noteq> NGX_OK then rc
        else
        let ad = the ad;
            (rc, rp_id_hash) = ngx_auth_webauthn_hash_sha256 ossl expected_rp_id
                                 (length (the expected_rp_id)) (Some [])
        in
        if rc \<noteq> NGX_OK then NGX_ERROR
        else if ad_rp_id_hash ad \<noteq> the rp_id_hash then NGX_DECLINED
        else if ngx_auth_webauthn_attestation_fmt_is a ''none'' then NGX_OK
        else if require = NGX_AUTH_WEBAUTHN_ATT_NONE then NGX_DECLINED
        else if \<not> ngx_auth_webauthn_attestation_fmt_is a ''packed'' then NGX_DECLINED
        else if att_has_x5c a then NGX_DECLINED
        else ngx_auth_webauthn_attestation_verify_packed ossl cbor_load (the pool) a ad (the client_data_hash))"

section \<open>Specification\<close>

definition self_attested :: "'k openssl \<Rightarrow> cbor_load_t \<Rightarrow> attestation \<Rightarrow> authdata \<Rightarrow> bytes \<Rightarrow> bool" where
  "self_attested ossl cbor_load att ad client_data_hash \<longleftrightarrow>
     att_sig att \<noteq> [] \<and> ad_flags ad AND FLAG_AT \<noteq> 0 \<and> ad_cose_public_key ad \<noteq> []
     \<and> (\<exists>key md.
          ngx_auth_webauthn_cose_to_pkey ossl cbor_load (Some (ad_cose_public_key ad))
            (length (ad_cose_public_key ad)) (Some None) (Some 0) = (NGX_OK, Some (Some key), Some (att_alg att))
          \<and> md = (if att_alg att = - 8 then None else Some EVP_sha256)
          \<and> EVP_MD_CTX_new ossl \<and> EVP_DigestVerifyInit ossl md key
          \<and> EVP_DigestVerify ossl md key (att_sig att) (att_auth_data att @ client_data_hash) = 1)"

definition attestation_ok ::
    "'k openssl \<Rightarrow> cbor_load_t \<Rightarrow> attestation \<Rightarrow> bytes \<Rightarrow> bytes \<Rightarrow> att_require \<Rightarrow> bool" where
  "attestation_ok ossl cbor_load att rp_id client_data_hash require \<longleftrightarrow>
     (\<exists>ad. ngx_auth_webauthn_authdata_parse (Some (att_auth_data att)) (length (att_auth_data att))
              (Some authdata_zero) = (NGX_OK, Some ad)
         \<and> sha256 ossl rp_id = Some (ad_rp_id_hash ad)
         \<and> (att_fmt att = ''none''
            \<or> require = NGX_AUTH_WEBAUTHN_ATT_PACKED \<and> att_fmt att = ''packed'' \<and> \<not> att_has_x5c att
              \<and> self_attested ossl cbor_load att ad client_data_hash))"

section \<open>Lemmas\<close>

lemma attestation_int_cose [simp]: "ngx_auth_webauthn_attestation_int = ngx_auth_webauthn_cose_int"
  by (rule ext) (simp add: ngx_auth_webauthn_attestation_int_def ngx_auth_webauthn_cose_int_def)

lemma attestation_str_eq [simp]:
  "ngx_auth_webauthn_attestation_str_eq item literal \<longleftrightarrow> item = Some (CBOR_string True literal)"
  by (auto simp: ngx_auth_webauthn_attestation_str_eq_def split: option.splits cbor_item.splits)

lemma attestation_dup_Some:
  "ngx_auth_webauthn_attestation_dup pool site src = Some dst \<Longrightarrow> dst = src"
  by (auto simp: ngx_auth_webauthn_attestation_dup_def split: if_splits)

lemma attestation_dup_total: "(\<And>site n. pool site n) \<Longrightarrow> ngx_auth_webauthn_attestation_dup pool site src = Some src"
  by (simp add: ngx_auth_webauthn_attestation_dup_def)

lemma fmt_is_eq [simp]: "ngx_auth_webauthn_attestation_fmt_is att literal \<longleftrightarrow> att_fmt att = literal"
  by (auto simp: ngx_auth_webauthn_attestation_fmt_is_def)

lemma key_alg_md_eq:
  "alg \<in> {- 7, - 8, - 257} \<Longrightarrow> key_alg_md alg = Some (if alg = - 8 then None else Some EVP_sha256)"
  by (auto simp: key_alg_md_def cose_const_defs)

lemma verify_packed_OK_iff:
  "ngx_auth_webauthn_attestation_verify_packed ossl cbor_load pool att ad cdh = NGX_OK
     \<longleftrightarrow> self_attested ossl cbor_load att ad cdh
         \<and> pool ''signed_data'' (length (att_auth_data att) + length cdh)"
proof -
  obtain rc pkey alg where e: "ngx_auth_webauthn_cose_to_pkey ossl cbor_load (Some (ad_cose_public_key ad))
      (length (ad_cose_public_key ad)) (Some None) (Some 0) = (rc, pkey, alg)"
    by (metis surj_pair)
  show ?thesis
  proof (cases "rc = NGX_OK")
    case False
    then show ?thesis
      by (auto simp: e ngx_auth_webauthn_attestation_verify_packed_def self_attested_def Let_def)
  next
    case True
    then obtain key a where k: "pkey = Some (Some key)" "alg = Some a" "a \<in> {- 7, - 8, - 257}"
      using e cose_to_pkey_OK_iff [of ossl cbor_load "ad_cose_public_key ad" None 0 pkey alg]
        cose_to_pkey_alg [of ossl cbor_load "ad_cose_public_key ad" None 0 pkey alg] by auto
    with True show ?thesis
      unfolding ngx_auth_webauthn_attestation_verify_packed_def self_attested_def Let_def e
      by (auto simp add: key_alg_md_eq simp del: insert_iff)
  qed
qed

lemma attestation_verify_OK_iff:
  "ngx_auth_webauthn_attestation_verify ossl cbor_load (Some pool) (Some att) (Some rp) (Some cdh) require = NGX_OK
   \<longleftrightarrow> attestation_ok ossl cbor_load att rp cdh require
      \<and> (att_fmt att \<noteq> ''none'' \<longrightarrow> pool ''signed_data'' (length (att_auth_data att) + length cdh))"
proof -
  obtain rc1 o1 where p: "ngx_auth_webauthn_authdata_parse (Some (att_auth_data att))
      (length (att_auth_data att)) (Some authdata_zero) = (rc1, o1)" by fastforce
  obtain rc2 o2 where h: "ngx_auth_webauthn_hash_sha256 ossl (Some rp) (length rp) (Some []) = (rc2, o2)"
    by fastforce
  show ?thesis
  proof (cases "rc1 = NGX_OK \<and> rc2 = NGX_OK")
    case True
    then obtain ad where "o1 = Some ad"
      using p authdata_parse_OK_out [of "Some (att_auth_data att)" "length (att_auth_data att)" authdata_zero] by auto
    moreover obtain d where "sha256 ossl rp = Some d" "o2 = Some d" using h hash_sha256_OK [of ossl rp "[]"] True by auto
    moreover have "require \<noteq> NGX_AUTH_WEBAUTHN_ATT_NONE \<longleftrightarrow> require = NGX_AUTH_WEBAUTHN_ATT_PACKED"
      by (cases require) simp_all
    ultimately show ?thesis
      using True by (auto simp: ngx_auth_webauthn_attestation_verify_def attestation_ok_def p h
          verify_packed_OK_iff)
  next
    case False
    then show ?thesis using p h hash_sha256_bytes [of ossl rp "[]"]
      by (auto simp: ngx_auth_webauthn_attestation_verify_def attestation_ok_def Let_def)
  qed
qed

text \<open>The collection loop keeps, for each key, the value of its last occurrence.\<close>

definition att_lookup :: "(cbor_item \<times> cbor_item) list \<Rightarrow> string \<Rightarrow> cbor_item option" where
  "att_lookup pairs key = map_of (rev pairs) (CBOR_string True key)"

lemma att_lookup_simps:
  "att_lookup [] key = None"
  "att_lookup ((k, x) # pairs) key =
     (case att_lookup pairs key of
        Some y \<Rightarrow> Some y
      | None \<Rightarrow> if k = CBOR_string True key then Some x else None)"
  by (auto simp: att_lookup_def map_add_def split: option.splits)

lemma att_collect_fmt:
  "v_fmt (att_collect pairs v) = (case att_lookup pairs ''fmt'' of None \<Rightarrow> v_fmt v | Some x \<Rightarrow> Some x)"
  by (induction pairs v rule: att_collect.induct) (auto simp: att_lookup_simps split: option.splits)

lemma att_collect_auth_data:
  "v_auth_data (att_collect pairs v) = (case att_lookup pairs ''authData'' of None \<Rightarrow> v_auth_data v | Some x \<Rightarrow> Some x)"
  by (induction pairs v rule: att_collect.induct) (auto simp: att_lookup_simps split: option.splits)

lemma att_collect_att_stmt:
  "v_att_stmt (att_collect pairs v) = (case att_lookup pairs ''attStmt'' of None \<Rightarrow> v_att_stmt v | Some x \<Rightarrow> Some x)"
  by (induction pairs v rule: att_collect.induct) (auto simp: att_lookup_simps split: option.splits)

lemma parse_stmt_pair_keeps:
  "parse_stmt_pair pool k v out = (rc, out') \<Longrightarrow>
     att_fmt out' = att_fmt out \<and> att_auth_data out' = att_auth_data out \<and> (att_has_x5c out \<longrightarrow> att_has_x5c out')"
  by (auto simp: parse_stmt_pair_def split: if_splits option.splits cbor_item.splits)

lemma parse_stmt_pairs_keeps:
  "parse_stmt_pairs pool pairs out = (rc, out') \<Longrightarrow>
     att_fmt out' = att_fmt out \<and> att_auth_data out' = att_auth_data out \<and> (att_has_x5c out \<longrightarrow> att_has_x5c out')"
proof (induction pairs arbitrary: out)
  case (Cons p pairs)
  obtain k v where p: "p = (k, v)" by force
  obtain rc1 o1 where 1: "parse_stmt_pair pool k v out = (rc1, o1)" by force
  with p Cons show ?case using parse_stmt_pair_keeps [OF 1] by (cases "rc1 = NGX_OK") auto
qed simp

lemma parse_stmt_pairs_x5c:
  assumes "parse_stmt_pairs pool pairs out = (NGX_OK, out')"
    and "(CBOR_string True ''x5c'', CBOR_array items) \<in> set pairs" and "items \<noteq> []"
  shows "att_has_x5c out'"
  using assms(1,2)
proof (induction pairs arbitrary: out)
  case (Cons p pairs)
  obtain k v where p: "p = (k, v)" by force
  obtain rc1 o1 where 1: "parse_stmt_pair pool k v out = (rc1, o1)" by force
  with p Cons.prems have rest: "parse_stmt_pairs pool pairs o1 = (NGX_OK, out')"
    by (simp split: if_splits)
  show ?case
  proof (cases "p = (CBOR_string True ''x5c'', CBOR_array items)")
    case True
    with p 1 assms(3) have "att_has_x5c o1" by (auto simp: parse_stmt_pair_def)
    then show ?thesis using parse_stmt_pairs_keeps [OF rest] by blast
  next
    case False
    then show ?thesis using Cons rest by auto
  qed
qed simp

lemma attestation_parse_cases:
  assumes "ngx_auth_webauthn_attestation_parse cbor_load (Some pool) (Some d) (length d) (Some o') = (NGX_OK, Some att)"
  obtains pairs where "cbor_load d = (Some (CBOR_map pairs), True, length d)"
    and "att_lookup pairs ''fmt'' = Some (CBOR_string True (att_fmt att))"
    and "att_lookup pairs ''authData'' = Some (CBOR_bytestring True (att_auth_data att))"
    and "\<And>stmt. att_lookup pairs ''attStmt'' = Some stmt \<Longrightarrow>
           \<exists>out sp. stmt = CBOR_map sp \<and> parse_stmt_pairs pool sp out = (NGX_OK, att)"
proof -
  obtain root ok n where c: "cbor_load d = (root, ok, n)" by (metis surj_pair)
  with assms obtain pairs where 1: "root = Some (CBOR_map pairs)" "ok" "n = length d"
    by (auto simp: ngx_auth_webauthn_attestation_parse_def Let_def
        split: option.splits cbor_item.splits bool.splits if_splits)
  define v where "v = att_collect pairs \<lparr> v_fmt = None, v_auth_data = None, v_att_stmt = None \<rparr>"
  have v: "v_fmt v = att_lookup pairs ''fmt''" "v_auth_data v = att_lookup pairs ''authData''"
    "v_att_stmt v = att_lookup pairs ''attStmt''"
    by (simp_all add: v_def att_collect_fmt att_collect_auth_data att_collect_att_stmt split: option.splits)
  from assms 1 c obtain fmt ad where 2: "v_fmt v = Some (CBOR_string True fmt)"
    "v_auth_data v = Some (CBOR_bytestring True ad)"
    by (auto simp: ngx_auth_webauthn_attestation_parse_def Let_def v_def [symmetric]
        split: option.splits cbor_item.splits bool.splits)
  from assms 1 c 2 have dup: "ngx_auth_webauthn_attestation_dup pool ''out->fmt'' fmt = Some fmt"
    "ngx_auth_webauthn_attestation_dup pool ''out->auth_data'' ad = Some ad"
    by (auto simp: ngx_auth_webauthn_attestation_parse_def Let_def v_def [symmetric]
        split: option.splits dest: attestation_dup_Some)
  let ?out = "attestation_zero\<lparr> att_fmt := fmt, att_auth_data := ad \<rparr>"
  have stmt: "(case v_att_stmt v of None \<Rightarrow> att = ?out
      | Some stmt \<Rightarrow> ngx_auth_webauthn_attestation_parse_stmt pool stmt ?out = (NGX_OK, att))"
    using assms 1 c 2 dup
    by (auto simp: ngx_auth_webauthn_attestation_parse_def Let_def v_def [symmetric]
        split: option.splits prod.splits)
  have map: "\<exists>out sp. s = CBOR_map sp \<and> parse_stmt_pairs pool sp ?out = (NGX_OK, att)"
    if "v_att_stmt v = Some s" for s
    using stmt that by (auto simp: ngx_auth_webauthn_attestation_parse_stmt_def split: cbor_item.splits)
  have keep: "att_fmt att = fmt" "att_auth_data att = ad"
  proof -
    have "att_fmt att = fmt \<and> att_auth_data att = ad"
      using stmt map parse_stmt_pairs_keeps [of pool _ ?out NGX_OK att]
      by (cases "v_att_stmt v") (simp, fastforce)
    then show "att_fmt att = fmt" "att_auth_data att = ad" by simp_all
  qed
  show thesis
    by (rule that [of pairs]) (use c 1 2 v keep map in auto)
qed

section \<open>Properties\<close>


definition ex_att_authdata :: bytes where
  "ex_att_authdata = ''rp'' @ replicate 30 (CHR 0x00) @ CHR 0x41 # replicate 20 (CHR 0x00) @ CHR 0x00 # CHR 0x02 # ''id'' @ ''K''"

definition ex_cbor :: cbor_load_t where
  "ex_cbor x =
     (if x = ''O'' then
        (Some (CBOR_map [(CBOR_string True ''fmt'', CBOR_string True ''packed''),
                         (CBOR_string True ''attStmt'',
                          CBOR_map [(CBOR_string True ''alg'', CBOR_negint 7),
                                    (CBOR_string True ''sig'', CBOR_bytestring True (replicate 32 (CHR ''k'') @ ex_att_authdata @ ''H''))]),
                         (CBOR_string True ''authData'', CBOR_bytestring True ex_att_authdata)]), True, 1)
      else if x = ''K'' then
        (Some (CBOR_map [(CBOR_uint 1, CBOR_uint 1), (CBOR_uint 3, CBOR_negint 7), (CBOR_negint 0, CBOR_uint 6),
                         (CBOR_negint 1, CBOR_bytestring True (replicate 32 (CHR ''k'')))]), True, 1)
      else (None, False, 0))"

definition ex_att :: attestation where
  "ex_att = \<lparr> att_fmt = ''packed'', att_auth_data = ex_att_authdata, att_alg = - 8,
     att_sig = replicate 32 (CHR ''k'') @ ex_att_authdata @ ''H'', att_has_x5c = False \<rparr>"

lemma ex_attestation_parse:
  "ngx_auth_webauthn_attestation_parse ex_cbor (Some ex_pool) (Some ''O'') 1 (Some attestation_zero) = (NGX_OK, Some ex_att)"
  by (simp add: ngx_auth_webauthn_attestation_parse_def ex_cbor_def attestation_dup_total ex_att_def
      attestation_zero_def ngx_auth_webauthn_attestation_parse_stmt_def parse_stmt_pair_def
      ngx_auth_webauthn_cose_int_def)


text \<open>C27: the attestation policy. With memory available, \<open>ngx_auth_webauthn_attestation_verify\<close> accepts
  exactly when the authenticator data parses and is bound to the RP id and the format is \<open>none\<close>, or
  the level is \<open>packed\<close>, the format is \<open>packed\<close> without \<open>x5c\<close>, the statement's algorithm is that of the
  credential key inside the authenticator data and its signature over
  \<open>authData || clientDataHash\<close> verifies with that key.\<close>

theorem attestation_verify_correct:
  assumes "\<And>site n. pool site n"
  shows "ngx_auth_webauthn_attestation_verify ossl cbor_load (Some pool) (Some att) (Some rp) (Some cdh) require = NGX_OK
   \<longleftrightarrow> attestation_ok ossl cbor_load att rp cdh require"
  using assms by (simp add: attestation_verify_OK_iff)

definition ex_ad :: authdata where
  "ex_ad = \<lparr> ad_rp_id_hash = ''rp'' @ replicate 30 (CHR 0x00), ad_flags = 0x41, ad_sign_count = 0,
     ad_aaguid = replicate 16 (CHR 0x00), ad_credential_id = ''id'', ad_cose_public_key = ''K'' \<rparr>"

lemma ex_ad_parse:
  "ngx_auth_webauthn_authdata_parse (Some ex_att_authdata) (length ex_att_authdata) (Some o') = (NGX_OK, Some ex_ad)"
proof -
  have "byte (CHR 0x41) AND FLAG_AT \<noteq> 0" by code_simp
  moreover have "be16 (CHR 0x00) (CHR 0x02) = 2" by code_simp
  moreover have "byte (CHR 0x41) = 0x41" by code_simp
  moreover have "be32 (replicate 4 (CHR 0x00) @ r) = 0" for r by (simp add: be32_def nth_append promote_def)
  moreover have "replicate 20 (CHR 0x00) = replicate 4 (CHR 0x00) @ replicate 16 (CHR 0x00)"
    by (simp add: replicate_add [symmetric])
  ultimately show ?thesis
    using parse_attested [of "''rp'' @ replicate 30 (CHR 0x00)" "replicate 4 (CHR 0x00)" "CHR 0x41"
        "replicate 16 (CHR 0x00)" "''id''" "CHR 0x00" "CHR 0x02" "''K''" o']
    by (simp add: ex_att_authdata_def ex_ad_def)
qed

lemma ex_self_attested: "self_attested ex_ossl ex_cbor ex_att ex_ad ''H''"
proof -
  have "ngx_auth_webauthn_cose_to_pkey ex_ossl ex_cbor (Some ''K'') 1 (Some None) (Some 0)
      = (NGX_OK, Some (Some (EVP_PKEY_ED25519, replicate 32 (CHR ''k''))), Some (- 8))"
    by (simp add: ngx_auth_webauthn_cose_to_pkey_def ex_cbor_def ngx_auth_webauthn_cose_int_def
        cose_labels_null_def cose_key_of_def cose_const_defs ngx_auth_webauthn_cose_okp_pkey_def ex_ossl_def)
  then show ?thesis
    by (simp add: self_attested_def ex_att_def ex_ad_def FLAG_AT_def ex_ossl_def)
qed

theorem attestation_verify_correct_witness:
  "ngx_auth_webauthn_attestation_verify ex_ossl ex_cbor (Some ex_pool) (Some ex_att) (Some ''rp'') (Some ''H'')
     NGX_AUTH_WEBAUTHN_ATT_PACKED = NGX_OK"
  unfolding attestation_verify_correct [of ex_pool, OF ex_pool] attestation_ok_def
  using ex_ad_parse [of authdata_zero] ex_self_attested by (auto simp: ex_att_def ex_ad_def ex_ossl_sha256)

end
