(* ===== verification/Compat.thy ===== *)
theory Compat
  imports Prelude "HOL-Library.Multiset" "HOL-Library.Sublist"
begin

text \<open>
  The memory pool and the logger of \<open>tools/admin/ngx_compat/ngx_compat.c\<close>. \<open>malloc\<close> and \<open>free\<close> are modelled on a
  heap of numbered blocks; freeing what is not a live block is undefined behaviour, the value \<open>None\<close>.
  \<open>malloc\<close> may fail: \<open>avail\<close> says which calls succeed. Cleanup handlers act on a state \<open>'w\<close> of their own,
  outside this heap.
\<close>

section \<open>The C heap\<close>

type_synonym addr = nat

text \<open>The contents of a block; \<open>None\<close> is an indeterminate byte.\<close>

type_synonym block = "u_char option list"

record heap =
  h_next :: addr
  h_mem :: "addr \<rightharpoonup> block"

definition malloc :: "(addr \<Rightarrow> nat \<Rightarrow> bool) \<Rightarrow> nat \<Rightarrow> heap \<Rightarrow> addr option \<times> heap" where
  "malloc avail n h =
     (let p = h_next h; h = h\<lparr> h_next := p + 1 \<rparr> in
      if avail p n then (Some p, h\<lparr> h_mem := (h_mem h)(p \<mapsto> replicate n None) \<rparr>) else (None, h))"

definition cfree :: "addr option \<Rightarrow> heap \<Rightarrow> heap option" where
  "cfree p h =
     (case p of
        None \<Rightarrow> Some h
      | Some a \<Rightarrow> if h_mem h a = None then None else Some (h\<lparr> h_mem := (h_mem h)(a := None) \<rparr>))"

section \<open>The logger\<close>

record ngx_log_t =
  log_level :: nat

text \<open>The rest of the format from \<open>p\<close>, and what is in \<open>buf\<close> so far. The string ends where the list does.\<close>

fun log_loop :: "bytes \<Rightarrow> bytes \<Rightarrow> bytes" where
  "log_loop [] q = q"
| "log_loop (c # p) q =
     (if \<not> length q < 512 - 4 then q
      else if c \<noteq> CHR ''%'' then log_loop p (q @ [c])
      else case p of
        [] \<Rightarrow> q
      | a # p1 \<Rightarrow>
          if a = CHR ''u'' \<and> p1 \<noteq> [] \<and> (hd p1 = CHR ''z'' \<or> hd p1 = CHR ''i'') then log_loop (tl p1) (q @ ''%zu'')
          else if a = CHR ''z'' \<or> a = CHR ''i'' then log_loop p1 (q @ ''%zd'')
          else log_loop p1 (q @ [CHR ''%'', a]))"

text \<open>The format given to \<open>vfprintf\<close>, \<open>None\<close> if nothing is logged.\<close>

definition ngx_compat_log_error :: "nat \<Rightarrow> ngx_log_t option \<Rightarrow> bytes \<Rightarrow> bytes option" where
  "ngx_compat_log_error level log fmt =
     (case log of
        None \<Rightarrow> None
      | Some l \<Rightarrow> if level > log_level l then None else Some (log_loop fmt []))"

section \<open>The pool\<close>

record 'w ngx_pool_cleanup_t =
  pc_addr :: addr
  pc_handler :: "(addr option \<Rightarrow> 'w \<Rightarrow> 'w) option"
  pc_data :: "addr option"

record ngx_pool_large_t =
  pl_addr :: addr
  pl_alloc :: addr

text \<open>The two linked lists, first node first.\<close>

record 'w compat_pool =
  cp_addr :: addr
  cp_large :: "ngx_pool_large_t list"
  cp_cleanup :: "'w ngx_pool_cleanup_t list"
  cp_log :: "ngx_log_t option"

definition ngx_create_pool :: "(addr \<Rightarrow> nat \<Rightarrow> bool) \<Rightarrow> nat \<Rightarrow> ngx_log_t option \<Rightarrow> heap \<Rightarrow> 'w compat_pool option \<times> heap" where
  "ngx_create_pool avail n log h =
     (case malloc avail 24 h of
        (None, h) \<Rightarrow> (None, h)
      | (Some pool, h) \<Rightarrow> (Some \<lparr> cp_addr = pool, cp_large = [], cp_cleanup = [], cp_log = log \<rparr>, h))"

fun run_cleanups :: "'w ngx_pool_cleanup_t list \<Rightarrow> 'w \<Rightarrow> heap \<Rightarrow> ('w \<times> heap) option" where
  "run_cleanups [] w h = Some (w, h)"
| "run_cleanups (c # cs) w h =
     (let w = (case pc_handler c of None \<Rightarrow> w | Some handler \<Rightarrow> handler (pc_data c) w) in
      case cfree (Some (pc_addr c)) h of
        None \<Rightarrow> None
      | Some h \<Rightarrow> run_cleanups cs w h)"

fun free_large :: "ngx_pool_large_t list \<Rightarrow> heap \<Rightarrow> heap option" where
  "free_large [] h = Some h"
| "free_large (l # ls) h =
     (case cfree (Some (pl_alloc l)) h of
        None \<Rightarrow> None
      | Some h \<Rightarrow>
          (case cfree (Some (pl_addr l)) h of
             None \<Rightarrow> None
           | Some h \<Rightarrow> free_large ls h))"

definition ngx_destroy_pool :: "'w compat_pool option \<Rightarrow> 'w \<Rightarrow> heap \<Rightarrow> ('w \<times> heap) option" where
  "ngx_destroy_pool pool w h =
     (case pool of
        None \<Rightarrow> Some (w, h)
      | Some pool \<Rightarrow>
          (case run_cleanups (cp_cleanup pool) w h of
             None \<Rightarrow> None
           | Some (w, h) \<Rightarrow>
               (case free_large (cp_large pool) h of
                  None \<Rightarrow> None
                | Some h \<Rightarrow> map_option (Pair w) (cfree (Some (cp_addr pool)) h))))"

text \<open>The result is the new node, which is the head of the list; the caller sets its handler.\<close>

definition ngx_pool_cleanup_add ::
    "(addr \<Rightarrow> nat \<Rightarrow> bool) \<Rightarrow> 'w compat_pool option \<Rightarrow> nat \<Rightarrow> heap \<Rightarrow> (addr option \<times> 'w compat_pool option \<times> heap) option" where
  "ngx_pool_cleanup_add avail pool n h =
     (case pool of
        None \<Rightarrow> Some (None, None, h)
      | Some pool \<Rightarrow>
          (case malloc avail 24 h of
             (None, h) \<Rightarrow> Some (None, Some pool, h)
           | (Some c, h) \<Rightarrow>
               let add = (\<lambda>data h. Some (Some c,
                     Some (pool\<lparr> cp_cleanup := \<lparr> pc_addr = c, pc_handler = None, pc_data = data \<rparr> # cp_cleanup pool \<rparr>), h))
               in
               if n > 0 then
                 (case malloc avail n h of
                    (None, h) \<Rightarrow> map_option (\<lambda>h. (None, Some pool, h)) (cfree (Some c) h)
                  | (Some data, h) \<Rightarrow> add (Some data) h)
               else add None h))"

definition ngx_palloc :: "(addr \<Rightarrow> nat \<Rightarrow> bool) \<Rightarrow> 'w compat_pool \<Rightarrow> nat \<Rightarrow> heap \<Rightarrow> (addr option \<times> 'w compat_pool \<times> heap) option" where
  "ngx_palloc avail pool n h =
     (case malloc avail n h of
        (None, h) \<Rightarrow> Some (None, pool, h)
      | (Some p, h) \<Rightarrow>
          (case malloc avail 16 h of
             (None, h) \<Rightarrow> map_option (\<lambda>h. (None, pool, h)) (cfree (Some p) h)
           | (Some large, h) \<Rightarrow>
               Some (Some p, pool\<lparr> cp_large := \<lparr> pl_addr = large, pl_alloc = p \<rparr> # cp_large pool \<rparr>, h)))"

definition ngx_pnalloc :: "(addr \<Rightarrow> nat \<Rightarrow> bool) \<Rightarrow> 'w compat_pool \<Rightarrow> nat \<Rightarrow> heap \<Rightarrow> (addr option \<times> 'w compat_pool \<times> heap) option" where
  "ngx_pnalloc avail pool n h = ngx_palloc avail pool n h"

definition ngx_pcalloc :: "(addr \<Rightarrow> nat \<Rightarrow> bool) \<Rightarrow> 'w compat_pool \<Rightarrow> nat \<Rightarrow> heap \<Rightarrow> (addr option \<times> 'w compat_pool \<times> heap) option" where
  "ngx_pcalloc avail pool n h =
     (case ngx_palloc avail pool n h of
        Some (Some p, pool, h) \<Rightarrow>
          if h_mem h p = None then None
          else Some (Some p, pool, h\<lparr> h_mem := (h_mem h)(p \<mapsto> replicate n (Some (CHR 0x00))) \<rparr>)
      | r \<Rightarrow> r)"

text \<open>The search along the list of blocks; the result is the list without the node found, and the node.\<close>

fun find_large :: "addr \<Rightarrow> ngx_pool_large_t list \<Rightarrow> (ngx_pool_large_t \<times> ngx_pool_large_t list) option" where
  "find_large p [] = None"
| "find_large p (l # ls) =
     (if pl_alloc l = p then Some (l, ls) else map_option (\<lambda>(l', ls'). (l', l # ls')) (find_large p ls))"

definition ngx_pfree :: "'w compat_pool option \<Rightarrow> addr \<Rightarrow> heap \<Rightarrow> (ngx_int_t \<times> 'w compat_pool option \<times> heap) option" where
  "ngx_pfree pool p h =
     (case pool of
        None \<Rightarrow> Some (NGX_ERROR, None, h)
      | Some pool \<Rightarrow>
          (case find_large p (cp_large pool) of
             None \<Rightarrow> Some (NGX_ERROR, Some pool, h)
           | Some (l, ls) \<Rightarrow>
               (case cfree (Some (pl_alloc l)) h of
                  None \<Rightarrow> None
                | Some h \<Rightarrow>
                    map_option (\<lambda>h. (NGX_OK, Some (pool\<lparr> cp_large := ls \<rparr>), h)) (cfree (Some (pl_addr l)) h))))"

section \<open>Programs that use a pool\<close>

datatype 'w pool_call =
  Palloc nat | Pnalloc nat | Pcalloc nat | Pfree addr | Cleanup nat "(addr option \<Rightarrow> 'w \<Rightarrow> 'w) option"

text \<open>A cleanup is added, then the caller sets the handler of the node.\<close>

definition set_handler :: "(addr option \<Rightarrow> 'w \<Rightarrow> 'w) option \<Rightarrow> 'w compat_pool \<Rightarrow> 'w compat_pool" where
  "set_handler f pool =
     pool\<lparr> cp_cleanup := (case cp_cleanup pool of [] \<Rightarrow> [] | c # cs \<Rightarrow> c\<lparr> pc_handler := f \<rparr> # cs) \<rparr>"

fun pool_op :: "(addr \<Rightarrow> nat \<Rightarrow> bool) \<Rightarrow> 'w pool_call \<Rightarrow> 'w compat_pool \<times> heap \<Rightarrow> ('w compat_pool \<times> heap) option" where
  "pool_op avail (Palloc n) (pool, h) = map_option snd (ngx_palloc avail pool n h)"
| "pool_op avail (Pnalloc n) (pool, h) = map_option snd (ngx_pnalloc avail pool n h)"
| "pool_op avail (Pcalloc n) (pool, h) = map_option snd (ngx_pcalloc avail pool n h)"
| "pool_op avail (Pfree p) (pool, h) = map_option (\<lambda>(rc, pool, h). (the pool, h)) (ngx_pfree (Some pool) p h)"
| "pool_op avail (Cleanup n f) (pool, h) =
     map_option (\<lambda>(c, pool, h). (if c = None then the pool else set_handler f (the pool), h))
       (ngx_pool_cleanup_add avail (Some pool) n h)"

fun pool_ops :: "(addr \<Rightarrow> nat \<Rightarrow> bool) \<Rightarrow> 'w pool_call list \<Rightarrow> 'w compat_pool \<times> heap \<Rightarrow> ('w compat_pool \<times> heap) option" where
  "pool_ops avail [] s = Some s"
| "pool_ops avail (e # es) s = Option.bind (pool_op avail e s) (pool_ops avail es)"

fun handlers :: "'w pool_call list \<Rightarrow> (addr option \<Rightarrow> 'w \<Rightarrow> 'w) option list" where
  "handlers [] = []"
| "handlers (Cleanup n f # es) = f # handlers es"
| "handlers (e # es) = handlers es"

section \<open>Ownership\<close>

text \<open>The blocks of a pool, and those its cleanups' data are in.\<close>

definition nodes :: "'w compat_pool \<Rightarrow> addr list" where
  "nodes pool = map pc_addr (cp_cleanup pool) @ concat (map (\<lambda>l. [pl_alloc l, pl_addr l]) (cp_large pool)) @ [cp_addr pool]"

definition datas :: "'w compat_pool \<Rightarrow> addr list" where
  "datas pool = List.map_filter pc_data (cp_cleanup pool)"

text \<open>The heap is \<open>m0\<close> and the distinct blocks \<open>as\<close>.\<close>

definition owns :: "(addr \<rightharpoonup> block) \<Rightarrow> addr list \<Rightarrow> heap \<Rightarrow> bool" where
  "owns m0 as h \<longleftrightarrow> distinct as \<and> set as \<subseteq> dom (h_mem h) \<and> h_mem h |` (- set as) = m0 \<and> (\<forall>a \<in> dom (h_mem h). a < h_next h)"

lemma owns_perm: "mset as = mset bs \<Longrightarrow> owns m0 as h = owns m0 bs h"
  by (metis owns_def mset_eq_imp_distinct_iff mset_eq_setD)

lemma malloc_owns:
  assumes "malloc avail n h = (r, h')" and "owns m0 as h"
  shows "case r of None \<Rightarrow> owns m0 as h'
         | Some p \<Rightarrow> owns m0 (p # as) h' \<and> h_mem h' p = Some (replicate n None) \<and> h_mem h p = None"
proof -
  have "h_mem h (h_next h) = None" "h_next h \<notin> set as" using assms(2) by (fastforce simp: owns_def)+
  with assms show ?thesis
    by (auto simp: malloc_def Let_def owns_def fun_eq_iff restrict_map_def less_Suc_eq split: if_splits option.splits)
qed

lemma owns_write: "owns m0 as h \<Longrightarrow> p \<in> set as \<Longrightarrow> owns m0 as (h\<lparr> h_mem := (h_mem h)(p \<mapsto> b) \<rparr>)"
  by (auto simp: owns_def)

lemma cfree_owns:
  assumes "owns m0 (a # as) h"
  obtains h' where "cfree (Some a) h = Some h'" "owns m0 as h'"
proof -
  have "h_mem h a \<noteq> None" using assms by (auto simp: owns_def)
  moreover have "owns m0 as (h\<lparr> h_mem := (h_mem h)(a := None) \<rparr>)"
    using assms by (auto simp: owns_def fun_eq_iff restrict_map_def split: if_splits)
  ultimately show thesis using that by (auto simp: cfree_def)
qed

abbreviation pool_owns :: "(addr \<rightharpoonup> block) \<Rightarrow> 'w compat_pool \<Rightarrow> heap \<Rightarrow> bool" where
  "pool_owns m0 pool h \<equiv> owns m0 (nodes pool @ datas pool) h"

lemma datas_simps [simp]:
  "datas (pool\<lparr> cp_large := ls \<rparr>) = datas pool"
  "datas (pool\<lparr> cp_cleanup := c # cs \<rparr>) = (case pc_data c of None \<Rightarrow> [] | Some d \<Rightarrow> [d]) @ datas (pool\<lparr> cp_cleanup := cs \<rparr>)"
  "datas (pool\<lparr> cp_cleanup := cp_cleanup pool \<rparr>) = datas pool"
  by (simp_all add: datas_def map_filter_simps split: option.splits)

lemma nodes_simps:
  "nodes (pool\<lparr> cp_large := l # cp_large pool \<rparr>)
     = map pc_addr (cp_cleanup pool) @ pl_alloc l # pl_addr l # concat (map (\<lambda>l. [pl_alloc l, pl_addr l]) (cp_large pool)) @ [cp_addr pool]"
  "nodes (pool\<lparr> cp_cleanup := c # cp_cleanup pool \<rparr>) = pc_addr c # nodes pool"
  by (simp_all add: nodes_def)

lemma set_handler_blocks [simp]: "nodes (set_handler f pool) = nodes pool" "datas (set_handler f pool) = datas pool"
  by (simp_all add: nodes_def datas_def set_handler_def map_filter_simps split: list.splits)

lemma palloc_owns:
  assumes "pool_owns m0 pool h"
  obtains r pool' h' where "ngx_palloc avail pool n h = Some (r, pool', h')" "pool_owns m0 pool' h'"
    "cp_cleanup pool' = cp_cleanup pool" "r = None \<longrightarrow> pool' = pool"
    "\<forall>p. r = Some p \<longrightarrow> h_mem h' p = Some (replicate n None) \<and> h_mem h p = None \<and> p \<in> set (nodes pool')"
proof -
  obtain r1 h1 where m1: "malloc avail n h = (r1, h1)" by fastforce
  note o1 = malloc_owns [OF m1 assms]
  show thesis
  proof (cases r1)
    case None
    with o1 m1 that [of None pool h1] show thesis by (simp add: ngx_palloc_def)
  next
    case (Some p)
    obtain r2 h2 where m2: "malloc avail 16 h1 = (r2, h2)" by fastforce
    from o1 Some have op: "owns m0 (p # nodes pool @ datas pool) h1" by simp
    note o2 = malloc_owns [OF m2 op]
    show thesis
    proof (cases r2)
      case None
      with o2 have "owns m0 (p # nodes pool @ datas pool) h2" by simp
      then obtain h3 where "cfree (Some p) h2 = Some h3" "pool_owns m0 pool h3" by (rule cfree_owns)
      with m1 m2 Some None that [of None pool h3] show thesis by (simp add: ngx_palloc_def)
    next
      case s2: (Some l)
      with o2 have "owns m0 (l # p # nodes pool @ datas pool) h2" "h_mem h1 l = None" by simp_all
      moreover from this o1 Some have "h_mem h2 p = Some (replicate n None)"
        using m2 s2 by (auto simp: malloc_def Let_def split: if_splits)
      moreover have "mset (l # p # nodes pool @ datas pool)
          = mset (nodes (pool\<lparr> cp_large := \<lparr> pl_addr = l, pl_alloc = p \<rparr> # cp_large pool \<rparr>) @ datas pool)"
        by (simp add: nodes_def)
      ultimately show thesis
        using m1 m2 Some s2 o1 owns_perm that [of "Some p" "pool\<lparr> cp_large := \<lparr> pl_addr = l, pl_alloc = p \<rparr> # cp_large pool \<rparr>" h2]
        by (fastforce simp: ngx_palloc_def nodes_simps(1))
    qed
  qed
qed

lemma find_large_Some:
  "find_large p ls = Some (l, ls') \<Longrightarrow> pl_alloc l = p \<and> (\<exists>xs ys. ls = xs @ l # ys \<and> ls' = xs @ ys \<and> p \<notin> pl_alloc ` set xs)"
proof (induction ls arbitrary: l ls')
  case (Cons k ls)
  show ?case
  proof (cases "pl_alloc k = p")
    case False
    with Cons.prems obtain ls1 where "find_large p ls = Some (l, ls1)" "ls' = k # ls1" by auto
    moreover from Cons.IH [OF this(1)] obtain xs ys where "pl_alloc l = p" "ls = xs @ l # ys" "ls1 = xs @ ys" "p \<notin> pl_alloc ` set xs"
      by blast
    ultimately show ?thesis using False by (intro conjI exI [of _ "k # xs"] exI [of _ ys]) auto
  qed (use Cons.prems in \<open>force intro: exI [of _ "[]"]\<close>)
qed simp

lemma pfree_owns:
  assumes "pool_owns m0 pool h"
  obtains rc pool' h' where "ngx_pfree (Some pool) p h = Some (rc, Some pool', h')" "pool_owns m0 pool' h'"
    "cp_cleanup pool' = cp_cleanup pool"
proof (cases "find_large p (cp_large pool)")
  case None
  with assms that show thesis by (simp add: ngx_pfree_def)
next
  case (Some x)
  then obtain l ls' where f: "find_large p (cp_large pool) = Some (l, ls')" by (cases x) auto
  then obtain xs ys where ls: "cp_large pool = xs @ l # ys" "ls' = xs @ ys" using find_large_Some by metis
  have "mset (nodes pool @ datas pool)
      = mset (pl_alloc l # pl_addr l # nodes (pool\<lparr> cp_large := ls' \<rparr>) @ datas (pool\<lparr> cp_large := ls' \<rparr>))"
    by (simp add: nodes_def ls)
  with assms have "owns m0 (pl_alloc l # pl_addr l # nodes (pool\<lparr> cp_large := ls' \<rparr>) @ datas (pool\<lparr> cp_large := ls' \<rparr>)) h"
    using owns_perm by blast
  then obtain h1 where h1: "cfree (Some (pl_alloc l)) h = Some h1"
    "owns m0 (pl_addr l # nodes (pool\<lparr> cp_large := ls' \<rparr>) @ datas (pool\<lparr> cp_large := ls' \<rparr>)) h1" by (rule cfree_owns)
  from h1(2) obtain h2 where "cfree (Some (pl_addr l)) h1 = Some h2" "pool_owns m0 (pool\<lparr> cp_large := ls' \<rparr>) h2" by (rule cfree_owns)
  with f h1(1) that show thesis by (simp add: ngx_pfree_def)
qed

lemma cleanup_add_owns:
  assumes "pool_owns m0 pool h"
  obtains r pool' h' where "ngx_pool_cleanup_add avail (Some pool) n h = Some (r, Some pool', h')" "pool_owns m0 pool' h'"
    "r = None \<longrightarrow> pool' = pool"
    "r \<noteq> None \<longrightarrow> (\<exists>c. cp_cleanup pool' = c # cp_cleanup pool \<and> (n = 0 \<longrightarrow> pc_data c = None))"
proof -
  obtain r1 h1 where m1: "malloc avail 24 h = (r1, h1)" by fastforce
  note o1 = malloc_owns [OF m1 assms]
  show thesis
  proof (cases r1)
    case None
    with o1 m1 that [of None pool h1] show thesis by (simp add: ngx_pool_cleanup_add_def)
  next
    case (Some c)
    then have op: "owns m0 (c # nodes pool @ datas pool) h1" using o1 by simp
    let ?pool = "\<lambda>d. pool\<lparr> cp_cleanup := \<lparr> pc_addr = c, pc_handler = None, pc_data = d \<rparr> # cp_cleanup pool \<rparr>"
    show thesis
    proof (cases "n > 0")
      case False
      have "pool_owns m0 (?pool None) h1" using op by (simp add: nodes_simps)
      with m1 Some False that [of "Some c" "?pool None" h1] show thesis by (simp add: ngx_pool_cleanup_add_def)
    next
      case True
      obtain r2 h2 where m2: "malloc avail n h1 = (r2, h2)" by fastforce
      note o2 = malloc_owns [OF m2 op]
      show thesis
      proof (cases r2)
        case None
        with o2 have "owns m0 (c # nodes pool @ datas pool) h2" by simp
        then obtain h3 where "cfree (Some c) h2 = Some h3" "pool_owns m0 pool h3" by (rule cfree_owns)
        with m1 m2 Some None True that [of None pool h3] show thesis by (simp add: ngx_pool_cleanup_add_def)
      next
        case s2: (Some d)
        have "mset (d # c # nodes pool @ datas pool) = mset (nodes (?pool (Some d)) @ datas (?pool (Some d)))"
          by (simp add: nodes_simps)
        with o2 s2 have "pool_owns m0 (?pool (Some d)) h2" using owns_perm by fastforce
        with m1 m2 Some s2 True that [of "Some c" "?pool (Some d)" h2] show thesis by (simp add: ngx_pool_cleanup_add_def)
      qed
    qed
  qed
qed

text \<open>Every operation is defined and keeps the pool's ownership.\<close>

lemma pool_op_owns:
  assumes "pool_owns m0 pool h"
  obtains pool' h' where "pool_op avail e (pool, h) = Some (pool', h')" "pool_owns m0 pool' h'"
    "\<exists>cs. cp_cleanup pool' = cs @ cp_cleanup pool \<and> subseq (rev (map pc_handler cs)) (handlers [e])
       \<and> ((\<forall>n f. e = Cleanup n f \<longrightarrow> n = 0) \<longrightarrow> List.map_filter pc_data cs = [])"
proof (cases e)
  case (Palloc n)
  obtain r pool' h' where "ngx_palloc avail pool n h = Some (r, pool', h')" "pool_owns m0 pool' h'" "cp_cleanup pool' = cp_cleanup pool"
    by (rule palloc_owns [OF assms])
  with Palloc that show thesis by simp
next
  case (Pnalloc n)
  obtain r pool' h' where "ngx_palloc avail pool n h = Some (r, pool', h')" "pool_owns m0 pool' h'" "cp_cleanup pool' = cp_cleanup pool"
    by (rule palloc_owns [OF assms])
  with Pnalloc that show thesis by (simp add: ngx_pnalloc_def)
next
  case (Pcalloc n)
  obtain r pool' h' where p: "ngx_palloc avail pool n h = Some (r, pool', h')" "pool_owns m0 pool' h'" "cp_cleanup pool' = cp_cleanup pool"
    "r = None \<longrightarrow> pool' = pool"
    "\<forall>p. r = Some p \<longrightarrow> h_mem h' p = Some (replicate n None) \<and> h_mem h p = None \<and> p \<in> set (nodes pool')"
    by (rule palloc_owns [OF assms])
  have "pool_owns m0 pool' (h'\<lparr> h_mem := (h_mem h')(p \<mapsto> replicate n (Some (CHR 0x00))) \<rparr>)" if "r = Some p" for p
    using p(2,5) that by (intro owns_write) auto
  with p Pcalloc that show thesis by (cases r) (auto simp: ngx_pcalloc_def)
next
  case (Pfree p)
  obtain rc pool' h' where "ngx_pfree (Some pool) p h = Some (rc, Some pool', h')" "pool_owns m0 pool' h'"
    "cp_cleanup pool' = cp_cleanup pool" by (rule pfree_owns [OF assms])
  with Pfree that show thesis by simp
next
  case (Cleanup n f)
  obtain r pool' h' where c: "ngx_pool_cleanup_add avail (Some pool) n h = Some (r, Some pool', h')" "pool_owns m0 pool' h'"
    "r = None \<longrightarrow> pool' = pool" "r \<noteq> None \<longrightarrow> (\<exists>c. cp_cleanup pool' = c # cp_cleanup pool \<and> (n = 0 \<longrightarrow> pc_data c = None))"
    by (rule cleanup_add_owns [OF assms])
  show thesis
  proof (cases r)
    case None
    with c Cleanup that [of pool h'] show thesis by simp
  next
    case (Some a)
    with c(4) obtain d where "cp_cleanup pool' = d # cp_cleanup pool" "n = 0 \<longrightarrow> pc_data d = None" by blast
    then have "cp_cleanup (set_handler f pool') = [d\<lparr> pc_handler := f \<rparr>] @ cp_cleanup pool" "n = 0 \<longrightarrow> pc_data (d\<lparr> pc_handler := f \<rparr>) = None"
      by (simp_all add: set_handler_def)
    with c(1,2) Some Cleanup show thesis
      by (intro that [of "set_handler f pool'" h'] exI [of _ "[d\<lparr> pc_handler := f \<rparr>]"]) (auto simp: map_filter_simps)
  qed
qed

lemma handlers_Cons: "handlers (e # es) = handlers [e] @ handlers es"
  by (cases e) simp_all

lemma map_filter_append: "List.map_filter f (xs @ ys) = List.map_filter f xs @ List.map_filter f ys"
  by (induction xs) (simp_all add: map_filter_simps split: option.splits)

lemma pool_ops_owns:
  assumes "pool_owns m0 pool h"
  obtains pool' h' where "pool_ops avail es (pool, h) = Some (pool', h')" "pool_owns m0 pool' h'"
    "\<exists>cs. cp_cleanup pool' = cs @ cp_cleanup pool \<and> subseq (rev (map pc_handler cs)) (handlers es)
       \<and> ((\<forall>n f. Cleanup n f \<in> set es \<longrightarrow> n = 0) \<longrightarrow> List.map_filter pc_data cs = [])"
  using assms
proof (induction es arbitrary: pool h thesis)
  case Nil
  then show thesis by simp
next
  case (Cons e es)
  obtain pool1 h1 cs1 where s1: "pool_op avail e (pool, h) = Some (pool1, h1)" "pool_owns m0 pool1 h1"
    "cp_cleanup pool1 = cs1 @ cp_cleanup pool" "subseq (rev (map pc_handler cs1)) (handlers [e])"
    "(\<forall>n f. e = Cleanup n f \<longrightarrow> n = 0) \<longrightarrow> List.map_filter pc_data cs1 = []"
    by (rule pool_op_owns [OF Cons.prems(2)]) blast
  obtain pool2 h2 cs2 where s2: "pool_ops avail es (pool1, h1) = Some (pool2, h2)" "pool_owns m0 pool2 h2"
    "cp_cleanup pool2 = cs2 @ cp_cleanup pool1" "subseq (rev (map pc_handler cs2)) (handlers es)"
    "(\<forall>n f. Cleanup n f \<in> set es \<longrightarrow> n = 0) \<longrightarrow> List.map_filter pc_data cs2 = []"
    by (rule Cons.IH [OF _ s1(2)]) blast
  have "subseq (rev (map pc_handler (cs2 @ cs1))) (handlers (e # es))"
    unfolding handlers_Cons [of e es] using list_emb_append_mono [OF s1(4) s2(4)] by simp
  with s1 s2 show thesis
    by (intro Cons.prems(1) [of pool2 h2] exI [of _ "cs2 @ cs1"]) (auto simp: map_filter_append)
qed

text \<open>Destroying the pool.\<close>

definition run_handlers :: "'w ngx_pool_cleanup_t list \<Rightarrow> 'w \<Rightarrow> 'w" where
  "run_handlers cs w = fold (\<lambda>c w. case pc_handler c of None \<Rightarrow> w | Some f \<Rightarrow> f (pc_data c) w) cs w"

lemma run_cleanups_owns:
  assumes "owns m0 (map pc_addr cs @ as) h"
  obtains h' where "run_cleanups cs w h = Some (run_handlers cs w, h')" "owns m0 as h'"
  using assms
proof (induction cs arbitrary: w h thesis)
  case (Cons c cs)
  then obtain h1 where h1: "cfree (Some (pc_addr c)) h = Some h1" "owns m0 (map pc_addr cs @ as) h1"
    by (metis append_Cons cfree_owns list.simps(9))
  obtain h' where "run_cleanups cs (case pc_handler c of None \<Rightarrow> w | Some f \<Rightarrow> f (pc_data c) w) h1
      = Some (run_handlers cs (case pc_handler c of None \<Rightarrow> w | Some f \<Rightarrow> f (pc_data c) w), h')" "owns m0 as h'"
    by (rule Cons.IH [OF _ h1(2)])
  with h1(1) Cons.prems(1) show thesis by (simp add: run_handlers_def Let_def)
qed (simp add: run_handlers_def)

lemma free_large_owns:
  assumes "owns m0 (concat (map (\<lambda>l. [pl_alloc l, pl_addr l]) ls) @ as) h"
  obtains h' where "free_large ls h = Some h'" "owns m0 as h'"
  using assms
proof (induction ls arbitrary: h thesis)
  case (Cons l ls)
  then obtain h1 where h1: "cfree (Some (pl_alloc l)) h = Some h1"
    "owns m0 (pl_addr l # concat (map (\<lambda>l. [pl_alloc l, pl_addr l]) ls) @ as) h1" by (auto elim: cfree_owns)
  from h1(2) obtain h2 where h2: "cfree (Some (pl_addr l)) h1 = Some h2"
    "owns m0 (concat (map (\<lambda>l. [pl_alloc l, pl_addr l]) ls) @ as) h2" by (rule cfree_owns)
  obtain h' where "free_large ls h2 = Some h'" "owns m0 as h'" by (rule Cons.IH [OF _ h2(2)])
  with h1(1) h2(1) Cons.prems(1) show thesis by simp
qed simp

lemma destroy_owns:
  assumes "pool_owns m0 pool h"
  obtains h' where "ngx_destroy_pool (Some pool) w h = Some (run_handlers (cp_cleanup pool) w, h')" "owns m0 (datas pool) h'"
proof -
  from assms have "owns m0 (map pc_addr (cp_cleanup pool) @ concat (map (\<lambda>l. [pl_alloc l, pl_addr l]) (cp_large pool))
      @ cp_addr pool # datas pool) h" by (simp add: nodes_def)
  then obtain h1 where h1: "run_cleanups (cp_cleanup pool) w h = Some (run_handlers (cp_cleanup pool) w, h1)"
    "owns m0 (concat (map (\<lambda>l. [pl_alloc l, pl_addr l]) (cp_large pool)) @ cp_addr pool # datas pool) h1"
    by (rule run_cleanups_owns)
  from h1(2) obtain h2 where h2: "free_large (cp_large pool) h1 = Some h2" "owns m0 (cp_addr pool # datas pool) h2"
    by (rule free_large_owns)
  from h2(2) obtain h3 where "cfree (Some (cp_addr pool)) h2 = Some h3" "owns m0 (datas pool) h3" by (rule cfree_owns)
  with h1(1) h2(1) that show thesis by (simp add: ngx_destroy_pool_def)
qed

section \<open>Formats\<close>

text \<open>No percent sign is the last character of a conversion.\<close>

fun no_dangling :: "bytes \<Rightarrow> bool" where
  "no_dangling [] = True"
| "no_dangling (c # cs) = (if c \<noteq> CHR ''%'' then no_dangling cs else case cs of [] \<Rightarrow> False | a # r \<Rightarrow> no_dangling r)"

text \<open>The pieces of a format: a character, the four numeric conversions of nginx that C does not have, and the
  first character of any other conversion.\<close>

datatype piece = Text char | Uz | Ui | Zz | Ii | Conv char

fun nginx_text :: "piece \<Rightarrow> bytes" where
  "nginx_text (Text c) = [c]"
| "nginx_text Uz = ''%uz''"
| "nginx_text Ui = ''%ui''"
| "nginx_text Zz = ''%z''"
| "nginx_text Ii = ''%i''"
| "nginx_text (Conv a) = [CHR ''%'', a]"

fun c99_text :: "piece \<Rightarrow> bytes" where
  "c99_text (Text c) = [c]"
| "c99_text Uz = ''%zu''"
| "c99_text Ui = ''%zu''"
| "c99_text Zz = ''%zd''"
| "c99_text Ii = ''%zd''"
| "c99_text (Conv a) = [CHR ''%'', a]"

fun piece_ok :: "piece \<Rightarrow> bool" where
  "piece_ok (Text c) = (c \<noteq> CHR ''%'')"
| "piece_ok (Conv a) = (a \<notin> {CHR ''u'', CHR ''z'', CHR ''i''})"
| "piece_ok _ = True"

lemma no_dangling_append: "no_dangling xs \<Longrightarrow> no_dangling (xs @ ys) = no_dangling ys"
proof (induction xs rule: no_dangling.induct)
  case (2 c cs)
  then show ?case by (cases "c = CHR ''%''"; cases cs) simp_all
qed simp

lemma log_loop_length: "length q \<le> 510 \<Longrightarrow> length (log_loop p q) \<le> 510"
  by (induction p q rule: log_loop.induct) (auto split: list.splits)

lemma log_loop_no_dangling: "no_dangling q \<Longrightarrow> no_dangling (log_loop p q)"
  by (induction p q rule: log_loop.induct) (auto simp: no_dangling_append split: list.splits)

lemma log_loop_pieces:
  "list_all piece_ok ds \<Longrightarrow> length q + length (concat (map c99_text ds)) \<le> 508 \<Longrightarrow>
   log_loop (concat (map nginx_text ds)) q = q @ concat (map c99_text ds)"
proof (induction ds arbitrary: q)
  case (Cons d ds)
  have "log_loop (nginx_text d @ p) q = log_loop p (q @ c99_text d)" for p
    using Cons.prems by (cases d) auto
  with Cons show ?case by simp
qed simp

text \<open>A conversion longer than two characters can be cut in two at the end of the buffer.\<close>

lemma log_truncates_conversion: "log_loop (replicate 506 (CHR ''a'') @ ''%.*s'') [] = replicate 506 (CHR ''a'') @ ''%.''"
proof -
  have "log_loop (replicate n (CHR ''a'') @ p) q = log_loop p (q @ replicate n (CHR ''a''))" if "length q + n \<le> 508" for n p q
    using that by (induction n arbitrary: q) (simp_all add: replicate_app_Cons_same)
  from this [of "[]" 506 "''%.*s''"] show ?thesis by simp
qed

section \<open>Properties\<close>



text \<open>Log formats. What the logger hands to \<open>vfprintf\<close> fits the 512-byte buffer with its terminator and never
  ends in a percent sign without a conversion character, for every format, however long; and a format
  of at most 508 characters is rewritten exactly: the nginx conversions \<open>%uz\<close>, \<open>%ui\<close>, \<open>%z\<close> and \<open>%i\<close> become \<open>%zu\<close>
  and \<open>%zd\<close> and everything else is copied.\<close>

theorem log_format_exact:
  assumes "ngx_compat_log_error level log fmt = Some f"
  shows "length f + 1 \<le> 512 \<and> no_dangling f
     \<and> (\<forall>ds. list_all piece_ok ds \<and> fmt = concat (map nginx_text ds) \<and> length (concat (map c99_text ds)) \<le> 508
          \<longrightarrow> f = concat (map c99_text ds))"
proof -
  from assms have "f = log_loop fmt []" by (auto simp: ngx_compat_log_error_def split: option.splits if_splits)
  with log_loop_length [of "[]" fmt] log_loop_no_dangling [of "[]" fmt] log_loop_pieces [of _ "[]"] show ?thesis by auto
qed

theorem log_format_exact_witness:
  "ngx_compat_log_error 4 (Some \<lparr> log_level = 4 \<rparr>) ''n=%uz s=%s'' = Some ''n=%zu s=%s''"
proof -
  obtain f where f: "ngx_compat_log_error 4 (Some \<lparr> log_level = 4 \<rparr>) ''n=%uz s=%s'' = Some f"
    by (simp add: ngx_compat_log_error_def)
  from log_format_exact [OF f, THEN conjunct2, THEN conjunct2, rule_format,
      of "[Text (CHR ''n''), Text (CHR ''=''), Uz, Text (CHR '' ''), Text (CHR ''s''), Text (CHR ''=''), Conv (CHR ''s'')]"]
  have "f = ''n=%zu s=%s''" by simp
  with f show ?thesis by simp
qed

end
