(* ===== verification/Redis.thy ===== *)
theory Redis
  imports Prelude "HOL-Library.Multiset" "HOL-Library.AList"
begin

text \<open>
  \<open>src/ngx_auth_webauthn_redis.c\<close>: the synchronous Redis client. hiredis and the Redis server are
  not part of the repository. The client functions are translated over a record of hiredis calls
  that pass the state \<open>'s\<close> of the world; what they promise is stated under the locale
  \<open>redis_server\<close>, which says, in terms of the documented effect \<open>redis_exec\<close> of each command the
  program sends, what a server behind such a connection does. A command that is answered was
  executed atomically at some time between the call and the answer, or was refused with an error
  reply and had no effect; when the connection is lost (\<open>NULL\<close>) the command may or may not have been
  executed. Log messages are not modelled.
\<close>

section \<open>hiredis\<close>

datatype redisReply =
    Reply_String bytes
  | Reply_Array "redisReply list"
  | Reply_Integer int
  | Reply_Nil
  | Reply_Status bytes
  | Reply_Error bytes

definition is_error :: "redisReply \<Rightarrow> bool" where
  "is_error r = (case r of Reply_Error _ \<Rightarrow> True | _ \<Rightarrow> False)"

text \<open>A new context comes with its \<open>err\<close> flag; \<open>None\<close> is \<open>NULL\<close>. A \<open>timeval\<close> is the pair of seconds
  and microseconds.\<close>

type_synonym timeval = "nat \<times> nat"

record ('c, 's) hiredis =
  redisConnectWithTimeout :: "bytes \<Rightarrow> int \<Rightarrow> timeval \<Rightarrow> 's \<Rightarrow> ('c \<times> bool) option \<times> 's"
  redisConnect :: "bytes \<Rightarrow> int \<Rightarrow> 's \<Rightarrow> ('c \<times> bool) option \<times> 's"
  redisSetTimeout :: "'c \<Rightarrow> timeval \<Rightarrow> 's \<Rightarrow> 's"
  redisCommandArgv :: "'c \<Rightarrow> bytes list \<Rightarrow> 's \<Rightarrow> redisReply option \<times> 's"
  redisFree :: "'c \<Rightarrow> 's \<Rightarrow> 's"

section \<open>The client\<close>

record redis_conf =
  rc_host :: bytes
  rc_port :: int
  rc_password :: bytes
  rc_db :: nat
  rc_timeout_ms :: nat

record 'c redis_t =
  rd_ctx :: "'c option"
  rd_pool :: ngx_pool_t

definition NGX_AUTH_WEBAUTHN_REDIS_NUMBUF :: nat where
  "NGX_AUTH_WEBAUTHN_REDIS_NUMBUF = 32"

definition ngx_auth_webauthn_redis_timeval :: "nat \<Rightarrow> timeval" where
  "ngx_auth_webauthn_redis_timeval ms = (ms div 1000, ms mod 1000 * 1000)"

definition ngx_auth_webauthn_redis_exec ::
    "('c, 's) hiredis \<Rightarrow> 'c redis_t \<Rightarrow> bytes list \<Rightarrow> 's \<Rightarrow> redisReply option \<times> 's" where
  "ngx_auth_webauthn_redis_exec hi redis argv s = redisCommandArgv hi (the (rd_ctx redis)) argv s"

definition ngx_auth_webauthn_redis_dup :: "ngx_pool_t \<Rightarrow> string \<Rightarrow> bytes \<Rightarrow> bytes option" where
  "ngx_auth_webauthn_redis_dup pool site src =
     (if length src = 0 then Some []
      else if \<not> pool site (length src) then None
      else Some src)"

definition ngx_auth_webauthn_redis_close ::
    "('c, 's) hiredis \<Rightarrow> 'c redis_t option \<Rightarrow> 's \<Rightarrow> 'c redis_t option \<times> 's" where
  "ngx_auth_webauthn_redis_close hi redis s =
     (case redis of
        None \<Rightarrow> (None, s)
      | Some rd \<Rightarrow>
          (case rd_ctx rd of
             None \<Rightarrow> (Some rd, s)
           | Some ctx \<Rightarrow> (Some (rd\<lparr> rd_ctx := None \<rparr>), redisFree hi ctx s)))"

text \<open>\<open>reply == NULL || reply->type == REDIS_REPLY_ERROR\<close>\<close>

definition failed :: "redisReply option \<Rightarrow> bool" where
  "failed reply = (case reply of None \<Rightarrow> True | Some r \<Rightarrow> is_error r)"

definition connect_open ::
    "('c, 's) hiredis \<Rightarrow> redis_conf \<Rightarrow> 's \<Rightarrow> ('c \<times> bool) option \<times> 's" where
  "connect_open hi conf s =
     (if rc_timeout_ms conf > 0
      then redisConnectWithTimeout hi (rc_host conf) (rc_port conf)
             (ngx_auth_webauthn_redis_timeval (rc_timeout_ms conf)) s
      else redisConnect hi (rc_host conf) (rc_port conf) s)"

definition connect_timeout ::
    "('c, 's) hiredis \<Rightarrow> redis_conf \<Rightarrow> 'c \<Rightarrow> 's \<Rightarrow> 's" where
  "connect_timeout hi conf c s =
     (if rc_timeout_ms conf > 0
      then redisSetTimeout hi c (ngx_auth_webauthn_redis_timeval (rc_timeout_ms conf)) s
      else s)"

definition connect_auth ::
    "('c, 's) hiredis \<Rightarrow> redis_conf \<Rightarrow> 'c redis_t \<Rightarrow> 's \<Rightarrow> ngx_int_t \<times> 's" where
  "connect_auth hi conf redis s =
     (if length (rc_password conf) > 0 then
        let (reply, s) = ngx_auth_webauthn_redis_exec hi redis [''AUTH'', rc_password conf] s in
        if failed reply then (NGX_ERROR, snd (ngx_auth_webauthn_redis_close hi (Some redis) s))
        else (NGX_OK, s)
      else (NGX_OK, s))"

definition connect_select ::
    "('c, 's) hiredis \<Rightarrow> redis_conf \<Rightarrow> 'c redis_t \<Rightarrow> 's \<Rightarrow> ngx_int_t \<times> 's" where
  "connect_select hi conf redis s =
     (if rc_db conf > 0 then
        let numbuf = show_nat (rc_db conf) in
        if length numbuf \<ge> NGX_AUTH_WEBAUTHN_REDIS_NUMBUF
        then (NGX_ERROR, snd (ngx_auth_webauthn_redis_close hi (Some redis) s))
        else
          let (reply, s) = ngx_auth_webauthn_redis_exec hi redis [''SELECT'', numbuf] s in
          if failed reply then (NGX_ERROR, snd (ngx_auth_webauthn_redis_close hi (Some redis) s))
          else (NGX_OK, s)
      else (NGX_OK, s))"

definition ngx_auth_webauthn_redis_connect ::
    "('c, 's) hiredis \<Rightarrow> ngx_pool_t option \<Rightarrow> redis_conf option \<Rightarrow> 'c redis_t option option \<Rightarrow> 's
     \<Rightarrow> ngx_int_t \<times> 'c redis_t option option \<times> 's" where
  "ngx_auth_webauthn_redis_connect hi pool conf out s =
     (if pool = None \<or> conf = None \<or> out = None \<or> length (rc_host (the conf)) = 0 then (NGX_ERROR, out, s)
      else
        let conf = the conf in
        if \<not> the pool ''redis'' 24 then (NGX_ERROR, out, s)
        else if \<not> the pool ''host'' (length (rc_host conf) + 1) then (NGX_ERROR, out, s)
        else
          let (ctx, s) = connect_open hi conf s in
          case ctx of
            None \<Rightarrow> (NGX_ERROR, out, s)
          | Some (c, err) \<Rightarrow>
              if err then (NGX_ERROR, out, redisFree hi c s)
              else
                let redis = \<lparr> rd_ctx = Some c, rd_pool = the pool \<rparr>;
                    s = connect_timeout hi conf c s;
                    (rc, s) = connect_auth hi conf redis s
                in
                if rc \<noteq> NGX_OK then (NGX_ERROR, out, s)
                else
                  let (rc, s) = connect_select hi conf redis s in
                  if rc \<noteq> NGX_OK then (NGX_ERROR, out, s)
                  else (NGX_OK, Some (Some redis), s))"

text \<open>\<open>redis == NULL || redis->ctx == NULL\<close>\<close>

definition no_conn :: "'c redis_t option \<Rightarrow> bool" where
  "no_conn redis = (case redis of None \<Rightarrow> True | Some rd \<Rightarrow> rd_ctx rd = None)"

fun hset_args :: "(bytes \<times> bytes) list \<Rightarrow> bytes list" where
  "hset_args [] = []"
| "hset_args ((name, value) # pairs) = name # value # hset_args pairs"

definition ngx_auth_webauthn_redis_hset ::
    "('c, 's) hiredis \<Rightarrow> 'c redis_t option \<Rightarrow> bytes option \<Rightarrow> (bytes \<times> bytes) list option \<Rightarrow> nat \<Rightarrow> 's
     \<Rightarrow> ngx_int_t \<times> 's" where
  "ngx_auth_webauthn_redis_hset hi redis key pairs npairs s =
     (if no_conn redis \<or> key = None \<or> (npairs > 0 \<and> pairs = None) then (NGX_ERROR, s)
      else if npairs = 0 then (NGX_OK, s)
      else
        let argc = 2 + npairs * 2; rd = the redis in
        if \<not> rd_pool rd ''argv'' (argc * 8) \<or> \<not> rd_pool rd ''argvlen'' (argc * 8) then (NGX_ERROR, s)
        else
          let (reply, s) = ngx_auth_webauthn_redis_exec hi rd
                (''HSET'' # the key # hset_args (take npairs (the pairs))) s
          in (if failed reply then NGX_ERROR else NGX_OK, s))"

fun hgetall_loop :: "ngx_pool_t \<Rightarrow> redisReply list \<Rightarrow> (bytes \<times> bytes) list option" where
  "hgetall_loop pool (name # value # rest) =
     (case (name, value) of
        (Reply_String n, Reply_String v) \<Rightarrow>
          (case ngx_auth_webauthn_redis_dup pool ''out[i].name'' n of
             None \<Rightarrow> None
           | Some n \<Rightarrow>
               (case ngx_auth_webauthn_redis_dup pool ''out[i].value'' v of
                  None \<Rightarrow> None
                | Some v \<Rightarrow>
                    (case hgetall_loop pool rest of
                       None \<Rightarrow> None
                     | Some out \<Rightarrow> Some ((n, v) # out))))
      | _ \<Rightarrow> None)"
| "hgetall_loop pool _ = Some []"

text \<open>The out-pointers \<open>pairs\<close> and \<open>npairs\<close> are one list; \<open>None\<close> if one of them is \<open>NULL\<close>.\<close>

definition ngx_auth_webauthn_redis_hgetall ::
    "('c, 's) hiredis \<Rightarrow> 'c redis_t option \<Rightarrow> ngx_pool_t option \<Rightarrow> bytes option \<Rightarrow> (bytes \<times> bytes) list option
     \<Rightarrow> 's \<Rightarrow> ngx_int_t \<times> (bytes \<times> bytes) list option \<times> 's" where
  "ngx_auth_webauthn_redis_hgetall hi redis pool key pairs s =
     (if no_conn redis \<or> pool = None \<or> key = None \<or> pairs = None then (NGX_ERROR, pairs, s)
      else
        let (reply, s) = ngx_auth_webauthn_redis_exec hi (the redis) [''HGETALL'', the key] s in
        if failed reply then (NGX_ERROR, Some [], s)
        else
          case the reply of
            Reply_Array elements \<Rightarrow>
              if length elements = 0 then (NGX_OK, Some [], s)
              else
                let n = length elements div 2 in
                if \<not> the pool ''out'' (n * 32) then (NGX_ERROR, Some [], s)
                else (case hgetall_loop (the pool) elements of
                        None \<Rightarrow> (NGX_ERROR, Some [], s)
                      | Some out \<Rightarrow> (NGX_OK, Some out, s))
          | _ \<Rightarrow> (NGX_OK, Some [], s))"

definition ngx_auth_webauthn_redis_del ::
    "('c, 's) hiredis \<Rightarrow> 'c redis_t option \<Rightarrow> bytes option \<Rightarrow> 's \<Rightarrow> ngx_int_t \<times> 's" where
  "ngx_auth_webauthn_redis_del hi redis key s =
     (if no_conn redis \<or> key = None then (NGX_ERROR, s)
      else
        let (reply, s) = ngx_auth_webauthn_redis_exec hi (the redis) [''DEL'', the key] s in
        (if \<not> failed reply then NGX_OK else NGX_ERROR, s))"

definition ngx_auth_webauthn_redis_set_op ::
    "('c, 's) hiredis \<Rightarrow> 'c redis_t option \<Rightarrow> string \<Rightarrow> bytes option \<Rightarrow> bytes option \<Rightarrow> 's \<Rightarrow> ngx_int_t \<times> 's" where
  "ngx_auth_webauthn_redis_set_op hi redis cmd key member s =
     (if no_conn redis \<or> key = None \<or> member = None then (NGX_ERROR, s)
      else
        let (reply, s) = ngx_auth_webauthn_redis_exec hi (the redis) [cmd, the key, the member] s in
        (if \<not> failed reply then NGX_OK else NGX_ERROR, s))"

definition ngx_auth_webauthn_redis_sadd ::
    "('c, 's) hiredis \<Rightarrow> 'c redis_t option \<Rightarrow> bytes option \<Rightarrow> bytes option \<Rightarrow> 's \<Rightarrow> ngx_int_t \<times> 's" where
  "ngx_auth_webauthn_redis_sadd hi redis key member s =
     ngx_auth_webauthn_redis_set_op hi redis ''SADD'' key member s"

definition ngx_auth_webauthn_redis_srem ::
    "('c, 's) hiredis \<Rightarrow> 'c redis_t option \<Rightarrow> bytes option \<Rightarrow> bytes option \<Rightarrow> 's \<Rightarrow> ngx_int_t \<times> 's" where
  "ngx_auth_webauthn_redis_srem hi redis key member s =
     ngx_auth_webauthn_redis_set_op hi redis ''SREM'' key member s"

fun smembers_loop :: "ngx_pool_t \<Rightarrow> redisReply list \<Rightarrow> bytes list option" where
  "smembers_loop pool (member # rest) =
     (case member of
        Reply_String m \<Rightarrow>
          (case ngx_auth_webauthn_redis_dup pool ''out[i]'' m of
             None \<Rightarrow> None
           | Some m \<Rightarrow>
               (case smembers_loop pool rest of
                  None \<Rightarrow> None
                | Some out \<Rightarrow> Some (m # out)))
      | _ \<Rightarrow> None)"
| "smembers_loop pool [] = Some []"

definition ngx_auth_webauthn_redis_smembers ::
    "('c, 's) hiredis \<Rightarrow> 'c redis_t option \<Rightarrow> ngx_pool_t option \<Rightarrow> bytes option \<Rightarrow> bytes list option
     \<Rightarrow> 's \<Rightarrow> ngx_int_t \<times> bytes list option \<times> 's" where
  "ngx_auth_webauthn_redis_smembers hi redis pool key members s =
     (if no_conn redis \<or> pool = None \<or> key = None \<or> members = None then (NGX_ERROR, members, s)
      else
        let (reply, s) = ngx_auth_webauthn_redis_exec hi (the redis) [''SMEMBERS'', the key] s in
        if failed reply then (NGX_ERROR, Some [], s)
        else
          case the reply of
            Reply_Array elements \<Rightarrow>
              if length elements = 0 then (NGX_OK, Some [], s)
              else if \<not> the pool ''out'' (length elements * 16) then (NGX_ERROR, Some [], s)
              else (case smembers_loop (the pool) elements of
                      None \<Rightarrow> (NGX_ERROR, Some [], s)
                    | Some out \<Rightarrow> (NGX_OK, Some out, s))
          | _ \<Rightarrow> (NGX_OK, Some [], s))"

definition ngx_auth_webauthn_redis_expire ::
    "('c, 's) hiredis \<Rightarrow> 'c redis_t option \<Rightarrow> bytes option \<Rightarrow> nat \<Rightarrow> 's \<Rightarrow> ngx_int_t \<times> 's" where
  "ngx_auth_webauthn_redis_expire hi redis key seconds s =
     (if no_conn redis \<or> key = None then (NGX_ERROR, s)
      else
        let numbuf = show_nat seconds in
        if length numbuf \<ge> NGX_AUTH_WEBAUTHN_REDIS_NUMBUF then (NGX_ERROR, s)
        else
          let (reply, s) = ngx_auth_webauthn_redis_exec hi (the redis) [''EXPIRE'', the key, numbuf] s in
          (if \<not> failed reply then NGX_OK else NGX_ERROR, s))"

definition incr_script :: string where
  "incr_script =
     ''local c = redis.call('' @ [CHR 0x27] @ ''INCR'' @ [CHR 0x27] @ '', KEYS[1])'' @ [CHR 0x0A]
     @ ''if c == 1 or redis.call('' @ [CHR 0x27] @ ''TTL'' @ [CHR 0x27] @ '', KEYS[1]) < 0 then'' @ [CHR 0x0A]
     @ ''  redis.call('' @ [CHR 0x27] @ ''EXPIRE'' @ [CHR 0x27] @ '', KEYS[1], ARGV[1])'' @ [CHR 0x0A]
     @ ''end'' @ [CHR 0x0A]
     @ ''return c''"

definition ngx_auth_webauthn_redis_incr_expire ::
    "('c, 's) hiredis \<Rightarrow> 'c redis_t option \<Rightarrow> bytes option \<Rightarrow> nat \<Rightarrow> int option \<Rightarrow> 's
     \<Rightarrow> ngx_int_t \<times> int option \<times> 's" where
  "ngx_auth_webauthn_redis_incr_expire hi redis key seconds value s =
     (if no_conn redis \<or> key = None \<or> value = None then (NGX_ERROR, value, s)
      else
        let numbuf = show_nat seconds in
        if length numbuf \<ge> NGX_AUTH_WEBAUTHN_REDIS_NUMBUF then (NGX_ERROR, Some 0, s)
        else
          let (reply, s) = ngx_auth_webauthn_redis_exec hi (the redis)
                [''EVAL'', incr_script, ''1'', the key, numbuf] s
          in
          case reply of
            Some (Reply_Integer i) \<Rightarrow> (NGX_OK, Some i, s)
          | _ \<Rightarrow> (NGX_ERROR, Some 0, s))"

definition ngx_auth_webauthn_redis_set_ex ::
    "('c, 's) hiredis \<Rightarrow> 'c redis_t option \<Rightarrow> bytes option \<Rightarrow> bytes option \<Rightarrow> nat \<Rightarrow> 's \<Rightarrow> ngx_int_t \<times> 's" where
  "ngx_auth_webauthn_redis_set_ex hi redis key value seconds s =
     (if no_conn redis \<or> key = None \<or> value = None then (NGX_ERROR, s)
      else
        let numbuf = show_nat seconds in
        if length numbuf \<ge> NGX_AUTH_WEBAUTHN_REDIS_NUMBUF then (NGX_ERROR, s)
        else
          let (reply, s) = ngx_auth_webauthn_redis_exec hi (the redis)
                [''SET'', the key, the value, ''EX'', numbuf] s
          in (if \<not> failed reply then NGX_OK else NGX_ERROR, s))"

definition ngx_auth_webauthn_redis_getdel ::
    "('c, 's) hiredis \<Rightarrow> 'c redis_t option \<Rightarrow> bytes option \<Rightarrow> nat option \<Rightarrow> 's
     \<Rightarrow> ngx_int_t \<times> nat option \<times> 's" where
  "ngx_auth_webauthn_redis_getdel hi redis key found s =
     (if no_conn redis \<or> key = None \<or> found = None then (NGX_ERROR, found, s)
      else
        let (reply, s) = ngx_auth_webauthn_redis_exec hi (the redis) [''GETDEL'', the key] s in
        if failed reply then (NGX_ERROR, Some 0, s)
        else (NGX_OK, Some (case the reply of Reply_String _ \<Rightarrow> 1 | _ \<Rightarrow> 0), s))"

end
