(* ===== verification/Redis_Server.thy ===== *)
theory Redis_Server
  imports Redis
begin

text \<open>
  What the program relies on of the Redis server: the documented effect of the commands
  \<open>ngx_auth_webauthn_redis.c\<close> sends, as an executable function on a database, and the locale
  \<open>redis_server\<close> of connections to a server with that behaviour. The locale's lemmas are the
  contracts of the client functions of \<^theory_text>\<open>Redis\<close>; the in-memory server at the end
  satisfies the locale. Times are milliseconds.
\<close>

section \<open>Databases\<close>

datatype rvalue = RString bytes | RHash "(bytes \<times> bytes) list" | RSet "bytes list"

text \<open>A value and, for a volatile key, the time at which it expires.\<close>

type_synonym rdb = "bytes \<Rightarrow> (rvalue \<times> nat option) option"

definition expired :: "nat \<Rightarrow> nat option \<Rightarrow> bool" where
  "expired t e = (case e of None \<Rightarrow> False | Some u \<Rightarrow> u \<le> t)"

definition entry :: "nat \<Rightarrow> rdb \<Rightarrow> bytes \<Rightarrow> (rvalue \<times> nat option) option" where
  "entry t db k = (case db k of None \<Rightarrow> None | Some (v, e) \<Rightarrow> if expired t e then None else Some (v, e))"

definition live :: "nat \<Rightarrow> rdb \<Rightarrow> bytes \<Rightarrow> rvalue option" where
  "live t db k = map_option fst (entry t db k)"

section \<open>Commands\<close>

fun unflatten :: "bytes list \<Rightarrow> (bytes \<times> bytes) list option" where
  "unflatten [] = Some []"
| "unflatten [_] = None"
| "unflatten (n # v # xs) = map_option ((#) (n, v)) (unflatten xs)"

fun flatten :: "(bytes \<times> bytes) list \<Rightarrow> redisReply list" where
  "flatten [] = []"
| "flatten ((n, v) # xs) = Reply_String n # Reply_String v # flatten xs"

definition hset_fields :: "(bytes \<times> bytes) list \<Rightarrow> (bytes \<times> bytes) list \<Rightarrow> (bytes \<times> bytes) list" where
  "hset_fields pairs h = fold (\<lambda>(n, v). AList.update n v) pairs h"

definition nat_arg :: "bytes \<Rightarrow> nat option" where
  "nat_arg s = (if s \<noteq> [] \<and> list_all is_digit s then Some (read_nat 0 s) else None)"

definition wrongtype :: redisReply where
  "wrongtype = Reply_Error ''WRONGTYPE Operation against a key holding the wrong kind of value''"

definition cmd_error :: redisReply where
  "cmd_error = Reply_Error ''ERR''"

text \<open>\<open>INCR\<close> works on a string that is the decimal of a 64-bit integer.\<close>

definition int_arg :: "bytes \<Rightarrow> int option" where
  "int_arg s =
     (case s of
        [] \<Rightarrow> None
      | c # r \<Rightarrow> if c = CHR ''-'' then map_option (\<lambda>n. - int n) (nat_arg r) else map_option int (nat_arg s))"

definition counter_of :: "rvalue option \<Rightarrow> int option" where
  "counter_of v =
     (case v of
        None \<Rightarrow> Some 0
      | Some (RString s) \<Rightarrow>
          (case int_arg s of
             Some n \<Rightarrow> if show_int n = s \<and> - (2 ^ 63) \<le> n \<and> n < 2 ^ 63 - 1 then Some n else None
           | None \<Rightarrow> None)
      | Some _ \<Rightarrow> None)"

definition redis_incr_expire :: "nat \<Rightarrow> bytes \<Rightarrow> nat \<Rightarrow> rdb \<Rightarrow> redisReply \<times> rdb" where
  "redis_incr_expire t key seconds db =
     (case counter_of (live t db key) of
        None \<Rightarrow> (cmd_error, db)
      | Some n \<Rightarrow>
          let c = n + 1; ttl = (case entry t db key of Some (_, e) \<Rightarrow> e | None \<Rightarrow> None) in
          (Reply_Integer c,
           db(key :=
                (if c = 1 \<or> ttl = None
                 then if seconds = 0 then None else Some (RString (show_int c), Some (t + 1000 * seconds))
                 else Some (RString (show_int c), ttl)))))"

text \<open>The commands the client sends, at time \<open>t\<close>.\<close>

definition redis_exec1 :: "nat \<Rightarrow> bytes \<Rightarrow> bytes \<Rightarrow> rdb \<Rightarrow> redisReply \<times> rdb" where
  "redis_exec1 t cmd key db =
     (if cmd = ''HGETALL'' then
        (case live t db key of
           None \<Rightarrow> (Reply_Array [], db)
         | Some (RHash h) \<Rightarrow> (Reply_Array (flatten h), db)
         | Some _ \<Rightarrow> (wrongtype, db))
      else if cmd = ''DEL'' then
        (Reply_Integer (if live t db key = None then 0 else 1), db(key := None))
      else if cmd = ''SMEMBERS'' then
        (case live t db key of
           None \<Rightarrow> (Reply_Array [], db)
         | Some (RSet xs) \<Rightarrow> (Reply_Array (map Reply_String xs), db)
         | Some _ \<Rightarrow> (wrongtype, db))
      else if cmd = ''GETDEL'' then
        (case live t db key of
           None \<Rightarrow> (Reply_Nil, db)
         | Some (RString v) \<Rightarrow> (Reply_String v, db(key := None))
         | Some _ \<Rightarrow> (wrongtype, db))
      else (cmd_error, db))"

definition redis_exec2 :: "nat \<Rightarrow> bytes \<Rightarrow> bytes \<Rightarrow> bytes \<Rightarrow> rdb \<Rightarrow> redisReply \<times> rdb" where
  "redis_exec2 t cmd key arg db =
     (if cmd = ''SADD'' then
        (case entry t db key of
           None \<Rightarrow> (Reply_Integer 1, db(key := Some (RSet [arg], None)))
         | Some (RSet xs, e) \<Rightarrow>
             if arg \<in> set xs then (Reply_Integer 0, db)
             else (Reply_Integer 1, db(key := Some (RSet (arg # xs), e)))
         | Some _ \<Rightarrow> (wrongtype, db))
      else if cmd = ''SREM'' then
        (case entry t db key of
           None \<Rightarrow> (Reply_Integer 0, db)
         | Some (RSet xs, e) \<Rightarrow>
             let ys = removeAll arg xs in
             (Reply_Integer (if arg \<in> set xs then 1 else 0),
              db(key := (if ys = [] then None else Some (RSet ys, e))))
         | Some _ \<Rightarrow> (wrongtype, db))
      else if cmd = ''EXPIRE'' then
        (case (nat_arg arg, entry t db key) of
           (None, _) \<Rightarrow> (cmd_error, db)
         | (Some n, None) \<Rightarrow> (Reply_Integer 0, db)
         | (Some n, Some (v, e)) \<Rightarrow>
             (Reply_Integer 1, db(key := (if n = 0 then None else Some (v, Some (t + 1000 * n))))))
      else (cmd_error, db))"

definition redis_exec :: "nat \<Rightarrow> bytes list \<Rightarrow> rdb \<Rightarrow> redisReply \<times> rdb" where
  "redis_exec t argv db =
     (case argv of
        [] \<Rightarrow> (cmd_error, db)
      | [_] \<Rightarrow> (cmd_error, db)
      | cmd # key # args \<Rightarrow>
          if cmd = ''HSET'' then
            (case unflatten args of
               None \<Rightarrow> (cmd_error, db)
             | Some pairs \<Rightarrow>
                 if pairs = [] then (cmd_error, db)
                 else
                   (case entry t db key of
                      None \<Rightarrow> (Reply_Integer 0, db(key := Some (RHash (hset_fields pairs []), None)))
                    | Some (RHash h, e) \<Rightarrow> (Reply_Integer 0, db(key := Some (RHash (hset_fields pairs h), e)))
                    | Some _ \<Rightarrow> (wrongtype, db)))
          else if cmd = ''SET'' then
            (case args of
               [v, ex, n] \<Rightarrow>
                 (case nat_arg n of
                    Some m \<Rightarrow>
                      if ex = ''EX'' \<and> 0 < m
                      then (Reply_Status ''OK'', db(key := Some (RString v, Some (t + 1000 * m))))
                      else (cmd_error, db)
                  | None \<Rightarrow> (cmd_error, db))
             | _ \<Rightarrow> (cmd_error, db))
          else if cmd = ''EVAL'' then
            (case args of
               [one, k, n] \<Rightarrow>
                 (case nat_arg n of
                    Some m \<Rightarrow>
                      if key = incr_script \<and> one = ''1'' then redis_incr_expire t k m db
                      else (cmd_error, db)
                  | None \<Rightarrow> (cmd_error, db))
             | _ \<Rightarrow> (cmd_error, db))
          else
            (case args of
               [] \<Rightarrow> redis_exec1 t cmd key db
             | [arg] \<Rightarrow> redis_exec2 t cmd key arg db
             | _ \<Rightarrow> (cmd_error, db)))"

text \<open>The order of the elements of \<open>HGETALL\<close> and \<open>SMEMBERS\<close> is unspecified.\<close>

definition same_reply :: "bytes list \<Rightarrow> redisReply \<Rightarrow> redisReply \<Rightarrow> bool" where
  "same_reply argv r r' \<longleftrightarrow>
     r = r'
     \<or> hd argv = ''HGETALL''
       \<and> (\<exists>xs ys. mset xs = mset ys \<and> r = Reply_Array (flatten xs) \<and> r' = Reply_Array (flatten ys))
     \<or> hd argv = ''SMEMBERS''
       \<and> (\<exists>xs ys. mset xs = mset ys \<and> r = Reply_Array (map Reply_String xs) \<and> r' = Reply_Array (map Reply_String ys))"

text \<open>A command sent between \<open>t0\<close> and \<open>t1\<close>: what the caller gets and what it did.\<close>

definition exec_outcome ::
    "bytes list \<Rightarrow> nat \<Rightarrow> nat \<Rightarrow> rdb \<Rightarrow> redisReply option \<Rightarrow> rdb \<Rightarrow> bool" where
  "exec_outcome argv t0 t1 db r db' \<longleftrightarrow>
     (case r of
        None \<Rightarrow> db' = db \<or> (\<exists>t rep. t0 \<le> t \<and> t \<le> t1 \<and> redis_exec t argv db = (rep, db'))
      | Some rep \<Rightarrow>
          is_error rep \<and> db' = db
          \<or> (\<exists>t rep'. t0 \<le> t \<and> t \<le> t1 \<and> redis_exec t argv db = (rep', db') \<and> same_reply argv rep' rep))"

lemma nat_arg_show_nat [simp]: "nat_arg (show_nat n) = Some n"
  by (simp add: nat_arg_def show_nat_digits read_show_nat)

lemma unflatten_hset_args [simp]: "unflatten (hset_args ps) = Some ps"
  by (induction ps rule: hset_args.induct) auto

lemma exec_GETDEL:
  "redis_exec t [''GETDEL'', k] db =
     (case live t db k of
        None \<Rightarrow> (Reply_Nil, db)
      | Some (RString v) \<Rightarrow> (Reply_String v, db(k := None))
      | Some _ \<Rightarrow> (wrongtype, db))"
  by (simp add: redis_exec_def redis_exec1_def)

lemma exec_HGETALL:
  "redis_exec t [''HGETALL'', k] db =
     (case live t db k of
        None \<Rightarrow> (Reply_Array [], db)
      | Some (RHash h) \<Rightarrow> (Reply_Array (flatten h), db)
      | Some _ \<Rightarrow> (wrongtype, db))"
  by (simp add: redis_exec_def redis_exec1_def)

lemma exec_DEL:
  "redis_exec t [''DEL'', k] db = (Reply_Integer (if live t db k = None then 0 else 1), db(k := None))"
  by (simp add: redis_exec_def redis_exec1_def)

lemma exec_SMEMBERS:
  "redis_exec t [''SMEMBERS'', k] db =
     (case live t db k of
        None \<Rightarrow> (Reply_Array [], db)
      | Some (RSet xs) \<Rightarrow> (Reply_Array (map Reply_String xs), db)
      | Some _ \<Rightarrow> (wrongtype, db))"
  by (simp add: redis_exec_def redis_exec1_def)

lemma exec_SET:
  "0 < n \<Longrightarrow> redis_exec t [''SET'', k, v, ''EX'', show_nat n] db
     = (Reply_Status ''OK'', db(k := Some (RString v, Some (t + 1000 * n))))"
  by (simp add: redis_exec_def)

lemma exec_EVAL:
  "redis_exec t [''EVAL'', incr_script, ''1'', k, show_nat n] db = redis_incr_expire t k n db"
  by (simp add: redis_exec_def)

lemma exec_HSET:
  "ps \<noteq> [] \<Longrightarrow> redis_exec t (''HSET'' # k # hset_args ps) db =
     (case entry t db k of
        None \<Rightarrow> (Reply_Integer 0, db(k := Some (RHash (hset_fields ps []), None)))
      | Some (RHash h, e) \<Rightarrow> (Reply_Integer 0, db(k := Some (RHash (hset_fields ps h), e)))
      | Some _ \<Rightarrow> (wrongtype, db))"
  by (simp add: redis_exec_def)

lemma exec_SADD: "redis_exec t [''SADD'', k, x] db = redis_exec2 t ''SADD'' k x db"
  by (simp add: redis_exec_def)

lemma exec_SREM: "redis_exec t [''SREM'', k, x] db = redis_exec2 t ''SREM'' k x db"
  by (simp add: redis_exec_def)

lemmas exec_simps = exec_GETDEL exec_HGETALL exec_DEL exec_SMEMBERS exec_SET exec_EVAL exec_HSET exec_SADD exec_SREM

text \<open>A command works on one key only, and an error reply means it did nothing.\<close>

definition cmd_key :: "bytes list \<Rightarrow> bytes" where
  "cmd_key argv = (if hd argv = ''EVAL'' then argv ! 3 else argv ! 1)"

lemma exec1_frame: "redis_exec1 t cmd key db = (r, db') \<Longrightarrow> k \<noteq> key \<Longrightarrow> db' k = db k"
  by (auto simp: redis_exec1_def split: if_splits option.splits rvalue.splits)

lemma exec2_frame: "redis_exec2 t cmd key arg db = (r, db') \<Longrightarrow> k \<noteq> key \<Longrightarrow> db' k = db k"
  by (auto simp: redis_exec2_def Let_def split: if_splits option.splits rvalue.splits prod.splits)

lemma incr_frame: "redis_incr_expire t key n db = (r, db') \<Longrightarrow> k \<noteq> key \<Longrightarrow> db' k = db k"
  by (auto simp: redis_incr_expire_def Let_def split: if_splits option.splits)

lemma exec_frame:
  assumes "redis_exec t argv db = (r, db')" and "k \<noteq> cmd_key argv"
  shows "db' k = db k"
proof (cases argv)
  case Nil
  with assms show ?thesis by (simp add: redis_exec_def)
next
  case (Cons cmd rest)
  show ?thesis
  proof (cases rest)
    case Nil
    with Cons assms show ?thesis by (simp add: redis_exec_def)
  next
    case (Cons key args)
    with \<open>argv = cmd # rest\<close> assms exec1_frame [of t cmd key db r db' k] exec2_frame [of t cmd key _ db r db' k]
      incr_frame [of t _ _ db r db' k]
    show ?thesis
      by (auto simp: redis_exec_def cmd_key_def split: if_splits option.splits list.splits rvalue.splits prod.splits)
  qed
qed

lemma outcome_ok:
  "exec_outcome argv t0 t1 db (Some rep) db' \<Longrightarrow> \<not> is_error rep \<Longrightarrow>
     \<exists>t rep'. t0 \<le> t \<and> t \<le> t1 \<and> redis_exec t argv db = (rep', db') \<and> same_reply argv rep' rep"
  by (auto simp: exec_outcome_def)

lemma outcome_any:
  "exec_outcome argv t0 t1 db r db' \<Longrightarrow>
     db' = db \<or> (\<exists>t rep. t0 \<le> t \<and> t \<le> t1 \<and> redis_exec t argv db = (rep, db'))"
  by (auto simp: exec_outcome_def split: option.splits)

lemma same_reply_other [simp]:
  "cmd \<noteq> ''HGETALL'' \<Longrightarrow> cmd \<noteq> ''SMEMBERS'' \<Longrightarrow> same_reply (cmd # args) r r' \<longleftrightarrow> r = r'"
  by (simp add: same_reply_def)

lemma redis_dup_Some: "ngx_auth_webauthn_redis_dup pool site x = Some y \<Longrightarrow> y = x"
  by (auto simp: ngx_auth_webauthn_redis_dup_def split: if_splits)

lemma hgetall_loop_flatten: "hgetall_loop pool (flatten xs) = Some ys \<Longrightarrow> ys = xs"
  by (induction xs arbitrary: ys rule: flatten.induct) (auto split: option.splits dest!: redis_dup_Some)

lemma hgetall_loop_total: "(\<And>site n. pool site n) \<Longrightarrow> hgetall_loop pool (flatten xs) = Some xs"
  by (induction xs rule: flatten.induct) (auto simp: ngx_auth_webauthn_redis_dup_def)

lemma smembers_loop_strings: "smembers_loop pool (map Reply_String xs) = Some ys \<Longrightarrow> ys = xs"
  by (induction xs arbitrary: ys) (auto split: option.splits dest!: redis_dup_Some)

lemma flatten_Nil [simp]: "flatten xs = [] \<longleftrightarrow> xs = []" "[] = flatten xs \<longleftrightarrow> xs = []"
  by (cases xs rule: flatten.cases; simp)+

lemma hgetall_loop_inverts: "hgetall_loop (\<lambda>_ _. True) (flatten xs) = Some xs"
  by (rule hgetall_loop_total) simp

lemma flatten_inject: "flatten xs = flatten ys \<Longrightarrow> xs = ys"
  by (metis hgetall_loop_inverts option.inject)

lemma length_flatten [simp]: "length (flatten xs) = 2 * length xs"
  by (induction xs rule: flatten.induct) auto

lemma map_of_hset_fields: "map_of (hset_fields ps h) = map_of h ++ map_of (rev ps)"
proof (induction ps arbitrary: h)
  case Nil
  show ?case by (simp add: hset_fields_def)
next
  case (Cons p ps)
  obtain n v where p: "p = (n, v)" by force
  have "hset_fields (p # ps) h = hset_fields ps (AList.update n v h)"
    by (simp add: hset_fields_def p)
  then show ?case
    by (simp add: Cons.IH p update_conv' fun_eq_iff map_add_def split: option.splits)
qed

lemma distinct_hset_fields: "distinct (map fst h) \<Longrightarrow> distinct (map fst (hset_fields ps h))"
  unfolding hset_fields_def
  by (induction ps arbitrary: h) (auto simp: distinct_update)

lemma GETDEL_found:
  "redis_exec t [''GETDEL'', k] db = (Reply_String v, db') \<Longrightarrow> live t db k = Some (RString v) \<and> db' = db(k := None)"
  by (auto simp: exec_GETDEL wrongtype_def split: option.splits rvalue.splits)

lemma GETDEL_missing:
  "redis_exec t [''GETDEL'', k] db = (rep, db') \<Longrightarrow> \<not> is_error rep \<Longrightarrow> (\<And>v. rep \<noteq> Reply_String v)
   \<Longrightarrow> live t db k = None \<and> db' = db"
  by (auto simp: exec_GETDEL wrongtype_def is_error_def split: option.splits rvalue.splits)

lemma GETDEL_any: "redis_exec t [''GETDEL'', k] db = (rep, db') \<Longrightarrow> db' = db \<or> db' = db(k := None)"
  by (auto simp: exec_GETDEL split: option.splits rvalue.splits)

lemma exec1_error: "redis_exec1 t cmd key db = (r, db') \<Longrightarrow> is_error r \<Longrightarrow> db' = db"
  by (auto simp: redis_exec1_def is_error_def split: if_splits option.splits rvalue.splits)

lemma exec2_error: "redis_exec2 t cmd key arg db = (r, db') \<Longrightarrow> is_error r \<Longrightarrow> db' = db"
  by (auto simp: redis_exec2_def is_error_def Let_def split: if_splits option.splits rvalue.splits prod.splits)

lemma incr_error: "redis_incr_expire t key n db = (r, db') \<Longrightarrow> is_error r \<Longrightarrow> db' = db"
  by (auto simp: redis_incr_expire_def is_error_def Let_def split: if_splits option.splits)

lemma exec_error:
  assumes "redis_exec t argv db = (r, db')" and "is_error r"
  shows "db' = db"
proof (cases argv)
  case Nil
  with assms show ?thesis by (simp add: redis_exec_def)
next
  case (Cons cmd rest)
  show ?thesis
  proof (cases rest)
    case Nil
    with Cons assms show ?thesis by (simp add: redis_exec_def)
  next
    case (Cons key args)
    with \<open>argv = cmd # rest\<close> assms exec1_error [of t cmd key db r db'] exec2_error [of t cmd key _ db r db']
      incr_error [of t _ _ db r db']
    show ?thesis
      by (auto simp: redis_exec_def is_error_def split: if_splits option.splits list.splits rvalue.splits prod.splits)
  qed
qed

lemma HGETALL_reply:
  assumes "redis_exec t [''HGETALL'', k] db = (rep', db')" and "same_reply [''HGETALL'', k] rep' rep"
    and "\<not> is_error rep"
  shows "db' = db \<and> (\<exists>xs. rep = Reply_Array (flatten xs)
     \<and> (live t db k = None \<and> xs = [] \<or> (\<exists>h. live t db k = Some (RHash h) \<and> mset xs = mset h)))"
proof -
  have "\<exists>h. rep' = Reply_Array (flatten h) \<and> db' = db \<and> (live t db k = None \<and> h = [] \<or> live t db k = Some (RHash h))"
    if "\<not> is_error rep'"
    using assms(1) that
    by (auto simp: exec_HGETALL wrongtype_def is_error_def split: option.splits rvalue.splits)
  moreover have "\<not> is_error rep'" using assms(2,3) by (auto simp: same_reply_def is_error_def)
  ultimately obtain h where h: "rep' = Reply_Array (flatten h)" "db' = db"
    "live t db k = None \<and> h = [] \<or> live t db k = Some (RHash h)" by blast
  obtain ys where "rep = Reply_Array (flatten ys)" "mset ys = mset h"
  proof (cases "rep' = rep")
    case True
    then show thesis using h that by auto
  next
    case False
    then obtain xs ys where "mset xs = mset ys" "rep' = Reply_Array (flatten xs)" "rep = Reply_Array (flatten ys)"
      using assms(2) by (auto simp: same_reply_def)
    moreover from this h(1) have "xs = h" by (auto simp: flatten_inject)
    ultimately show thesis using that by auto
  qed
  with h show ?thesis by auto
qed

section \<open>The server interface\<close>

text \<open>
  \<open>dbs s n\<close> is the server's database \<open>n\<close>, \<open>sel s c\<close> the database connection \<open>c\<close> has selected and
  \<open>clock s\<close> the server's time.
\<close>

locale redis_server =
  fixes hi :: "('c, 's) hiredis"
    and dbs :: "'s \<Rightarrow> nat \<Rightarrow> rdb"
    and sel :: "'s \<Rightarrow> 'c \<Rightarrow> nat"
    and clock :: "'s \<Rightarrow> nat"
  assumes command: "redisCommandArgv hi c (cmd # args) s = (r, s') \<Longrightarrow> cmd \<noteq> ''AUTH'' \<Longrightarrow> cmd \<noteq> ''SELECT'' \<Longrightarrow>
      clock s \<le> clock s' \<and> sel s' = sel s \<and> (\<forall>n. n \<noteq> sel s c \<longrightarrow> dbs s' n = dbs s n)
      \<and> exec_outcome (cmd # args) (clock s) (clock s') (dbs s (sel s c)) r (dbs s' (sel s c))"
    and auth: "redisCommandArgv hi c [''AUTH'', pw] s = (r, s') \<Longrightarrow>
      clock s \<le> clock s' \<and> sel s' = sel s \<and> dbs s' = dbs s"
    and select: "redisCommandArgv hi c [''SELECT'', num] s = (r, s') \<Longrightarrow>
      clock s \<le> clock s' \<and> dbs s' = dbs s
      \<and> (\<not> failed r \<longrightarrow> (\<exists>m. nat_arg num = Some m \<and> sel s' = (sel s)(c := m)))"
    and connect: "redisConnect hi h p s = (cr, s') \<Longrightarrow>
      clock s \<le> clock s' \<and> dbs s' = dbs s \<and> (\<forall>c. cr = Some (c, False) \<longrightarrow> sel s' = (sel s)(c := 0))"
    and open_timeout: "redisConnectWithTimeout hi h p tv s = (cr, s') \<Longrightarrow>
      clock s \<le> clock s' \<and> dbs s' = dbs s \<and> (\<forall>c. cr = Some (c, False) \<longrightarrow> sel s' = (sel s)(c := 0))"
    and set_timeout: "clock s \<le> clock (redisSetTimeout hi c tv s) \<and> sel (redisSetTimeout hi c tv s) = sel s
      \<and> dbs (redisSetTimeout hi c tv s) = dbs s"
    and free: "clock s \<le> clock (redisFree hi c s) \<and> dbs (redisFree hi c s) = dbs s"
begin

text \<open>What a command sent over \<open>c\<close> may do to the world, with \<open>P\<close> relating the database it works on,
  the time of execution and the database afterwards.\<close>

definition keeps :: "'c \<Rightarrow> 's \<Rightarrow> 's \<Rightarrow> bool" where
  "keeps c s s' \<longleftrightarrow> clock s \<le> clock s' \<and> sel s' = sel s \<and> (\<forall>n. n \<noteq> sel s c \<longrightarrow> dbs s' n = dbs s n)"

lemma keeps_refl [simp]: "keeps c s s"
  by (simp add: keeps_def)

lemma keeps_trans: "keeps c s s' \<Longrightarrow> keeps c s' s'' \<Longrightarrow> keeps c s s''"
  by (auto simp: keeps_def)

lemma exec_keeps:
  assumes "ngx_auth_webauthn_redis_exec hi rd (cmd # args) s = (r, s')" and "rd_ctx rd = Some c"
    and "cmd \<noteq> ''AUTH''" and "cmd \<noteq> ''SELECT''"
  shows "keeps c s s'"
    and "exec_outcome (cmd # args) (clock s) (clock s') (dbs s (sel s c)) r (dbs s' (sel s c))"
  using command [of c cmd args s r s'] assms by (auto simp: ngx_auth_webauthn_redis_exec_def keeps_def)

lemma exec_ok:
  assumes "ngx_auth_webauthn_redis_exec hi rd (cmd # args) s = (r, s')" and "rd_ctx rd = Some c"
    and "cmd \<noteq> ''AUTH''" and "cmd \<noteq> ''SELECT''" and "\<not> failed r"
  shows "\<exists>t rep. clock s \<le> t \<and> t \<le> clock s' \<and> redis_exec t (cmd # args) (dbs s (sel s c)) = (rep, dbs s' (sel s c))
           \<and> same_reply (cmd # args) rep (the r)"
  using outcome_ok [of "cmd # args" "clock s" "clock s'" "dbs s (sel s c)" "the r" "dbs s' (sel s c)"]
    exec_keeps [OF assms(1-4)] assms(5)
  by (auto simp: failed_def split: option.splits)

lemma exec_any:
  assumes "ngx_auth_webauthn_redis_exec hi rd (cmd # args) s = (r, s')" and "rd_ctx rd = Some c"
    and "cmd \<noteq> ''AUTH''" and "cmd \<noteq> ''SELECT''"
  shows "dbs s' (sel s c) = dbs s (sel s c)
     \<or> (\<exists>t rep. clock s \<le> t \<and> t \<le> clock s' \<and> redis_exec t (cmd # args) (dbs s (sel s c)) = (rep, dbs s' (sel s c)))"
  using outcome_any exec_keeps(2) [OF assms] by blast

text \<open>The command was executed, once and atomically, while the call lasted.\<close>

definition ran :: "bytes list \<Rightarrow> 'c \<Rightarrow> 's \<Rightarrow> 's \<Rightarrow> bool" where
  "ran argv c s s' \<longleftrightarrow>
     (\<exists>t rep. clock s \<le> t \<and> t \<le> clock s' \<and> \<not> is_error rep
        \<and> redis_exec t argv (dbs s (sel s c)) = (rep, dbs s' (sel s c)))"

text \<open>The contract of a write: on \<open>NGX_OK\<close> the command was executed, on \<open>NGX_ERROR\<close> it was executed or
  nothing happened.\<close>

definition wrote :: "bytes list \<Rightarrow> ngx_int_t \<Rightarrow> 'c \<Rightarrow> 's \<Rightarrow> 's \<Rightarrow> bool" where
  "wrote argv rc c s s' \<longleftrightarrow>
     keeps c s s' \<and> rc \<noteq> NGX_DECLINED \<and> (rc = NGX_OK \<longrightarrow> ran argv c s s')
     \<and> (dbs s' (sel s c) = dbs s (sel s c) \<or> ran argv c s s')"

lemma exec_wrote:
  assumes "ngx_auth_webauthn_redis_exec hi rd (cmd # args) s = (r, s')" and "rd_ctx rd = Some c"
    and "cmd \<notin> {''AUTH'', ''SELECT'', ''HGETALL'', ''SMEMBERS''}"
  shows "wrote (cmd # args) (if failed r then NGX_ERROR else NGX_OK) c s s'"
proof -
  have e: "exec_outcome (cmd # args) (clock s) (clock s') (dbs s (sel s c)) r (dbs s' (sel s c))" and k: "keeps c s s'"
    using exec_keeps [OF assms(1,2)] assms(3) by auto
  have "ran (cmd # args) c s s'" if "\<not> failed r"
    using exec_ok [OF assms(1,2)] assms(3) that by (auto simp: ran_def failed_def split: option.splits)
  moreover have "dbs s' (sel s c) = dbs s (sel s c) \<or> ran (cmd # args) c s s'"
    using outcome_any [OF e] exec_error unfolding ran_def by blast
  ultimately show ?thesis using k by (auto simp: wrote_def)
qed

lemma exec_wrote_OK:
  assumes "ngx_auth_webauthn_redis_exec hi rd (cmd # args) s = (r, s')" and "\<not> failed r" and "rd_ctx rd = Some c"
    and "cmd \<notin> {''AUTH'', ''SELECT'', ''HGETALL'', ''SMEMBERS''}"
  shows "wrote (cmd # args) NGX_OK c s s'"
  using exec_wrote [OF assms(1,3,4)] assms(2) by simp

lemma exec_wrote_ERROR:
  assumes "ngx_auth_webauthn_redis_exec hi rd (cmd # args) s = (r, s')" and "failed r" and "rd_ctx rd = Some c"
    and "cmd \<notin> {''AUTH'', ''SELECT'', ''HGETALL'', ''SMEMBERS''}"
  shows "wrote (cmd # args) NGX_ERROR c s s'"
  using exec_wrote [OF assms(1,3,4)] assms(2) by simp

lemmas exec_wrote_intros = exec_wrote_OK exec_wrote_ERROR

lemma set_ex_wrote:
  assumes "ngx_auth_webauthn_redis_set_ex hi (Some rd) (Some k) (Some v) n s = (rc, s')"
    and "rd_ctx rd = Some c" and "n < 10 ^ 31"
  shows "wrote [''SET'', k, v, ''EX'', show_nat n] rc c s s'"
  using assms length_show_nat [of n 31]
  by (auto simp: ngx_auth_webauthn_redis_set_ex_def no_conn_def NGX_AUTH_WEBAUTHN_REDIS_NUMBUF_def Let_def
      intro: exec_wrote_intros split: prod.splits)

lemma hset_wrote:
  assumes "ngx_auth_webauthn_redis_hset hi (Some rd) (Some k) (Some ps) (length ps) s = (rc, s')"
    and "rd_ctx rd = Some c" and "ps \<noteq> []"
  shows "wrote (''HSET'' # k # hset_args ps) rc c s s'
     \<or> rc = NGX_ERROR \<and> s' = s \<and> (\<exists>site n. \<not> rd_pool rd site n)"
  using assms
  by (auto simp: ngx_auth_webauthn_redis_hset_def no_conn_def Let_def intro: exec_wrote_intros split: prod.splits if_splits)

lemma del_wrote:
  assumes "ngx_auth_webauthn_redis_del hi (Some rd) (Some k) s = (rc, s')" and "rd_ctx rd = Some c"
  shows "wrote [''DEL'', k] rc c s s'"
  using assms
  by (auto simp: ngx_auth_webauthn_redis_del_def no_conn_def Let_def intro: exec_wrote_intros split: prod.splits)

lemma sadd_wrote:
  assumes "ngx_auth_webauthn_redis_sadd hi (Some rd) (Some k) (Some m) s = (rc, s')" and "rd_ctx rd = Some c"
  shows "wrote [''SADD'', k, m] rc c s s'"
  using assms
  by (auto simp: ngx_auth_webauthn_redis_sadd_def ngx_auth_webauthn_redis_set_op_def no_conn_def Let_def
      intro: exec_wrote_intros split: prod.splits)

lemma srem_wrote:
  assumes "ngx_auth_webauthn_redis_srem hi (Some rd) (Some k) (Some m) s = (rc, s')" and "rd_ctx rd = Some c"
  shows "wrote [''SREM'', k, m] rc c s s'"
  using assms
  by (auto simp: ngx_auth_webauthn_redis_srem_def ngx_auth_webauthn_redis_set_op_def no_conn_def Let_def
      intro: exec_wrote_intros split: prod.splits)

lemma hgetall_contract:
  assumes "ngx_auth_webauthn_redis_hgetall hi (Some rd) (Some pool) (Some k) (Some o') s = (rc, out, s')"
    and "rd_ctx rd = Some c"
  shows "keeps c s s'" and "rc \<noteq> NGX_DECLINED" and "dbs s' = dbs s"
    and "rc = NGX_OK \<Longrightarrow> \<exists>t xs. clock s \<le> t \<and> t \<le> clock s' \<and> out = Some xs
      \<and> (live t (dbs s (sel s c)) k = None \<and> xs = []
         \<or> (\<exists>h. live t (dbs s (sel s c)) k = Some (RHash h) \<and> mset xs = mset h))"
proof -
  obtain r s1 where e: "ngx_auth_webauthn_redis_exec hi rd [''HGETALL'', k] s = (r, s1)" by fastforce
  have s1: "s1 = s'"
    using assms e by (auto simp: ngx_auth_webauthn_redis_hgetall_def no_conn_def Let_def
        split: if_splits redisReply.splits option.splits)
  then show k: "keeps c s s'" using exec_keeps(1) [OF e assms(2)] by simp
  show "rc \<noteq> NGX_DECLINED"
    using assms e by (auto simp: ngx_auth_webauthn_redis_hgetall_def no_conn_def Let_def
        split: if_splits redisReply.splits option.splits)
  have "db' = db" if "redis_exec t [''HGETALL'', k] db = (rep, db')" for t db db' rep
    using that by (auto simp: exec_HGETALL split: option.splits rvalue.splits)
  then have "dbs s' (sel s c) = dbs s (sel s c)" using exec_any [OF e assms(2)] s1 by fastforce
  with k show "dbs s' = dbs s" unfolding keeps_def by (intro ext) metis
  show "\<exists>t xs. clock s \<le> t \<and> t \<le> clock s' \<and> out = Some xs
      \<and> (live t (dbs s (sel s c)) k = None \<and> xs = []
         \<or> (\<exists>h. live t (dbs s (sel s c)) k = Some (RHash h) \<and> mset xs = mset h))" if ok: "rc = NGX_OK"
  proof -
    have nf: "\<not> failed r"
      using assms e ok by (auto simp: ngx_auth_webauthn_redis_hgetall_def no_conn_def Let_def split: if_splits)
    then obtain rep where r: "r = Some rep" "\<not> is_error rep" by (auto simp: failed_def split: option.splits)
    from exec_ok [OF e assms(2)] nf r obtain t rep' where t: "clock s \<le> t" "t \<le> clock s1"
      "redis_exec t [''HGETALL'', k] (dbs s (sel s c)) = (rep', dbs s1 (sel s c))"
      "same_reply [''HGETALL'', k] rep' rep" by auto
    from HGETALL_reply [OF t(3,4) r(2)] obtain xs where xs: "rep = Reply_Array (flatten xs)"
      "live t (dbs s (sel s c)) k = None \<and> xs = []
         \<or> (\<exists>h. live t (dbs s (sel s c)) k = Some (RHash h) \<and> mset xs = mset h)" by blast
    have "out = Some xs"
      using assms e nf r xs(1) ok hgetall_loop_flatten [of pool xs]
      by (auto simp: ngx_auth_webauthn_redis_hgetall_def no_conn_def split: if_splits option.splits)
    with t s1 xs(2) show ?thesis by blast
  qed
qed

lemma getdel_contract:
  assumes "ngx_auth_webauthn_redis_getdel hi (Some rd) (Some k) (Some f0) s = (rc, found, s')"
    and "rd_ctx rd = Some c"
  shows "keeps c s s'" and "rc \<noteq> NGX_DECLINED" and "found = Some 1 \<or> found = Some 0"
    and "rc = NGX_OK \<Longrightarrow> found = Some 1 \<Longrightarrow> \<exists>t v. clock s \<le> t \<and> t \<le> clock s'
           \<and> live t (dbs s (sel s c)) k = Some (RString v) \<and> dbs s' (sel s c) = (dbs s (sel s c))(k := None)"
    and "rc = NGX_OK \<Longrightarrow> found = Some 0 \<Longrightarrow> \<exists>t. clock s \<le> t \<and> t \<le> clock s'
           \<and> live t (dbs s (sel s c)) k = None \<and> dbs s' (sel s c) = dbs s (sel s c)"
    and "dbs s' (sel s c) = dbs s (sel s c) \<or> dbs s' (sel s c) = (dbs s (sel s c))(k := None)"
proof -
  obtain r where e: "ngx_auth_webauthn_redis_exec hi rd [''GETDEL'', k] s = (r, s')"
    and rc: "rc = (if failed r then NGX_ERROR else NGX_OK)"
    and found: "found = Some (if failed r then 0 else case the r of Reply_String _ \<Rightarrow> 1 | _ \<Rightarrow> 0)"
    using assms by (auto simp: ngx_auth_webauthn_redis_getdel_def no_conn_def Let_def split: prod.splits if_splits)
  show "keeps c s s'" using exec_keeps(1) [OF e assms(2)] by simp
  show "rc \<noteq> NGX_DECLINED" using rc by simp
  show "found = Some 1 \<or> found = Some 0" using found by (auto split: redisReply.splits)
  have ok: "\<exists>t rep. clock s \<le> t \<and> t \<le> clock s' \<and> \<not> is_error rep
      \<and> redis_exec t [''GETDEL'', k] (dbs s (sel s c)) = (rep, dbs s' (sel s c))
      \<and> found = Some (case rep of Reply_String _ \<Rightarrow> 1 | _ \<Rightarrow> 0)" if "rc = NGX_OK"
  proof -
    have "\<not> failed r" using that rc by (auto split: if_splits)
    moreover from this have "\<not> is_error (the r)" by (auto simp: failed_def split: option.splits)
    ultimately show ?thesis using exec_ok [OF e assms(2)] found by auto
  qed
  show "\<exists>t v. clock s \<le> t \<and> t \<le> clock s' \<and> live t (dbs s (sel s c)) k = Some (RString v)
      \<and> dbs s' (sel s c) = (dbs s (sel s c))(k := None)" if f: "rc = NGX_OK" "found = Some 1"
  proof -
    from ok [OF f(1)] obtain t rep where t: "clock s \<le> t" "t \<le> clock s'"
      and x: "redis_exec t [''GETDEL'', k] (dbs s (sel s c)) = (rep, dbs s' (sel s c))"
      and fd: "found = Some (case rep of Reply_String _ \<Rightarrow> 1 | _ \<Rightarrow> 0)" by blast
    from fd f(2) obtain v where "rep = Reply_String v" by (cases rep) simp_all
    with t GETDEL_found [of t k "dbs s (sel s c)" v "dbs s' (sel s c)"] x show ?thesis by blast
  qed
  show "\<exists>t. clock s \<le> t \<and> t \<le> clock s' \<and> live t (dbs s (sel s c)) k = None
      \<and> dbs s' (sel s c) = dbs s (sel s c)" if f: "rc = NGX_OK" "found = Some 0"
  proof -
    from ok [OF f(1)] obtain t rep where t: "clock s \<le> t" "t \<le> clock s'" "\<not> is_error rep"
      and x: "redis_exec t [''GETDEL'', k] (dbs s (sel s c)) = (rep, dbs s' (sel s c))"
      and fd: "found = Some (case rep of Reply_String _ \<Rightarrow> 1 | _ \<Rightarrow> 0)" by blast
    from fd f(2) have "rep \<noteq> Reply_String v" for v by auto
    with t GETDEL_missing [OF x] show ?thesis by blast
  qed
  show "dbs s' (sel s c) = dbs s (sel s c) \<or> dbs s' (sel s c) = (dbs s (sel s c))(k := None)"
    using exec_any [OF e assms(2)] GETDEL_any by fastforce
qed

lemma incr_expire_contract:
  assumes "ngx_auth_webauthn_redis_incr_expire hi (Some rd) (Some k) n (Some v0) s = (rc, v, s')"
    and "rd_ctx rd = Some c" and "n < 10 ^ 31"
  shows "keeps c s s'" and "rc \<noteq> NGX_DECLINED"
    and "rc = NGX_OK \<Longrightarrow> \<exists>t i. clock s \<le> t \<and> t \<le> clock s' \<and> v = Some i
      \<and> redis_incr_expire t k n (dbs s (sel s c)) = (Reply_Integer i, dbs s' (sel s c))"
    and "dbs s' (sel s c) = dbs s (sel s c) \<or> (\<exists>t rep. clock s \<le> t \<and> t \<le> clock s'
      \<and> redis_incr_expire t k n (dbs s (sel s c)) = (rep, dbs s' (sel s c)))"
proof -
  obtain r where e: "ngx_auth_webauthn_redis_exec hi rd [''EVAL'', incr_script, ''1'', k, show_nat n] s = (r, s')"
    and rc: "(rc, v) = (case r of Some (Reply_Integer i) \<Rightarrow> (NGX_OK, Some i) | _ \<Rightarrow> (NGX_ERROR, Some 0))"
    using assms length_show_nat [of n 31]
    by (auto simp: ngx_auth_webauthn_redis_incr_expire_def no_conn_def NGX_AUTH_WEBAUTHN_REDIS_NUMBUF_def Let_def
        split: prod.splits option.splits redisReply.splits)
  show "keeps c s s'" using exec_keeps(1) [OF e assms(2)] by simp
  show "rc \<noteq> NGX_DECLINED" using rc by (auto split: option.splits redisReply.splits)
  show "\<exists>t i. clock s \<le> t \<and> t \<le> clock s' \<and> v = Some i
      \<and> redis_incr_expire t k n (dbs s (sel s c)) = (Reply_Integer i, dbs s' (sel s c))" if "rc = NGX_OK"
  proof -
    from that rc obtain i where "r = Some (Reply_Integer i)" "v = Some i" by (auto split: option.splits redisReply.splits)
    then show ?thesis using exec_ok [OF e assms(2)] by (auto simp: failed_def is_error_def exec_EVAL)
  qed
  show "dbs s' (sel s c) = dbs s (sel s c) \<or> (\<exists>t rep. clock s \<le> t \<and> t \<le> clock s'
      \<and> redis_incr_expire t k n (dbs s (sel s c)) = (rep, dbs s' (sel s c)))"
    using exec_any [OF e assms(2)] by (auto simp: exec_EVAL)
qed

lemma close_keeps: "dbs (snd (ngx_auth_webauthn_redis_close hi rd s)) = dbs s"
    "clock s \<le> clock (snd (ngx_auth_webauthn_redis_close hi rd s))"
  using free by (auto simp: ngx_auth_webauthn_redis_close_def split: option.splits)

lemma connect_auth_contract:
  assumes "connect_auth hi conf rd s = (rc, s')" and "rd_ctx rd = Some c"
  shows "dbs s' = dbs s \<and> clock s \<le> clock s' \<and> (rc = NGX_OK \<longrightarrow> sel s' = sel s) \<and> rc \<noteq> NGX_DECLINED"
proof (cases "length (rc_password conf) > 0")
  case True
  obtain r s1 where e: "redisCommandArgv hi c [''AUTH'', rc_password conf] s = (r, s1)" by fastforce
  from auth [OF e] close_keeps [where rd = "Some rd" and s = s1] assms True e show ?thesis
    by (auto simp: connect_auth_def ngx_auth_webauthn_redis_exec_def split: if_splits)
qed (use assms in \<open>auto simp: connect_auth_def\<close>)

lemma connect_select_contract:
  assumes "connect_select hi conf rd s = (rc, s')" and "rd_ctx rd = Some c"
  shows "dbs s' = dbs s \<and> clock s \<le> clock s' \<and> rc \<noteq> NGX_DECLINED
     \<and> (rc = NGX_OK \<longrightarrow> sel s' = (if rc_db conf > 0 then (sel s)(c := rc_db conf) else sel s))"
proof (cases "rc_db conf > 0 \<and> length (show_nat (rc_db conf)) < NGX_AUTH_WEBAUTHN_REDIS_NUMBUF")
  case True
  obtain r s1 where e: "redisCommandArgv hi c [''SELECT'', show_nat (rc_db conf)] s = (r, s1)" by fastforce
  from select [OF e] close_keeps [where rd = "Some rd" and s = s1] assms True e show ?thesis
    by (auto simp: connect_select_def ngx_auth_webauthn_redis_exec_def Let_def split: if_splits)
qed (use assms close_keeps [where rd = "Some rd" and s = s] in \<open>auto simp: connect_select_def Let_def split: if_splits\<close>)

lemma connect_contract:
  assumes "ngx_auth_webauthn_redis_connect hi (Some pool) (Some conf) (Some o') s = (rc, out, s')"
  shows "dbs s' = dbs s \<and> clock s \<le> clock s' \<and> rc \<noteq> NGX_DECLINED
     \<and> (rc = NGX_OK \<longrightarrow> (\<exists>rd c. out = Some (Some rd) \<and> rd_ctx rd = Some c \<and> rd_pool rd = pool
           \<and> sel s' c = rc_db conf))"
proof -
  obtain ctx s1 where e: "connect_open hi conf s = (ctx, s1)" by fastforce
  then have 1: "clock s \<le> clock s1" "dbs s1 = dbs s" "\<And>c. ctx = Some (c, False) \<Longrightarrow> sel s1 c = 0"
    using connect [of "rc_host conf" "rc_port conf" s ctx s1]
      open_timeout [of "rc_host conf" "rc_port conf" _ s ctx s1] by (auto simp: connect_open_def split: if_splits)
  show ?thesis
  proof (cases "rc_host conf = [] \<or> \<not> pool ''redis'' 24 \<or> \<not> pool ''host'' (length (rc_host conf) + 1)
      \<or> \<not> (\<exists>c. ctx = Some (c, False))")
    case True
    then show ?thesis using assms e 1 free
      by (auto simp: ngx_auth_webauthn_redis_connect_def Let_def split: if_splits option.splits)
        (meson order_trans)+
  next
    case False
    then obtain c where c: "ctx = Some (c, False)" by blast
    define rd where "rd = \<lparr> rd_ctx = Some c, rd_pool = pool \<rparr>"
    define s2 where "s2 = connect_timeout hi conf c s1"
    have 2: "clock s1 \<le> clock s2" "dbs s2 = dbs s1" "sel s2 = sel s1"
      using set_timeout by (auto simp: s2_def connect_timeout_def)
    obtain rc1 s3 where a: "connect_auth hi conf rd s2 = (rc1, s3)" by fastforce
    obtain rc2 s4 where b: "connect_select hi conf rd s3 = (rc2, s4)" by fastforce
    have "(rc, out, s') = (if rc1 \<noteq> NGX_OK then (NGX_ERROR, Some o', s3)
        else if rc2 \<noteq> NGX_OK then (NGX_ERROR, Some o', s4) else (NGX_OK, Some (Some rd), s4))"
      using assms e c False a b
      by (cases "rc1 = NGX_OK"; cases "rc2 = NGX_OK")
        (simp_all add: ngx_auth_webauthn_redis_connect_def Let_def rd_def [symmetric] s2_def [symmetric])
    with 1 2 c connect_auth_contract [OF a, of c] connect_select_contract [OF b, of c] show ?thesis
      by (auto simp: rd_def split: if_splits)
  qed
qed

end

section \<open>An in-memory server\<close>

record mem =
  mem_dbs :: "nat \<Rightarrow> rdb"
  mem_sel :: "nat \<Rightarrow> nat"
  mem_clock :: nat
  mem_next :: nat

definition mem_connect :: "mem \<Rightarrow> (nat \<times> bool) option \<times> mem" where
  "mem_connect s =
     (Some (mem_next s, False), s\<lparr> mem_sel := (mem_sel s)(mem_next s := 0), mem_next := mem_next s + 1 \<rparr>)"

definition mem_command :: "nat \<Rightarrow> bytes list \<Rightarrow> mem \<Rightarrow> redisReply option \<times> mem" where
  "mem_command c argv s =
     (case argv of
        [] \<Rightarrow> (None, s)
      | cmd # args \<Rightarrow>
          if cmd = ''AUTH'' then (Some (Reply_Status ''OK''), s)
          else if cmd = ''SELECT'' then
            (case args of
               [n] \<Rightarrow>
                 (case nat_arg n of
                    Some m \<Rightarrow> (Some (Reply_Status ''OK''), s\<lparr> mem_sel := (mem_sel s)(c := m) \<rparr>)
                  | None \<Rightarrow> (Some cmd_error, s))
             | _ \<Rightarrow> (Some cmd_error, s))
          else
            let n = mem_sel s c; (rep, db) = redis_exec (mem_clock s) argv (mem_dbs s n) in
            (Some rep, s\<lparr> mem_dbs := (mem_dbs s)(n := db), mem_clock := mem_clock s + 1 \<rparr>))"

definition mem_hi :: "(nat, mem) hiredis" where
  "mem_hi =
     \<lparr> redisConnectWithTimeout = (\<lambda>h p tv s. mem_connect s), redisConnect = (\<lambda>h p s. mem_connect s),
       redisSetTimeout = (\<lambda>c tv s. s), redisCommandArgv = mem_command, redisFree = (\<lambda>c s. s) \<rparr>"

definition mem_empty :: mem where
  "mem_empty = \<lparr> mem_dbs = (\<lambda>_ _. None), mem_sel = (\<lambda>_. 0), mem_clock = 0, mem_next = 0 \<rparr>"

lemma mem_command_exec:
  "mem_command c (cmd # args) s = (r, s') \<Longrightarrow> cmd \<noteq> ''AUTH'' \<Longrightarrow> cmd \<noteq> ''SELECT'' \<Longrightarrow>
     \<exists>rep db. redis_exec (mem_clock s) (cmd # args) (mem_dbs s (mem_sel s c)) = (rep, db) \<and> r = Some rep
       \<and> s' = s\<lparr> mem_dbs := (mem_dbs s)(mem_sel s c := db), mem_clock := mem_clock s + 1 \<rparr>"
  by (auto simp: mem_command_def Let_def split: prod.splits)

interpretation mem: redis_server mem_hi mem_dbs mem_sel mem_clock
proof unfold_locales
  fix c cmd args s r s'
  assume a: "redisCommandArgv mem_hi c (cmd # args) s = (r, s')" "cmd \<noteq> ''AUTH''" "cmd \<noteq> ''SELECT''"
  then have "mem_command c (cmd # args) s = (r, s')" by (simp add: mem_hi_def)
  from mem_command_exec [OF this a(2,3)] obtain rep db where
    "redis_exec (mem_clock s) (cmd # args) (mem_dbs s (mem_sel s c)) = (rep, db)" "r = Some rep"
    "s' = s\<lparr> mem_dbs := (mem_dbs s)(mem_sel s c := db), mem_clock := mem_clock s + 1 \<rparr>" by blast
  then show "mem_clock s \<le> mem_clock s' \<and> mem_sel s' = mem_sel s
      \<and> (\<forall>n. n \<noteq> mem_sel s c \<longrightarrow> mem_dbs s' n = mem_dbs s n)
      \<and> exec_outcome (cmd # args) (mem_clock s) (mem_clock s') (mem_dbs s (mem_sel s c)) r (mem_dbs s' (mem_sel s c))"
    by (auto simp: exec_outcome_def same_reply_def)
next
  fix c num s r s'
  assume "redisCommandArgv mem_hi c [''SELECT'', num] s = (r, s')"
  then show "mem_clock s \<le> mem_clock s' \<and> mem_dbs s' = mem_dbs s
      \<and> (\<not> failed r \<longrightarrow> (\<exists>m. nat_arg num = Some m \<and> mem_sel s' = (mem_sel s)(c := m)))"
    by (auto simp: mem_hi_def mem_command_def failed_def is_error_def cmd_error_def split: option.splits)
qed (auto simp: mem_hi_def mem_connect_def mem_command_def)

end
