(* ===== verification/Challenge.thy ===== *)
theory Challenge
  imports Redis_Server Examples
begin

text \<open>
  \<open>src/ngx_auth_webauthn_challenge.c\<close>: the one-shot challenge store. \<open>RAND_bytes\<close> is OpenSSL's; its
  result (\<open>None\<close> if it does not return 1) is the parameter \<open>rand\<close>. The locale \<open>one_shot\<close> is the
  contract the login flow relies on, stated for any step relation; it holds of the steps the
  functions below make on a Redis server, in any interleaving over any number of connections.
\<close>

section \<open>The store\<close>

definition NGX_AUTH_WEBAUTHN_CHALLENGE_LEN :: nat where
  "NGX_AUTH_WEBAUTHN_CHALLENGE_LEN = 32"

definition ngx_auth_webauthn_challenge_key ::
    "ngx_pool_t \<Rightarrow> bytes \<Rightarrow> bytes \<Rightarrow> nat \<Rightarrow> bytes option" where
  "ngx_auth_webauthn_challenge_key pool prefix raw rawlen =
     (let mid = ''chal:'' in
      if \<not> pool ''p'' (length prefix + length mid + rawlen) then None
      else Some (prefix @ mid @ take rawlen raw))"

definition ngx_auth_webauthn_challenge_issue ::
    "('c, 's) hiredis \<Rightarrow> bytes option \<Rightarrow> 'c redis_t option \<Rightarrow> ngx_pool_t option \<Rightarrow> bytes option \<Rightarrow> time_t
     \<Rightarrow> bytes option \<Rightarrow> 's \<Rightarrow> ngx_int_t \<times> bytes option \<times> 's" where
  "ngx_auth_webauthn_challenge_issue hi rand redis pool key_prefix ttl out s =
     (if redis = None \<or> pool = None \<or> key_prefix = None \<or> out = None \<or> ttl \<le>s 0 \<or> 0xFFFFFFFF <s ttl
      then (NGX_ERROR, out, s)
      else
        case rand of
          None \<Rightarrow> (NGX_ERROR, out, s)
        | Some challenge \<Rightarrow>
            (case ngx_auth_webauthn_challenge_key (the pool) (the key_prefix) challenge
                    NGX_AUTH_WEBAUTHN_CHALLENGE_LEN of
               None \<Rightarrow> (NGX_ERROR, out, s)
             | Some key \<Rightarrow>
                 let (rc, s) = ngx_auth_webauthn_redis_set_ex hi redis (Some key) (Some ''1'') (unat ttl) s in
                 if rc \<noteq> NGX_OK then (NGX_ERROR, out, s)
                 else (NGX_OK, Some challenge, s)))"

definition ngx_auth_webauthn_challenge_consume ::
    "('c, 's) hiredis \<Rightarrow> 'c redis_t option \<Rightarrow> ngx_pool_t option \<Rightarrow> bytes option \<Rightarrow> bytes option \<Rightarrow> nat
     \<Rightarrow> 's \<Rightarrow> ngx_int_t \<times> 's" where
  "ngx_auth_webauthn_challenge_consume hi redis pool key_prefix challenge len s =
     (if redis = None \<or> pool = None \<or> key_prefix = None \<or> challenge = None then (NGX_ERROR, s)
      else if len \<noteq> NGX_AUTH_WEBAUTHN_CHALLENGE_LEN then (NGX_DECLINED, s)
      else
        case ngx_auth_webauthn_challenge_key (the pool) (the key_prefix) (the challenge) len of
          None \<Rightarrow> (NGX_ERROR, s)
        | Some key \<Rightarrow>
            let (rc, found, s) = ngx_auth_webauthn_redis_getdel hi redis (Some key) (Some 0) s in
            if rc \<noteq> NGX_OK then (NGX_ERROR, s)
            else (if the found \<noteq> 0 then NGX_OK else NGX_DECLINED, s))"

section \<open>The one-shot contract\<close>

datatype 'k chal_event = Issued 'k | Consumed 'k ngx_int_t | Other

inductive evolves :: "('s \<Rightarrow> 'e \<Rightarrow> 's \<Rightarrow> bool) \<Rightarrow> 's \<Rightarrow> 'e list \<Rightarrow> 's \<Rightarrow> bool" for step where
  evolves_nil: "evolves step s [] s"
| evolves_cons: "step s e s' \<Longrightarrow> evolves step s' es s'' \<Longrightarrow> evolves step s (e # es) s''"

locale one_shot =
  fixes step :: "'s \<Rightarrow> 'k chal_event \<Rightarrow> 's \<Rightarrow> bool"
    and holds :: "'s \<Rightarrow> 'k \<Rightarrow> bool"
    and inv :: "'s \<Rightarrow> bool"
  assumes step_inv: "inv s \<Longrightarrow> step s e s' \<Longrightarrow> inv s'"
    and created: "inv s \<Longrightarrow> step s e s' \<Longrightarrow> holds s' k \<Longrightarrow> holds s k \<or> e = Issued k"
    and used: "inv s \<Longrightarrow> step s (Consumed k NGX_OK) s' \<Longrightarrow> holds s k \<and> \<not> holds s' k"
begin

lemma accepted_at_most_issued:
  assumes "evolves step s es s'" and "inv s"
  shows "count_list es (Consumed k NGX_OK) + (if holds s' k then 1 else 0)
     \<le> count_list es (Issued k) + (if holds s k then 1 else 0)"
  using assms
proof (induction rule: evolves.induct)
  case (evolves_cons s e s' es s'')
  have "inv s'" using step_inv evolves_cons.prems evolves_cons.hyps(1) .
  with evolves_cons have IH: "count_list es (Consumed k NGX_OK) + (if holds s'' k then 1 else 0)
     \<le> count_list es (Issued k) + (if holds s' k then 1 else 0)" by simp
  consider "e = Issued k" | "e = Consumed k NGX_OK" | "e \<noteq> Issued k" "e \<noteq> Consumed k NGX_OK" by blast
  then show ?case
  proof cases
    case 2
    then show ?thesis using used [of s k s'] evolves_cons IH by auto
  next
    case 3
    then show ?thesis using created [of s e s' k] evolves_cons IH by (auto split: if_splits)
  qed (use IH in \<open>auto split: if_splits\<close>)
qed simp

end

section \<open>The store on a Redis server\<close>

lemma challenge_key_Some:
  "ngx_auth_webauthn_challenge_key pool prefix raw n = Some key \<Longrightarrow> key = prefix @ ''chal:'' @ take n raw"
  by (auto simp: ngx_auth_webauthn_challenge_key_def split: if_splits)

lemma ttl_bound: "\<not> ttl \<le>s 0 \<Longrightarrow> \<not> 0xFFFFFFFF <s ttl \<Longrightarrow> 0 < unat ttl \<and> unat ttl < 10 ^ 31" for ttl :: time_t
proof -
  assume "\<not> ttl \<le>s 0"
  then have "ttl \<noteq> 0" by auto
  moreover have "unat ttl < 2 ^ 64" using unsigned_less [of ttl, where ?'a = nat] by simp
  ultimately show ?thesis by (simp add: unat_gt_0)
qed

context redis_server
begin

lemma issue_contract:
  assumes "ngx_auth_webauthn_challenge_issue hi (Some x) (Some rd) (Some pool) (Some prefix) ttl (Some o') s
      = (rc, out, s')" and "rd_ctx rd = Some c" and "length x = 32"
  shows "keeps c s s'" and "rc \<noteq> NGX_DECLINED"
    and "rc = NGX_OK \<Longrightarrow> out = Some x \<and> 0 <s ttl \<and> (\<exists>t. clock s \<le> t \<and> t \<le> clock s' \<and> dbs s' (sel s c) =
           (dbs s (sel s c))(prefix @ ''chal:'' @ x := Some (RString ''1'', Some (t + 1000 * unat ttl))))"
    and "k \<noteq> prefix @ ''chal:'' @ x \<Longrightarrow> dbs s' (sel s c) k = dbs s (sel s c) k"
proof -
  let ?key = "prefix @ ''chal:'' @ x"
  have *: "keeps c s s' \<and> rc \<noteq> NGX_DECLINED
    \<and> (rc = NGX_OK \<longrightarrow> out = Some x \<and> 0 <s ttl \<and> ran [''SET'', ?key, ''1'', ''EX'', show_nat (unat ttl)] c s s')
    \<and> (dbs s' (sel s c) = dbs s (sel s c) \<or> ran [''SET'', ?key, ''1'', ''EX'', show_nat (unat ttl)] c s s')"
  proof (cases "s' = s \<and> rc = NGX_ERROR")
    case False
    with assms obtain key rc1 where v: "\<not> ttl \<le>s 0" "\<not> 0xFFFFFFFF <s ttl"
      "ngx_auth_webauthn_challenge_key pool prefix x 32 = Some key"
      "ngx_auth_webauthn_redis_set_ex hi (Some rd) (Some key) (Some ''1'') (unat ttl) s = (rc1, s')"
      "(rc, out) = (if rc1 = NGX_OK then (NGX_OK, Some x) else (NGX_ERROR, Some o'))"
      by (auto simp: ngx_auth_webauthn_challenge_issue_def NGX_AUTH_WEBAUTHN_CHALLENGE_LEN_def Let_def
          split: if_splits option.splits prod.splits)
    from set_ex_wrote [OF v(4) assms(2)] ttl_bound [OF v(1,2)] challenge_key_Some [OF v(3)] v(1,5) assms(3)
    show ?thesis by (auto simp: wrote_def word_sless_alt word_sle_eq split: if_splits)
  qed simp
  have ttl: "0 < unat ttl" if "0 <s ttl" using that by (simp add: unat_gt_0)
  from * show "keeps c s s'" "rc \<noteq> NGX_DECLINED" by simp_all
  show "out = Some x \<and> 0 <s ttl \<and> (\<exists>t. clock s \<le> t \<and> t \<le> clock s' \<and> dbs s' (sel s c) =
     (dbs s (sel s c))(prefix @ ''chal:'' @ x := Some (RString ''1'', Some (t + 1000 * unat ttl))))" if "rc = NGX_OK"
    using * that ttl by (auto simp: ran_def exec_SET)
  show "dbs s' (sel s c) k = dbs s (sel s c) k" if "k \<noteq> ?key"
    using * that exec_frame [of _ "[''SET'', ?key, ''1'', ''EX'', show_nat (unat ttl)]" "dbs s (sel s c)" _ "dbs s' (sel s c)" k]
    by (auto simp: ran_def cmd_key_def)
qed

lemma consume_contract:
  assumes "ngx_auth_webauthn_challenge_consume hi (Some rd) (Some pool) (Some prefix) (Some x) (length x) s = (rc, s')"
    and "rd_ctx rd = Some c"
  shows "keeps c s s'"
    and "dbs s' (sel s c) = dbs s (sel s c) \<or> dbs s' (sel s c) = (dbs s (sel s c))(prefix @ ''chal:'' @ x := None)"
    and "rc = NGX_OK \<Longrightarrow> length x = 32 \<and> dbs s' (sel s c) = (dbs s (sel s c))(prefix @ ''chal:'' @ x := None)
       \<and> (\<exists>t. clock s \<le> t \<and> t \<le> clock s' \<and> live t (dbs s (sel s c)) (prefix @ ''chal:'' @ x) \<noteq> None)"
    and "rc = NGX_DECLINED \<Longrightarrow> length x \<noteq> 32
       \<or> (\<exists>t. clock s \<le> t \<and> t \<le> clock s' \<and> live t (dbs s (sel s c)) (prefix @ ''chal:'' @ x) = None)"
proof -
  let ?key = "prefix @ ''chal:'' @ x"
  obtain rc1 found s1 where g: "ngx_auth_webauthn_redis_getdel hi (Some rd) (Some ?key) (Some 0) s = (rc1, found, s1)"
    by (metis surj_pair)
  note gd = getdel_contract [OF g assms(2)]
  consider "s' = s" "rc = NGX_ERROR" | "s' = s" "length x \<noteq> 32" "rc = NGX_DECLINED"
    | "length x = 32" "s' = s1" "rc = (if rc1 \<noteq> NGX_OK then NGX_ERROR else if the found \<noteq> 0 then NGX_OK else NGX_DECLINED)"
    using assms(1) g
    by (auto simp: ngx_auth_webauthn_challenge_consume_def NGX_AUTH_WEBAUTHN_CHALLENGE_LEN_def Let_def
        split: if_splits option.splits dest!: challenge_key_Some)
  then have "keeps c s s' \<and> (dbs s' (sel s c) = dbs s (sel s c) \<or> dbs s' (sel s c) = (dbs s (sel s c))(?key := None))
    \<and> (rc = NGX_OK \<longrightarrow> length x = 32 \<and> dbs s' (sel s c) = (dbs s (sel s c))(?key := None)
       \<and> (\<exists>t. clock s \<le> t \<and> t \<le> clock s' \<and> live t (dbs s (sel s c)) ?key \<noteq> None))
    \<and> (rc = NGX_DECLINED \<longrightarrow> length x \<noteq> 32
       \<or> (\<exists>t. clock s \<le> t \<and> t \<le> clock s' \<and> live t (dbs s (sel s c)) ?key = None))"
  proof cases
    case 3
    then show ?thesis using gd by (auto split: if_splits)
  qed simp_all
  then show "keeps c s s'"
    and "dbs s' (sel s c) = dbs s (sel s c) \<or> dbs s' (sel s c) = (dbs s (sel s c))(prefix @ ''chal:'' @ x := None)"
    and "rc = NGX_OK \<Longrightarrow> length x = 32 \<and> dbs s' (sel s c) = (dbs s (sel s c))(prefix @ ''chal:'' @ x := None)
       \<and> (\<exists>t. clock s \<le> t \<and> t \<le> clock s' \<and> live t (dbs s (sel s c)) (prefix @ ''chal:'' @ x) \<noteq> None)"
    and "rc = NGX_DECLINED \<Longrightarrow> length x \<noteq> 32
       \<or> (\<exists>t. clock s \<le> t \<and> t \<le> clock s' \<and> live t (dbs s (sel s c)) (prefix @ ''chal:'' @ x) = None)"
    by blast+
qed

end

text \<open>The steps any node of the deployment can make on the shared database: issue a challenge, consume
  one, or send any command that does not name a challenge key (credential records, indexes, rate
  counters).\<close>

inductive challenge_step ::
    "('c, 's) hiredis \<Rightarrow> bytes \<Rightarrow> 'c set \<Rightarrow> 's \<Rightarrow> bytes chal_event \<Rightarrow> 's \<Rightarrow> bool" for hi prefix conns where
  issue: "rd_ctx rd = Some c \<Longrightarrow> c \<in> conns \<Longrightarrow> length x = 32 \<Longrightarrow>
     ngx_auth_webauthn_challenge_issue hi (Some x) (Some rd) (Some pool) (Some prefix) ttl (Some o') s = (rc, out, s')
     \<Longrightarrow> challenge_step hi prefix conns s (Issued x) s'"
| consume: "rd_ctx rd = Some c \<Longrightarrow> c \<in> conns \<Longrightarrow>
     ngx_auth_webauthn_challenge_consume hi (Some rd) (Some pool) (Some prefix) (Some x) (length x) s = (rc, s')
     \<Longrightarrow> challenge_step hi prefix conns s (Consumed x rc) s'"
| other: "c \<in> conns \<Longrightarrow> cmd \<noteq> ''AUTH'' \<Longrightarrow> cmd \<noteq> ''SELECT'' \<Longrightarrow>
     (\<And>x. cmd_key (cmd # args) \<noteq> prefix @ ''chal:'' @ x) \<Longrightarrow> redisCommandArgv hi c (cmd # args) s = (r, s')
     \<Longrightarrow> challenge_step hi prefix conns s Other s'"

inductive_cases challenge_stepE: "challenge_step hi prefix conns s e s'"

context redis_server
begin

lemma challenge_step_keeps:
  assumes "challenge_step hi prefix conns s e s'"
  obtains c where "c \<in> conns" and "keeps c s s'"
    and "\<And>x. e \<noteq> Issued x \<Longrightarrow> dbs s' (sel s c) (prefix @ ''chal:'' @ x) = dbs s (sel s c) (prefix @ ''chal:'' @ x)
           \<or> dbs s' (sel s c) (prefix @ ''chal:'' @ x) = None"
    and "\<And>x. e = Consumed x NGX_OK \<Longrightarrow> dbs s (sel s c) (prefix @ ''chal:'' @ x) \<noteq> None
           \<and> dbs s' (sel s c) (prefix @ ''chal:'' @ x) = None"
  using assms
proof cases
  case (issue rd c x pool ttl o' rc out)
  from issue_contract(1,4) [OF issue(5,2,4)] that [of c] issue show thesis by auto
next
  case (consume rd c pool x rc)
  note cc = consume_contract [OF consume(4,2)]
  have "dbs s (sel s c) (prefix @ ''chal:'' @ x) \<noteq> None" if "rc = NGX_OK"
    using cc(3) [OF that] by (auto simp: live_def entry_def split: option.splits)
  then show thesis using that [of c] consume(1,3) cc(1,2,3) by (auto split: if_splits)
next
  case (other c cmd args r)
  from command [OF other(6,3,4)] have k: "keeps c s s'"
    and o': "exec_outcome (cmd # args) (clock s) (clock s') (dbs s (sel s c)) r (dbs s' (sel s c))"
    by (auto simp: keeps_def)
  have "dbs s' (sel s c) (prefix @ ''chal:'' @ x) = dbs s (sel s c) (prefix @ ''chal:'' @ x)" for x
    using outcome_any [OF o'] exec_frame other(5) [of x] by metis
  with that [of c] k other(1,2) show thesis by auto
qed

lemma challenge_one_shot:
  "one_shot (challenge_step hi prefix conns) (\<lambda>s x. dbs s n (prefix @ ''chal:'' @ x) \<noteq> None)
     (\<lambda>s. \<forall>c \<in> conns. sel s c = n)"
proof unfold_locales
  fix s e s'
  assume inv: "\<forall>c \<in> conns. sel s c = n" and st: "challenge_step hi prefix conns s e s'"
  from st obtain c where c: "c \<in> conns" "keeps c s s'" by (rule challenge_step_keeps)
  then show "\<forall>c \<in> conns. sel s' c = n" using inv by (simp add: keeps_def)
next
  fix s e s' k
  assume inv: "\<forall>c \<in> conns. sel s c = n" and st: "challenge_step hi prefix conns s e s'"
    and h: "dbs s' n (prefix @ ''chal:'' @ k) \<noteq> None"
  from st show "dbs s n (prefix @ ''chal:'' @ k) \<noteq> None \<or> e = Issued k"
    by (rule challenge_step_keeps) (use inv h in metis)
next
  fix s k s'
  assume inv: "\<forall>c \<in> conns. sel s c = n" and st: "challenge_step hi prefix conns s (Consumed k NGX_OK) s'"
  from st show "dbs s n (prefix @ ''chal:'' @ k) \<noteq> None \<and> \<not> dbs s' n (prefix @ ''chal:'' @ k) \<noteq> None"
    by (rule challenge_step_keeps) (use inv in simp)
qed

end

interpretation mem_challenge: one_shot "challenge_step mem_hi prefix conns"
    "\<lambda>s x. mem_dbs s n (prefix @ ''chal:'' @ x) \<noteq> None" "\<lambda>s. \<forall>c \<in> conns. mem_sel s c = n" for prefix conns n
  by (rule mem.challenge_one_shot)

section \<open>Properties\<close>

text \<open>C31: a challenge is accepted at most once. In any interleaving of issue, consume and other commands
  by any number of connections (worker processes, nodes) to one Redis database, including lost
  connections and failed calls, the number of times \<open>ngx_auth_webauthn_challenge_consume\<close> returns
  \<open>NGX_OK\<close> for a challenge is at most the number of times it was issued (plus one if it was stored at
  the start): a challenge never issued is never accepted and a replayed one is refused.\<close>

theorem challenge_single_use:
  assumes "redis_server hi dbs sel clock" and "\<forall>c \<in> conns. sel s c = n"
    and "evolves (challenge_step hi prefix conns) s es s'"
  shows "count_list es (Consumed x NGX_OK)
     \<le> count_list es (Issued x) + (if dbs s n (prefix @ ''chal:'' @ x) = None then 0 else 1)"
  using one_shot.accepted_at_most_issued
    [OF redis_server.challenge_one_shot [OF assms(1), of prefix conns n] assms(3,2), of x]
  by (auto split: if_splits)

definition ex_redis :: "nat redis_t" where
  "ex_redis = \<lparr> rd_ctx = Some 0, rd_pool = ex_pool \<rparr>"

definition ex_issued :: mem where
  "ex_issued = mem_empty\<lparr> mem_dbs := (\<lambda>_ _. None)(0 := (\<lambda>_. None)(''w:chal:'' @ ex_challenge
     := Some (RString ''1'', Some 60000))), mem_clock := 1 \<rparr>"

definition ex_consumed :: mem where
  "ex_consumed = mem_empty\<lparr> mem_clock := 2 \<rparr>"

lemma ex_challenge_len: "length ex_challenge = 32"
  by (simp add: ex_challenge_def)

lemma ex_issue:
  "ngx_auth_webauthn_challenge_issue mem_hi (Some ex_challenge) (Some ex_redis) (Some ex_pool) (Some ''w:'') 60
     (Some []) mem_empty = (NGX_OK, Some ex_challenge, ex_issued)"
proof -
  have len: "length (show_nat 60) \<le> 31" using length_show_nat [of 60 31] by simp
  have "\<not> (60 :: time_t) \<le>s 0" "\<not> 0xFFFFFFFF <s (60 :: time_t)" by code_simp+
  moreover have "mem_command 0 [''SET'', ''w:chal:'' @ ex_challenge, ''1'', ''EX'', show_nat 60] mem_empty
      = (Some (Reply_Status ''OK''), ex_issued)"
    by (simp add: mem_command_def exec_SET mem_empty_def ex_issued_def fun_eq_iff)
  ultimately show ?thesis
    using len
    by (simp add: ngx_auth_webauthn_challenge_issue_def ngx_auth_webauthn_challenge_key_def ex_challenge_len
        NGX_AUTH_WEBAUTHN_CHALLENGE_LEN_def ngx_auth_webauthn_redis_set_ex_def no_conn_def ex_redis_def
        NGX_AUTH_WEBAUTHN_REDIS_NUMBUF_def ngx_auth_webauthn_redis_exec_def mem_hi_def failed_def is_error_def)
qed

lemma ex_consume:
  "ngx_auth_webauthn_challenge_consume mem_hi (Some ex_redis) (Some ex_pool) (Some ''w:'') (Some ex_challenge) 32
     ex_issued = (NGX_OK, ex_consumed)"
  "ngx_auth_webauthn_challenge_consume mem_hi (Some ex_redis) (Some ex_pool) (Some ''w:'') (Some ex_challenge) 32
     ex_consumed = (NGX_DECLINED, ex_consumed\<lparr> mem_clock := 3 \<rparr>)"
proof -
  have 1: "mem_command 0 [''GETDEL'', ''w:chal:'' @ ex_challenge] ex_issued = (Some (Reply_String ''1''), ex_consumed)"
    by (simp add: mem_command_def exec_GETDEL live_def entry_def expired_def ex_issued_def ex_consumed_def
        mem_empty_def fun_eq_iff)
  have 2: "mem_command 0 [''GETDEL'', ''w:chal:'' @ ex_challenge] ex_consumed
      = (Some Reply_Nil, ex_consumed\<lparr> mem_clock := 3 \<rparr>)"
    by (simp add: mem_command_def exec_GETDEL live_def entry_def ex_consumed_def mem_empty_def fun_upd_idem)
  show "ngx_auth_webauthn_challenge_consume mem_hi (Some ex_redis) (Some ex_pool) (Some ''w:'') (Some ex_challenge) 32
     ex_issued = (NGX_OK, ex_consumed)"
    "ngx_auth_webauthn_challenge_consume mem_hi (Some ex_redis) (Some ex_pool) (Some ''w:'') (Some ex_challenge) 32
     ex_consumed = (NGX_DECLINED, ex_consumed\<lparr> mem_clock := 3 \<rparr>)"
    using 1 2
    by (simp_all add: ngx_auth_webauthn_challenge_consume_def ngx_auth_webauthn_challenge_key_def ex_challenge_len
        NGX_AUTH_WEBAUTHN_CHALLENGE_LEN_def ngx_auth_webauthn_redis_getdel_def no_conn_def ex_redis_def
        ngx_auth_webauthn_redis_exec_def mem_hi_def failed_def is_error_def)
qed

lemma ex_replay:
  "evolves (challenge_step mem_hi ''w:'' {0}) mem_empty
     [Issued ex_challenge, Consumed ex_challenge NGX_OK, Consumed ex_challenge NGX_DECLINED]
     (ex_consumed\<lparr> mem_clock := 3 \<rparr>)"
proof (rule evolves_cons, rule challenge_step.issue [OF _ _ ex_challenge_len ex_issue])
  show "evolves (challenge_step mem_hi ''w:'' {0}) ex_issued
     [Consumed ex_challenge NGX_OK, Consumed ex_challenge NGX_DECLINED] (ex_consumed\<lparr> mem_clock := 3 \<rparr>)"
    using challenge_step.consume [of ex_redis 0 "{0}" mem_hi ex_pool "''w:''" ex_challenge] ex_consume
    by (auto intro!: evolves_cons evolves_nil simp: ex_challenge_len ex_redis_def)
qed (simp_all add: ex_redis_def)

theorem challenge_single_use_witness:
  "count_list [Issued ex_challenge, Consumed ex_challenge NGX_OK, Consumed ex_challenge NGX_DECLINED]
     (Consumed ex_challenge NGX_OK) = 1
   \<and> count_list [Issued ex_challenge, Consumed ex_challenge NGX_OK, Consumed ex_challenge NGX_DECLINED]
     (Consumed ex_challenge NGX_OK) \<le> 1"
  using challenge_single_use [OF mem.redis_server_axioms _ ex_replay, of 0 ex_challenge]
  by (simp add: mem_empty_def)



end
