(* ===== verification/Credential.thy ===== *)
theory Credential
  imports Challenge
begin

text \<open>
  \<open>src/ngx_auth_webauthn_credential.c\<close>: credential records in Redis. The record key, the index key,
  the decimal parser and the four operations are translated; the locale \<open>credential_store\<close> is the
  contract the login handlers and the administration tool rely on, a map from credential ids to
  records, and the operations on a Redis server satisfy it.
\<close>

section \<open>Records and keys\<close>

record credential =
  cred_credential_id :: bytes
  cred_user_id :: bytes
  cred_public_key :: bytes
  cred_alg :: "32 word"
  cred_sign_count :: "32 word"
  cred_created_at :: "64 word"
  cred_last_used_at :: "64 word"
  cred_aaguid :: bytes
  cred_has_aaguid :: bool
  cred_transports :: bytes

definition credential_zero :: credential where
  "credential_zero =
     \<lparr> cred_credential_id = [], cred_user_id = [], cred_public_key = [], cred_alg = 0, cred_sign_count = 0,
       cred_created_at = 0, cred_last_used_at = 0, cred_aaguid = replicate 16 (CHR 0x00),
       cred_has_aaguid = False, cred_transports = [] \<rparr>"

definition ngx_auth_webauthn_credential_record_key :: "ngx_pool_t \<Rightarrow> bytes \<Rightarrow> bytes \<Rightarrow> bytes option" where
  "ngx_auth_webauthn_credential_record_key pool prefix cid =
     (let mid = ''cred:'' in
      if \<not> pool ''p'' (length prefix + length mid + length cid) then None
      else Some (prefix @ mid @ cid))"

definition ngx_auth_webauthn_credential_index_key :: "ngx_pool_t \<Rightarrow> bytes \<Rightarrow> bytes \<Rightarrow> bytes option" where
  "ngx_auth_webauthn_credential_index_key pool prefix uid =
     (let mid = ''user:''; suffix = '':creds'' in
      if \<not> pool ''p'' (length prefix + length mid + length uid + length suffix) then None
      else Some (prefix @ mid @ uid @ suffix))"

section \<open>Decimal parsing\<close>

fun atoi64_loop :: "64 word \<Rightarrow> bytes \<Rightarrow> 64 word \<Rightarrow> 64 word option" where
  "atoi64_loop limit [] acc = Some acc"
| "atoi64_loop limit (c # s) acc =
     (if \<not> is_digit c then None
      else
        let d = of_nat (digit_val c) in
        if acc > (limit - d) div 10 then None
        else atoi64_loop limit s (acc * 10 + d))"

definition ngx_auth_webauthn_credential_atoi64 :: "bytes \<Rightarrow> 64 word option" where
  "ngx_auth_webauthn_credential_atoi64 s =
     (case s of
        [] \<Rightarrow> None
      | c # r \<Rightarrow>
          if c = CHR ''-'' then
            if length s = 1 then None
            else map_option (\<lambda>acc. - acc) (atoi64_loop (0x7FFFFFFFFFFFFFFF + 1) r 0)
          else atoi64_loop 0x7FFFFFFFFFFFFFFF s 0)"

definition ngx_auth_webauthn_credential_num_pair :: "string \<Rightarrow> string \<Rightarrow> bytes \<times> bytes" where
  "ngx_auth_webauthn_credential_num_pair name buf = (name, buf)"

section \<open>Operations\<close>

text \<open>One turn of the field loop of \<open>ngx_auth_webauthn_credential_get\<close>; \<open>None\<close> is the early return of
  \<open>NGX_DECLINED\<close>.\<close>

definition credential_field :: "bytes \<Rightarrow> bytes \<Rightarrow> credential \<Rightarrow> credential option" where
  "credential_field n val out =
     (if n = ''user_id'' then Some (out\<lparr> cred_user_id := val \<rparr>)
      else if n = ''public_key'' then Some (out\<lparr> cred_public_key := val \<rparr>)
      else if n = ''alg'' then
        (case ngx_auth_webauthn_credential_atoi64 val of
           None \<Rightarrow> None
         | Some v \<Rightarrow>
             if sint v < - (2 ^ 31) \<or> sint v > 2 ^ 31 - 1 then None
             else Some (out\<lparr> cred_alg := ucast v \<rparr>))
      else if n = ''sign_count'' then
        (case ngx_auth_webauthn_credential_atoi64 val of
           None \<Rightarrow> None
         | Some v \<Rightarrow>
             if sint v < 0 \<or> sint v > 2 ^ 32 - 1 then None
             else Some (out\<lparr> cred_sign_count := ucast v \<rparr>))
      else if n = ''created_at'' then
        (case ngx_auth_webauthn_credential_atoi64 val of
           None \<Rightarrow> Some out
         | Some v \<Rightarrow> Some (out\<lparr> cred_created_at := v \<rparr>))
      else if n = ''last_used_at'' then
        (case ngx_auth_webauthn_credential_atoi64 val of
           None \<Rightarrow> Some out
         | Some v \<Rightarrow> Some (out\<lparr> cred_last_used_at := v \<rparr>))
      else if n = ''aaguid'' then
        (if length val = 16 then Some (out\<lparr> cred_aaguid := val, cred_has_aaguid := True \<rparr>) else Some out)
      else if n = ''transports'' then Some (out\<lparr> cred_transports := val \<rparr>)
      else Some out)"

fun credential_fields :: "(bytes \<times> bytes) list \<Rightarrow> credential \<Rightarrow> credential option" where
  "credential_fields [] out = Some out"
| "credential_fields ((n, val) # pairs) out =
     (case credential_field n val out of
        None \<Rightarrow> None
      | Some out \<Rightarrow> credential_fields pairs out)"

definition ngx_auth_webauthn_credential_get ::
    "('c, 's) hiredis \<Rightarrow> 'c redis_t option \<Rightarrow> ngx_pool_t option \<Rightarrow> bytes option \<Rightarrow> bytes option \<Rightarrow> credential option
     \<Rightarrow> 's \<Rightarrow> ngx_int_t \<times> credential option \<times> 's" where
  "ngx_auth_webauthn_credential_get hi redis pool prefix credential_id out s =
     (if redis = None \<or> pool = None \<or> prefix = None \<or> credential_id = None \<or> out = None
      then (NGX_ERROR, out, s)
      else
        let out = credential_zero\<lparr> cred_credential_id := the credential_id \<rparr> in
        case ngx_auth_webauthn_credential_record_key (the pool) (the prefix) (the credential_id) of
          None \<Rightarrow> (NGX_ERROR, Some out, s)
        | Some key \<Rightarrow>
            let (rc, pairs, s) = ngx_auth_webauthn_redis_hgetall hi redis pool (Some key) (Some []) s in
            if rc \<noteq> NGX_OK then (NGX_ERROR, Some out, s)
            else if length (the pairs) = 0 then (NGX_DECLINED, Some out, s)
            else
              case credential_fields (the pairs) out of
                None \<Rightarrow> (NGX_DECLINED, Some out, s)
              | Some out \<Rightarrow>
                  if length (cred_public_key out) = 0 \<or> cred_alg out = 0 then (NGX_DECLINED, Some out, s)
                  else (NGX_OK, Some out, s))"

definition credential_pairs :: "credential \<Rightarrow> (bytes \<times> bytes) list" where
  "credential_pairs cred =
     [(''user_id'', cred_user_id cred), (''public_key'', cred_public_key cred),
      ngx_auth_webauthn_credential_num_pair ''alg'' (show_int (sint (cred_alg cred))),
      ngx_auth_webauthn_credential_num_pair ''sign_count'' (show_nat (unat (cred_sign_count cred))),
      ngx_auth_webauthn_credential_num_pair ''created_at'' (show_int (sint (cred_created_at cred))),
      ngx_auth_webauthn_credential_num_pair ''last_used_at'' (show_int (sint (cred_last_used_at cred)))]
     @ (if length (cred_transports cred) > 0 then [(''transports'', cred_transports cred)] else [])
     @ (if cred_has_aaguid cred then [(''aaguid'', take 16 (cred_aaguid cred))] else [])"

definition ngx_auth_webauthn_credential_put ::
    "('c, 's) hiredis \<Rightarrow> 'c redis_t option \<Rightarrow> ngx_pool_t option \<Rightarrow> bytes option \<Rightarrow> credential option
     \<Rightarrow> 's \<Rightarrow> ngx_int_t \<times> 's" where
  "ngx_auth_webauthn_credential_put hi redis pool prefix cred s =
     (if redis = None \<or> pool = None \<or> prefix = None \<or> cred = None
         \<or> length (cred_credential_id (the cred)) = 0 \<or> length (cred_user_id (the cred)) = 0
      then (NGX_ERROR, s)
      else
        case ngx_auth_webauthn_credential_record_key (the pool) (the prefix) (cred_credential_id (the cred)) of
          None \<Rightarrow> (NGX_ERROR, s)
        | Some key \<Rightarrow>
            let pairs = credential_pairs (the cred);
                (rc, s) = ngx_auth_webauthn_redis_hset hi redis (Some key) (Some pairs) (length pairs) s
            in
            if rc \<noteq> NGX_OK then (NGX_ERROR, s)
            else
              case ngx_auth_webauthn_credential_index_key (the pool) (the prefix) (cred_user_id (the cred)) of
                None \<Rightarrow> (NGX_ERROR, s)
              | Some index_key \<Rightarrow>
                  let (rc, s) = ngx_auth_webauthn_redis_sadd hi redis (Some index_key)
                                  (Some (cred_credential_id (the cred))) s
                  in if rc \<noteq> NGX_OK then (NGX_ERROR, s) else (NGX_OK, s))"

definition counter_pairs :: "32 word \<Rightarrow> 64 word \<Rightarrow> (bytes \<times> bytes) list" where
  "counter_pairs new_count last_used_at =
     [ngx_auth_webauthn_credential_num_pair ''sign_count'' (show_nat (unat new_count)),
      ngx_auth_webauthn_credential_num_pair ''last_used_at'' (show_int (sint last_used_at))]"

definition ngx_auth_webauthn_credential_update_counter ::
    "('c, 's) hiredis \<Rightarrow> 'c redis_t option \<Rightarrow> ngx_pool_t option \<Rightarrow> bytes option \<Rightarrow> bytes option \<Rightarrow> 32 word \<Rightarrow> 64 word
     \<Rightarrow> 's \<Rightarrow> ngx_int_t \<times> 's" where
  "ngx_auth_webauthn_credential_update_counter hi redis pool prefix credential_id new_count last_used_at s =
     (if redis = None \<or> pool = None \<or> prefix = None \<or> credential_id = None then (NGX_ERROR, s)
      else
        case ngx_auth_webauthn_credential_record_key (the pool) (the prefix) (the credential_id) of
          None \<Rightarrow> (NGX_ERROR, s)
        | Some key \<Rightarrow>
            ngx_auth_webauthn_redis_hset hi redis (Some key) (Some (counter_pairs new_count last_used_at)) 2 s)"

definition ngx_auth_webauthn_credential_delete ::
    "('c, 's) hiredis \<Rightarrow> 'c redis_t option \<Rightarrow> ngx_pool_t option \<Rightarrow> bytes option \<Rightarrow> bytes option
     \<Rightarrow> 's \<Rightarrow> ngx_int_t \<times> 's" where
  "ngx_auth_webauthn_credential_delete hi redis pool prefix credential_id s =
     (if redis = None \<or> pool = None \<or> prefix = None \<or> credential_id = None then (NGX_ERROR, s)
      else
        let (rc, cred, s) =
              ngx_auth_webauthn_credential_get hi redis pool prefix credential_id (Some credential_zero) s
        in
        if rc \<noteq> NGX_OK then (rc, s)
        else
          case ngx_auth_webauthn_credential_record_key (the pool) (the prefix) (the credential_id) of
            None \<Rightarrow> (NGX_ERROR, s)
          | Some key \<Rightarrow>
              let (rc, s) = ngx_auth_webauthn_redis_del hi redis (Some key) s in
              if rc \<noteq> NGX_OK then (NGX_ERROR, s)
              else if length (cred_user_id (the cred)) > 0 then
                (case ngx_auth_webauthn_credential_index_key (the pool) (the prefix) (cred_user_id (the cred)) of
                   None \<Rightarrow> (NGX_ERROR, s)
                 | Some index_key \<Rightarrow>
                     let (rc, s) = ngx_auth_webauthn_redis_srem hi redis (Some index_key) credential_id s in
                     if rc \<noteq> NGX_OK then (NGX_ERROR, s) else (NGX_OK, s))
              else (NGX_OK, s))"

section \<open>Decimal round trip\<close>

lemma read_nat_ge: "acc \<le> read_nat acc s"
proof (induction s arbitrary: acc)
  case (Cons c s)
  show ?case using Cons [of "acc * 10 + digit_val c"] by simp
qed simp

lemma atoi64_step:
  fixes acc limit :: "64 word"
  assumes "d < 10" and "9 \<le> unat limit"
  shows "acc > (limit - of_nat d) div 10 \<longleftrightarrow> unat limit < unat acc * 10 + d"
proof -
  have d: "unat (of_nat d :: 64 word) = d" using assms(1) by (simp add: unat_of_nat take_bit_eq_mod)
  then have "of_nat d \<le> limit" using assms by (simp add: word_le_nat_alt)
  then have "unat (limit - of_nat d) = unat limit - d" using d by (simp add: unat_sub)
  then have "unat ((limit - of_nat d) div 10) = (unat limit - d) div 10"
    by (simp add: unat_div_distrib)
  then have "acc > (limit - of_nat d) div 10 \<longleftrightarrow> (unat limit - d) div 10 < unat acc"
    by (simp add: word_less_nat_alt)
  also have "\<dots> \<longleftrightarrow> unat limit - d < unat acc * 10" by (simp add: div_less_iff_less_mult)
  also have "\<dots> \<longleftrightarrow> unat limit < unat acc * 10 + d" using assms by linarith
  finally show ?thesis .
qed

lemma atoi64_loop_iff:
  assumes "9 \<le> unat limit" and "unat acc \<le> unat limit"
  shows "atoi64_loop limit s acc = Some r \<longleftrightarrow>
     list_all is_digit s \<and> read_nat (unat acc) s \<le> unat limit \<and> unat r = read_nat (unat acc) s"
  using assms
proof (induction s arbitrary: acc)
  case Nil
  then show ?case by (auto dest: unsigned_word_eqI)
next
  case (Cons c s)
  show ?case
  proof (cases "is_digit c")
    case True
    define d where "d = digit_val c"
    have d: "d < 10" using True by (simp add: d_def)
    note st = atoi64_step [OF d Cons.prems(1), of acc]
    show ?thesis
    proof (cases "unat limit < unat acc * 10 + d")
      case True
      then have "unat limit < read_nat (unat acc) (c # s)"
        using read_nat_ge [of "unat acc * 10 + d" s] by (simp add: d_def)
      with True \<open>is_digit c\<close> st show ?thesis by (simp add: d_def Let_def)
    next
      case False
      have lt: "unat limit < 2 ^ 64" using unsigned_less [of limit, where ?'a = nat] by simp
      have u: "unat (acc * 10 + of_nat d) = unat acc * 10 + d"
      proof -
        have "unat acc * 10 + d < 2 ^ 64" using False lt by linarith
        then have "unat (of_nat (unat acc * 10 + d) :: 64 word) = unat acc * 10 + d"
          by (simp only: unat_of_nat take_bit_eq_mod) simp
        then show ?thesis by simp
      qed
      have ge: "\<not> acc > (limit - of_nat (digit_val c)) div 10" using False st by (simp add: d_def)
      have le: "unat (acc * 10 + of_nat d) \<le> unat limit" using False u by simp
      show ?thesis
        using Cons.IH [OF Cons.prems(1) le] \<open>is_digit c\<close> ge u by (simp add: d_def Let_def)
    qed
  qed simp
qed

lemma sint_word_of_int: "- (2 ^ 63) \<le> i \<Longrightarrow> i < 2 ^ 63 \<Longrightarrow> sint (word_of_int i :: 64 word) = i"
  by (simp add: signed_of_int signed_take_bit_int_eq_self)

lemma minus_not_digit [simp]: "\<not> is_digit (CHR ''-'')"
  by (simp add: is_digit_def)

lemma unat_limits [simp]: "unat (0x7FFFFFFFFFFFFFFF + 1 :: 64 word) = 2 ^ 63" "unat (0x7FFFFFFFFFFFFFFF :: 64 word) = 2 ^ 63 - 1"
  by simp_all

text \<open>The decimal parser accepts exactly the decimals in the range of a signed 64-bit integer.\<close>

lemma atoi64_sound:
  assumes "ngx_auth_webauthn_credential_atoi64 s = Some v"
  shows "\<exists>ds. ds \<noteq> [] \<and> list_all is_digit ds
    \<and> (s = ds \<and> sint v = int (read_nat 0 ds) \<or> s = CHR ''-'' # ds \<and> sint v = - int (read_nat 0 ds))"
proof (cases s)
  case (Cons c r)
  show ?thesis
  proof (cases "c = CHR ''-''")
    case True
    with assms Cons obtain w where w: "atoi64_loop (0x7FFFFFFFFFFFFFFF + 1) r 0 = Some w" "v = - w" "r \<noteq> []"
      by (auto simp: ngx_auth_webauthn_credential_atoi64_def split: if_splits)
    from w(1) have "list_all is_digit r" "unat w \<le> 2 ^ 63" "unat w = read_nat 0 r"
      by (simp_all add: atoi64_loop_iff)
    moreover have "v = word_of_int (- int (unat w))" using w(2) by simp
    ultimately show ?thesis using Cons True w(3) sint_word_of_int [of "- int (unat w)"] by auto
  next
    case False
    with assms Cons have w: "atoi64_loop 0x7FFFFFFFFFFFFFFF s 0 = Some v"
      by (simp add: ngx_auth_webauthn_credential_atoi64_def)
    then have "list_all is_digit s" "unat v \<le> 2 ^ 63 - 1" "unat v = read_nat 0 s"
      by (simp_all add: atoi64_loop_iff)
    moreover from this have "- (2 ^ 63) \<le> int (unat v)" "int (unat v) < 2 ^ 63" by simp_all
    moreover have "sint v = sint (word_of_int (int (unat v)) :: 64 word)" by simp
    ultimately have "sint v = int (read_nat 0 s)"
      using sint_word_of_int [of "int (unat v)"] by metis
    with \<open>list_all is_digit s\<close> Cons show ?thesis by (intro exI [of _ s]) simp
  qed
qed (use assms in \<open>simp add: ngx_auth_webauthn_credential_atoi64_def\<close>)

lemma atoi64_digits:
  assumes "list_all is_digit ds" and "ds \<noteq> []" and "read_nat 0 ds < 2 ^ 63"
  shows "ngx_auth_webauthn_credential_atoi64 ds = Some (of_nat (read_nat 0 ds))"
proof -
  have "unat (of_nat (read_nat 0 ds) :: 64 word) = read_nat 0 ds"
    using assms(3) by (simp add: unat_of_nat take_bit_eq_mod)
  with assms have "atoi64_loop 0x7FFFFFFFFFFFFFFF ds 0 = Some (of_nat (read_nat 0 ds))"
    by (subst atoi64_loop_iff) simp_all
  moreover obtain c r where "ds = c # r" "c \<noteq> CHR ''-''"
    using assms(1,2) minus_not_digit by (cases ds) fastforce+
  ultimately show ?thesis by (simp add: ngx_auth_webauthn_credential_atoi64_def del: atoi64_loop.simps)
qed

lemma atoi64_show_nat: "n < 2 ^ 63 \<Longrightarrow> ngx_auth_webauthn_credential_atoi64 (show_nat n) = Some (of_nat n)"
  using atoi64_digits [of "show_nat n"] by (simp add: show_nat_digits read_show_nat)

lemma atoi64_show_int:
  assumes "- (2 ^ 63) \<le> i" and "i < 2 ^ 63"
  shows "ngx_auth_webauthn_credential_atoi64 (show_int i) = Some (word_of_int i)"
proof (cases "i < 0")
  case True
  define n where "n = nat (- i)"
  have n: "n \<le> 2 ^ 63" using assms(1) by (simp add: n_def nat_le_iff)
  then have "unat (of_nat n :: 64 word) = n" by (simp add: unat_of_nat take_bit_eq_mod)
  then have "atoi64_loop (0x7FFFFFFFFFFFFFFF + 1) (show_nat n) 0 = Some (of_nat n)"
    using n by (subst atoi64_loop_iff) (simp_all add: show_nat_digits read_show_nat)
  moreover have "- (of_nat n :: 64 word) = word_of_int i" using True by (simp add: n_def)
  ultimately show ?thesis
    using True by (simp add: show_int_def n_def [symmetric] ngx_auth_webauthn_credential_atoi64_def)
next
  case False
  then show ?thesis using assms atoi64_show_nat [of "nat i"] by (simp add: show_int_def)
qed

lemma atoi64_show_sint: "ngx_auth_webauthn_credential_atoi64 (show_int (sint v)) = Some v"
proof -
  have "- (2 ^ 63) \<le> sint v" "sint v < 2 ^ 63" using sint_ge [of v] sint_lt [of v] by simp_all
  from atoi64_show_int [OF this] show ?thesis by (simp only: of_int_sint scast_id)
qed

lemma atoi64_show_sint32: "ngx_auth_webauthn_credential_atoi64 (show_int (sint (v :: 32 word))) = Some (scast v)"
proof -
  have "- (2 ^ 31) \<le> sint v" "sint v < 2 ^ 31" using sint_ge [of v] sint_lt [of v] by simp_all
  then have "- (2 ^ 63) \<le> sint v" "sint v < 2 ^ 63" by simp_all
  from atoi64_show_int [OF this] show ?thesis by (simp only: scast_eq)
qed

section \<open>Reading a record back\<close>

text \<open>What a hash says, whatever the order of its fields: \<open>None\<close> if \<open>alg\<close> or \<open>sign_count\<close> is not a
  number in range.\<close>

definition alg_ok :: "bytes \<Rightarrow> bool" where
  "alg_ok val = (case ngx_auth_webauthn_credential_atoi64 val of
     None \<Rightarrow> False | Some v \<Rightarrow> - (2 ^ 31) \<le> sint v \<and> sint v \<le> 2 ^ 31 - 1)"

definition count_ok :: "bytes \<Rightarrow> bool" where
  "count_ok val = (case ngx_auth_webauthn_credential_atoi64 val of
     None \<Rightarrow> False | Some v \<Rightarrow> 0 \<le> sint v \<and> sint v \<le> 2 ^ 32 - 1)"

definition number_of :: "bytes \<Rightarrow> 64 word option" where
  "number_of val = ngx_auth_webauthn_credential_atoi64 val"

definition fill :: "(bytes \<Rightarrow> bytes option) \<Rightarrow> credential \<Rightarrow> credential" where
  "fill m out =
     \<lparr> cred_credential_id = cred_credential_id out,
       cred_user_id = (case m ''user_id'' of None \<Rightarrow> cred_user_id out | Some v \<Rightarrow> v),
       cred_public_key = (case m ''public_key'' of None \<Rightarrow> cred_public_key out | Some v \<Rightarrow> v),
       cred_alg = (case Option.bind (m ''alg'') number_of of None \<Rightarrow> cred_alg out | Some v \<Rightarrow> ucast v),
       cred_sign_count = (case Option.bind (m ''sign_count'') number_of of None \<Rightarrow> cred_sign_count out | Some v \<Rightarrow> ucast v),
       cred_created_at = (case Option.bind (m ''created_at'') number_of of None \<Rightarrow> cred_created_at out | Some v \<Rightarrow> v),
       cred_last_used_at = (case Option.bind (m ''last_used_at'') number_of of None \<Rightarrow> cred_last_used_at out | Some v \<Rightarrow> v),
       cred_aaguid = (case m ''aaguid'' of Some v \<Rightarrow> if length v = 16 then v else cred_aaguid out | None \<Rightarrow> cred_aaguid out),
       cred_has_aaguid = (case m ''aaguid'' of Some v \<Rightarrow> length v = 16 \<or> cred_has_aaguid out | None \<Rightarrow> cred_has_aaguid out),
       cred_transports = (case m ''transports'' of None \<Rightarrow> cred_transports out | Some v \<Rightarrow> v) \<rparr>"

definition bad_field :: "bytes \<times> bytes \<Rightarrow> bool" where
  "bad_field p \<longleftrightarrow> fst p = ''alg'' \<and> \<not> alg_ok (snd p) \<or> fst p = ''sign_count'' \<and> \<not> count_ok (snd p)"

lemma credential_field_eq:
  "credential_field n val out = (if bad_field (n, val) then None else Some (fill [n \<mapsto> val] out))"
  by (auto simp: credential_field_def bad_field_def alg_ok_def count_ok_def fill_def number_of_def
      split: option.splits)

lemma fill_sels:
  "cred_credential_id (fill m out) = cred_credential_id out"
  "cred_user_id (fill m out) = (case m ''user_id'' of None \<Rightarrow> cred_user_id out | Some v \<Rightarrow> v)"
  "cred_public_key (fill m out) = (case m ''public_key'' of None \<Rightarrow> cred_public_key out | Some v \<Rightarrow> v)"
  "cred_alg (fill m out) = (case Option.bind (m ''alg'') number_of of None \<Rightarrow> cred_alg out | Some v \<Rightarrow> ucast v)"
  "cred_sign_count (fill m out) = (case Option.bind (m ''sign_count'') number_of of None \<Rightarrow> cred_sign_count out | Some v \<Rightarrow> ucast v)"
  "cred_created_at (fill m out) = (case Option.bind (m ''created_at'') number_of of None \<Rightarrow> cred_created_at out | Some v \<Rightarrow> v)"
  "cred_last_used_at (fill m out) = (case Option.bind (m ''last_used_at'') number_of of None \<Rightarrow> cred_last_used_at out | Some v \<Rightarrow> v)"
  "cred_aaguid (fill m out) = (case m ''aaguid'' of Some v \<Rightarrow> if length v = 16 then v else cred_aaguid out | None \<Rightarrow> cred_aaguid out)"
  "cred_has_aaguid (fill m out) = (case m ''aaguid'' of Some v \<Rightarrow> length v = 16 \<or> cred_has_aaguid out | None \<Rightarrow> cred_has_aaguid out)"
  "cred_transports (fill m out) = (case m ''transports'' of None \<Rightarrow> cred_transports out | Some v \<Rightarrow> v)"
  by (simp_all add: fill_def)

lemma fill_fill: "m n = None \<Longrightarrow> fill m (fill [n \<mapsto> v] out) = fill (m(n \<mapsto> v)) out"
  by (rule credential.equality) (auto simp: fill_sels split: option.splits if_splits)

lemma credential_fields_eq:
  assumes "distinct (map fst pairs)"
  shows "credential_fields pairs out = (if \<exists>p \<in> set pairs. bad_field p then None else Some (fill (map_of pairs) out))"
  using assms
proof (induction pairs arbitrary: out)
  case Nil
  show ?case by (simp add: fill_def)
next
  case (Cons p pairs)
  obtain n v where p: "p = (n, v)" by force
  with Cons.prems have "map_of pairs n = None" by (auto simp: map_of_eq_None_iff)
  then have f: "fill (map_of pairs) (fill [n \<mapsto> v] out) = fill ((map_of pairs)(n \<mapsto> v)) out" by (rule fill_fill)
  have m: "map_of (p # pairs) = (map_of pairs)(n \<mapsto> v)" by (simp add: p fun_eq_iff)
  have "credential_fields (p # pairs) out =
      (if bad_field p then None
       else if \<exists>p \<in> set pairs. bad_field p then None else Some (fill (map_of pairs) (fill [n \<mapsto> v] out)))"
    using p Cons by (simp add: credential_field_eq)
  then show ?case unfolding m f [symmetric] by simp
qed

text \<open>The record a hash represents for credential \<open>cid\<close>.\<close>

definition credential_of :: "bytes \<Rightarrow> (bytes \<times> bytes) list \<Rightarrow> credential option" where
  "credential_of cid h =
     (if \<exists>p \<in> set h. bad_field p then None
      else
        let out = fill (map_of h) (credential_zero\<lparr> cred_credential_id := cid \<rparr>) in
        if cred_public_key out = [] \<or> cred_alg out = 0 then None else Some out)"

lemma credential_of_perm:
  assumes "mset xs = mset h" and "distinct (map fst h)"
  shows "credential_of cid xs = credential_of cid h" and "distinct (map fst xs)"
proof -
  have s: "set xs = set h" using assms(1) by (metis set_mset_mset)
  have "mset (map fst xs) = mset (map fst h)" using assms(1) by (simp add: mset_map)
  then show d: "distinct (map fst xs)" using assms(2) mset_eq_imp_distinct_iff by blast
  then have "map_of xs = map_of h" using assms(2) s map_of_inject_set by blast
  with s show "credential_of cid xs = credential_of cid h" by (simp add: credential_of_def)
qed

text \<open>What \<open>ngx_auth_webauthn_credential_put\<close> writes reads back as the record.\<close>

definition credential_wf :: "credential \<Rightarrow> bool" where
  "credential_wf cred \<longleftrightarrow>
     cred_credential_id cred \<noteq> [] \<and> cred_user_id cred \<noteq> [] \<and> cred_public_key cred \<noteq> [] \<and> cred_alg cred \<noteq> 0
     \<and> (if cred_has_aaguid cred then length (cred_aaguid cred) = 16 else cred_aaguid cred = replicate 16 (CHR 0x00))"

lemma alg_ok_show: "alg_ok (show_int (sint (a :: 32 word)))"
proof -
  have b: "- (2 ^ 31) \<le> sint a" "sint a < 2 ^ 31" using sint_ge [of a] sint_lt [of a] by simp_all
  then have "sint (scast a :: 64 word) = sint a"
    using sint_word_of_int [of "sint a"] by (simp only: scast_eq) simp
  with b show ?thesis by (simp add: alg_ok_def atoi64_show_sint32)
qed

lemma count_number: "number_of (show_nat (unat (n :: 32 word))) = Some (ucast n)"
proof -
  have "unat n < 2 ^ 32" using unsigned_less [of n, where ?'a = nat] by simp
  then have "unat n < 2 ^ 63" by simp
  from atoi64_show_nat [OF this] show ?thesis by (simp add: number_of_def)
qed

lemma count_ok_show: "count_ok (show_nat (unat (n :: 32 word)))"
proof -
  have n: "unat n < 2 ^ 32" using unsigned_less [of n, where ?'a = nat] by simp
  have u: "uint n < 2 ^ 32" using unsigned_less [of n, where ?'a = int] by simp
  then have "sint (word_of_int (int (unat n)) :: 64 word) = int (unat n)"
    by (intro sint_word_of_int) (simp_all add: order_trans [of _ 0])
  with u show ?thesis using count_number [of n] by (simp add: count_ok_def number_of_def)
qed

lemma alg_number: "Option.bind (Some (show_int (sint (a :: 32 word)))) number_of = Some (scast a)"
  by (simp add: number_of_def atoi64_show_sint32)

lemma ucast_scast: "(ucast (scast (a :: 32 word) :: 64 word) :: 32 word) = a"
  by (rule bit_word_eqI) (simp add: bit_simps)

lemma ucast_ucast: "(ucast (ucast (a :: 32 word) :: 64 word) :: 32 word) = a"
  by (rule bit_word_eqI) (simp add: bit_simps)

lemmas number_simps = alg_ok_show count_ok_show count_number ucast_scast ucast_ucast
  number_of_def atoi64_show_sint atoi64_show_sint32

lemma distinct_credential_pairs: "distinct (map fst (credential_pairs cred))"
  by (simp add: credential_pairs_def ngx_auth_webauthn_credential_num_pair_def)

lemma credential_of_pairs:
  assumes "credential_wf cred"
  shows "credential_of (cred_credential_id cred) (credential_pairs cred) = Some cred"
  using assms count_number [of "cred_sign_count cred"]
  by (cases cred) (auto simp: credential_of_def credential_pairs_def ngx_auth_webauthn_credential_num_pair_def
      bad_field_def number_simps fill_def credential_zero_def credential_wf_def Let_def)

lemma bad_fields_map:
  assumes "distinct (map fst h)"
  shows "(\<exists>p \<in> set h. bad_field p) \<longleftrightarrow>
     (\<exists>v. map_of h ''alg'' = Some v \<and> \<not> alg_ok v) \<or> (\<exists>v. map_of h ''sign_count'' = Some v \<and> \<not> count_ok v)"
  using assms by (auto simp: bad_field_def intro: bexI [of _ "(''alg'', _)"] bexI [of _ "(''sign_count'', _)"])

lemma credential_of_update:
  assumes "distinct (map fst h)" and "credential_of cid h = Some r"
  shows "credential_of cid (hset_fields (counter_pairs n t) h) = Some (r\<lparr> cred_sign_count := n, cred_last_used_at := t \<rparr>)"
proof -
  let ?h = "hset_fields (counter_pairs n t) h"
  have m: "map_of ?h = (map_of h)(''sign_count'' \<mapsto> show_nat (unat n), ''last_used_at'' \<mapsto> show_int (sint t))"
    by (simp add: map_of_hset_fields counter_pairs_def ngx_auth_webauthn_credential_num_pair_def map_add_def
        fun_eq_iff)
  have d: "distinct (map fst ?h)" using assms(1) by (rule distinct_hset_fields)
  have "\<not> (\<exists>p \<in> set h. bad_field p)" using assms(2) by (simp add: credential_of_def split: if_splits)
  then have b: "\<not> (\<exists>p \<in> set ?h. bad_field p)"
    unfolding bad_fields_map [OF d] bad_fields_map [OF assms(1)] by (simp add: m count_ok_show)
  have "fill (map_of ?h) o' = (fill (map_of h) o')\<lparr> cred_sign_count := n, cred_last_used_at := t \<rparr>" for o'
    using count_number [of n] by (simp add: m fill_def number_of_def atoi64_show_sint ucast_ucast)
  with b assms(2) show ?thesis by (auto simp: credential_of_def Let_def split: if_splits)
qed

text \<open>Writing a record over another one: every field the new record has is replaced; the transports stay if
  the new record has none.\<close>

lemma credential_of_overwrite:
  assumes "distinct (map fst h)" and "credential_wf cred" and "cred_has_aaguid cred"
  shows "\<exists>tr. credential_of (cred_credential_id cred) (hset_fields (credential_pairs cred) h) = Some (cred\<lparr> cred_transports := tr \<rparr>)
     \<and> (h = [] \<or> cred_transports cred \<noteq> [] \<longrightarrow> tr = cred_transports cred)"
proof -
  let ?h = "hset_fields (credential_pairs cred) h" and ?ps = "credential_pairs cred"
  have m: "map_of ?h = map_of h ++ map_of ?ps"
    using distinct_credential_pairs [of cred] map_of_inject_set [of "rev ?ps" ?ps]
    by (simp add: map_of_hset_fields rev_map [symmetric])
  have f: "map_of ?h ''user_id'' = Some (cred_user_id cred)" "map_of ?h ''public_key'' = Some (cred_public_key cred)"
    "map_of ?h ''alg'' = Some (show_int (sint (cred_alg cred)))"
    "map_of ?h ''sign_count'' = Some (show_nat (unat (cred_sign_count cred)))"
    "map_of ?h ''created_at'' = Some (show_int (sint (cred_created_at cred)))"
    "map_of ?h ''last_used_at'' = Some (show_int (sint (cred_last_used_at cred)))"
    "map_of ?h ''aaguid'' = Some (take 16 (cred_aaguid cred))"
    unfolding m using assms(3) by (simp_all add: map_add_def credential_pairs_def ngx_auth_webauthn_credential_num_pair_def)
  have t: "h = [] \<or> cred_transports cred \<noteq> [] \<Longrightarrow>
      map_of ?h ''transports'' = (if cred_transports cred = [] then None else Some (cred_transports cred))"
    unfolding m by (auto simp: map_add_def credential_pairs_def ngx_auth_webauthn_credential_num_pair_def)
  have "\<not> (\<exists>p \<in> set ?h. bad_field p)"
    unfolding bad_fields_map [OF distinct_hset_fields [OF assms(1)]] by (simp add: f alg_ok_show count_ok_show)
  moreover have "fill (map_of ?h) (credential_zero\<lparr> cred_credential_id := cred_credential_id cred \<rparr>) =
      cred\<lparr> cred_transports := (case map_of ?h ''transports'' of None \<Rightarrow> [] | Some v \<Rightarrow> v) \<rparr>"
  proof -
    note ns = credential_zero_def alg_number number_of_def atoi64_show_sint atoi64_show_sint32 ucast_scast ucast_ucast
      count_number [of "cred_sign_count cred", unfolded number_of_def]
    show ?thesis using assms(2,3)
      by (intro credential.equality) (simp_all add: fill_def f credential_wf_def ns split: option.splits)
  qed
  ultimately show ?thesis
    using assms(2) t by (intro exI [of _ "case map_of ?h ''transports'' of None \<Rightarrow> [] | Some v \<Rightarrow> v"])
      (auto simp: credential_of_def Let_def credential_wf_def)
qed

lemma credential_of_counter_only: "credential_of cid (hset_fields (counter_pairs n t) []) = None"
  by (simp add: credential_of_def Let_def map_of_hset_fields counter_pairs_def
      ngx_auth_webauthn_credential_num_pair_def fill_def credential_zero_def)

section \<open>The store on a Redis server\<close>

definition cred_key :: "bytes \<Rightarrow> bytes \<Rightarrow> bytes" where
  "cred_key prefix cid = prefix @ ''cred:'' @ cid"

definition index_key :: "bytes \<Rightarrow> bytes \<Rightarrow> bytes" where
  "index_key prefix uid = prefix @ ''user:'' @ uid @ '':creds''"

lemma cred_key_inject [simp]: "cred_key prefix a = cred_key prefix b \<longleftrightarrow> a = b"
  by (simp add: cred_key_def)

lemma index_key_inject [simp]: "index_key prefix a = index_key prefix b \<longleftrightarrow> a = b"
  by (simp add: index_key_def)

lemma cred_key_index_key [simp]: "cred_key prefix a \<noteq> index_key prefix b" "index_key prefix b \<noteq> cred_key prefix a"
  by (simp_all add: cred_key_def index_key_def)

lemma record_key_Some:
  "ngx_auth_webauthn_credential_record_key pool prefix cid = Some k \<Longrightarrow> k = cred_key prefix cid"
  by (auto simp: ngx_auth_webauthn_credential_record_key_def cred_key_def Let_def split: if_splits)

lemma index_key_Some:
  "ngx_auth_webauthn_credential_index_key pool prefix uid = Some k \<Longrightarrow> k = index_key prefix uid"
  by (auto simp: ngx_auth_webauthn_credential_index_key_def index_key_def Let_def split: if_splits)

text \<open>The shape the program keeps its own keys in: records are hashes, indexes are sets, neither
  expires.\<close>

definition cred_inv :: "bytes \<Rightarrow> rdb \<Rightarrow> bool" where
  "cred_inv prefix db \<longleftrightarrow>
     (\<forall>cid v e. db (cred_key prefix cid) = Some (v, e) \<longrightarrow> e = None \<and> (\<exists>h. v = RHash h \<and> h \<noteq> [] \<and> distinct (map fst h)))
     \<and> (\<forall>uid v e. db (index_key prefix uid) = Some (v, e) \<longrightarrow> e = None \<and> (\<exists>xs. v = RSet xs))"

definition cred_abs :: "bytes \<Rightarrow> rdb \<Rightarrow> bytes \<Rightarrow> credential option" where
  "cred_abs prefix db cid =
     (case db (cred_key prefix cid) of Some (RHash h, _) \<Rightarrow> credential_of cid h | _ \<Rightarrow> None)"

definition cred_index :: "bytes \<Rightarrow> rdb \<Rightarrow> bytes \<Rightarrow> bytes set" where
  "cred_index prefix db uid = (case db (index_key prefix uid) of Some (RSet xs, _) \<Rightarrow> set xs | _ \<Rightarrow> {})"

definition hash_at :: "rdb \<Rightarrow> bytes \<Rightarrow> (bytes \<times> bytes) list" where
  "hash_at db k = (case db k of Some (RHash h, _) \<Rightarrow> h | _ \<Rightarrow> [])"

lemma cred_inv_entry:
  assumes "cred_inv prefix db"
  shows "entry t db (cred_key prefix cid) = db (cred_key prefix cid)"
    and "entry t db (index_key prefix uid) = db (index_key prefix uid)"
  using assms unfolding cred_inv_def entry_def
  by (fastforce simp: expired_def split: option.splits)+

lemma cred_inv_cases:
  assumes "cred_inv prefix db"
  obtains "db (cred_key prefix cid) = None" | h where "db (cred_key prefix cid) = Some (RHash h, None)" "h \<noteq> []"
    "distinct (map fst h)"
  using assms unfolding cred_inv_def by (cases "db (cred_key prefix cid)") (blast, metis surj_pair)

lemma index_inv_cases:
  assumes "cred_inv prefix db"
  obtains "db (index_key prefix uid) = None" | xs where "db (index_key prefix uid) = Some (RSet xs, None)"
  using assms unfolding cred_inv_def by (cases "db (index_key prefix uid)") (blast, metis surj_pair)

lemma HSET_cred:
  assumes "cred_inv prefix db" and "redis_exec t (''HSET'' # cred_key prefix cid # hset_args ps) db = (rep, db')"
    and "ps \<noteq> []"
  shows "db' = db(cred_key prefix cid := Some (RHash (hset_fields ps (hash_at db (cred_key prefix cid))), None))"
  using assms(1)
proof (cases rule: cred_inv_cases [where cid = cid])
  case 1
  with assms show ?thesis by (simp add: exec_HSET cred_inv_entry hash_at_def)
next
  case (2 h)
  with assms show ?thesis by (simp add: exec_HSET cred_inv_entry hash_at_def)
qed

lemma cred_inv_hset:
  assumes "cred_inv prefix db" and "ps \<noteq> []"
  shows "cred_inv prefix (db(cred_key prefix cid := Some (RHash (hset_fields ps (hash_at db (cred_key prefix cid))), None)))"
proof -
  have "distinct (map fst (hash_at db (cred_key prefix cid)))"
    using assms(1) by (cases rule: cred_inv_cases [where cid = cid]) (simp_all add: hash_at_def)
  then have "distinct (map fst (hset_fields ps (hash_at db (cred_key prefix cid))))" by (rule distinct_hset_fields)
  moreover have "hset_fields ps h \<noteq> []" for h
  proof
    assume "hset_fields ps h = []"
    then have "map_of h ++ map_of (rev ps) = Map.empty" by (metis map_of_hset_fields map_of.simps(1))
    then show False using assms(2) by (cases ps) (auto simp: map_add_eq_empty_iff)
  qed
  ultimately show ?thesis using assms(1) by (auto simp: cred_inv_def)
qed

lemma cred_abs_upd:
  "cred_abs prefix (db(cred_key prefix cid := Some (RHash h, e))) = (cred_abs prefix db)(cid := credential_of cid h)"
  "cred_abs prefix (db(cred_key prefix cid := None)) = (cred_abs prefix db)(cid := None)"
  "cred_abs prefix (db(index_key prefix uid := x)) = cred_abs prefix db"
  by (auto simp: cred_abs_def fun_eq_iff)

lemma cred_index_upd:
  "cred_index prefix (db(cred_key prefix cid := x)) = cred_index prefix db"
  "cred_index prefix (db(index_key prefix uid := Some (RSet xs, e))) = (cred_index prefix db)(uid := set xs)"
  "cred_index prefix (db(index_key prefix uid := None)) = (cred_index prefix db)(uid := {})"
  by (auto simp: cred_index_def fun_eq_iff)

lemma cred_inv_del: "cred_inv prefix db \<Longrightarrow> cred_inv prefix (db(cred_key prefix cid := None))"
  by (auto simp: cred_inv_def)

lemma SADD_index:
  assumes "cred_inv prefix db" and "redis_exec t [''SADD'', index_key prefix uid, x] db = (rep, db')"
  shows "cred_inv prefix db' \<and> cred_abs prefix db' = cred_abs prefix db
     \<and> cred_index prefix db' = (cred_index prefix db)(uid := insert x (cred_index prefix db uid))
     \<and> (\<forall>cid. db' (cred_key prefix cid) = db (cred_key prefix cid))"
  using assms(1)
proof (cases rule: index_inv_cases [where uid = uid])
  case 1
  with assms have e: "db' = db(index_key prefix uid := Some (RSet [x], None))"
    by (simp add: exec_SADD redis_exec2_def cred_inv_entry)
  show ?thesis unfolding e using 1 assms(1) by (auto simp: cred_abs_upd cred_index_upd cred_inv_def cred_index_def fun_eq_iff)
next
  case (2 xs)
  with assms have e: "db' = (if x \<in> set xs then db else db(index_key prefix uid := Some (RSet (x # xs), None)))"
    by (auto simp: exec_SADD redis_exec2_def cred_inv_entry split: if_splits)
  show ?thesis unfolding e using 2 assms(1) by (auto simp: cred_abs_upd cred_index_upd cred_inv_def cred_index_def fun_eq_iff)
qed

lemma SREM_index:
  assumes "cred_inv prefix db" and "redis_exec t [''SREM'', index_key prefix uid, x] db = (rep, db')"
  shows "cred_inv prefix db' \<and> cred_abs prefix db' = cred_abs prefix db
     \<and> cred_index prefix db' = (cred_index prefix db)(uid := cred_index prefix db uid - {x})
     \<and> (\<forall>cid. db' (cred_key prefix cid) = db (cred_key prefix cid))"
  using assms(1)
proof (cases rule: index_inv_cases [where uid = uid])
  case 1
  with assms have e: "db' = db" by (simp add: exec_SREM redis_exec2_def cred_inv_entry)
  show ?thesis unfolding e using 1 assms(1) by (auto simp: cred_index_def fun_eq_iff)
next
  case (2 xs)
  with assms have e: "db' = db(index_key prefix uid :=
      (if removeAll x xs = [] then None else Some (RSet (removeAll x xs), None)))"
    by (simp add: exec_SREM redis_exec2_def cred_inv_entry Let_def)
  have "removeAll x xs = [] \<longleftrightarrow> set xs - {x} = {}" by (metis set_empty set_removeAll)
  then show ?thesis unfolding e using 2 assms(1)
    by (auto simp: cred_abs_upd cred_index_upd cred_inv_def cred_index_def fun_eq_iff)
qed

context redis_server
begin

lemma get_contract:
  assumes "ngx_auth_webauthn_credential_get hi (Some rd) (Some pool) (Some prefix) (Some cid) (Some o') s = (rc, out, s')"
    and "rd_ctx rd = Some c" and "cred_inv prefix (dbs s (sel s c))"
  shows "keeps c s s'" and "dbs s' = dbs s"
    and "rc = NGX_OK \<Longrightarrow> out \<noteq> None \<and> cred_abs prefix (dbs s (sel s c)) cid = out"
    and "rc = NGX_DECLINED \<Longrightarrow> cred_abs prefix (dbs s (sel s c)) cid = None"
proof -
  let ?k = "cred_key prefix cid" and ?db = "dbs s (sel s c)"
  let ?zero = "credential_zero\<lparr> cred_credential_id := cid \<rparr>"
  obtain rc1 ps s1 where g: "ngx_auth_webauthn_redis_hgetall hi (Some rd) (Some pool) (Some ?k) (Some []) s = (rc1, ps, s1)"
    by (metis surj_pair)
  note hg = hgetall_contract [OF g assms(2)]
  define res where "res = (if rc1 \<noteq> NGX_OK then NGX_ERROR
     else if the ps = [] then NGX_DECLINED
     else case credential_fields (the ps) ?zero of None \<Rightarrow> NGX_DECLINED
      | Some r \<Rightarrow> if cred_public_key r = [] \<or> cred_alg r = 0 then NGX_DECLINED else NGX_OK)"
  have cases: "s' = s \<and> rc = NGX_ERROR
    \<or> s' = s1 \<and> rc = res \<and> (rc = NGX_OK \<longrightarrow> out = credential_fields (the ps) ?zero)"
    using assms(1) g
    by (auto simp: ngx_auth_webauthn_credential_get_def res_def Let_def dest!: record_key_Some index_key_Some split: option.splits if_splits)
  show "keeps c s s'" "dbs s' = dbs s" using cases hg by auto
  have "(rc = NGX_OK \<longrightarrow> out \<noteq> None \<and> cred_abs prefix ?db cid = out) \<and> (rc = NGX_DECLINED \<longrightarrow> cred_abs prefix ?db cid = None)"
  proof (cases "s' = s1 \<and> rc = res \<and> rc1 = NGX_OK")
    case True
    with hg(4) obtain t xs where xs: "ps = Some xs" "live t ?db ?k = None \<and> xs = []
        \<or> (\<exists>h. live t ?db ?k = Some (RHash h) \<and> mset xs = mset h)" by blast
    show ?thesis
      using assms(3)
    proof (cases rule: cred_inv_cases [where cid = cid])
      case 1
      then have "xs = []" using xs(2) by (auto simp: live_def cred_inv_entry [OF assms(3)])
      then show ?thesis using True xs(1) 1 by (auto simp: res_def cred_abs_def)
    next
      case (2 h)
      then have m: "mset xs = mset h" using xs(2) by (auto simp: live_def cred_inv_entry [OF assms(3)])
      then have ne: "xs \<noteq> []" using 2(2) by auto
      note p = credential_of_perm(1) [OF m 2(3), of cid] credential_of_perm(2) [OF m 2(3)]
      have "cred_abs prefix ?db cid = credential_of cid xs" using 2 p by (simp add: cred_abs_def)
      then show ?thesis using True xs(1) ne cases
        by (auto simp: res_def credential_of_def credential_fields_eq [OF p(2)] Let_def split: if_splits)
    qed
  qed (use cases in \<open>auto simp: res_def\<close>)
  then show "rc = NGX_OK \<Longrightarrow> out \<noteq> None \<and> cred_abs prefix ?db cid = out"
    and "rc = NGX_DECLINED \<Longrightarrow> cred_abs prefix ?db cid = None" by blast+
qed

definition hset_effect :: "bytes \<Rightarrow> bytes \<Rightarrow> (bytes \<times> bytes) list \<Rightarrow> rdb \<Rightarrow> rdb" where
  "hset_effect prefix cid ps db =
     db(cred_key prefix cid := Some (RHash (hset_fields ps (hash_at db (cred_key prefix cid))), None))"

lemma hset_cred_contract:
  assumes "ngx_auth_webauthn_redis_hset hi (Some rd) (Some (cred_key prefix cid)) (Some ps) (length ps) s = (rc, s')"
    and "rd_ctx rd = Some c" and "ps \<noteq> []" and "cred_inv prefix (dbs s (sel s c))"
  shows "keeps c s s' \<and> rc \<noteq> NGX_DECLINED
     \<and> (rc = NGX_OK \<longrightarrow> dbs s' (sel s c) = hset_effect prefix cid ps (dbs s (sel s c)))
     \<and> (dbs s' (sel s c) = dbs s (sel s c) \<or> dbs s' (sel s c) = hset_effect prefix cid ps (dbs s (sel s c)))"
proof -
  have "dbs s' (sel s c) = hset_effect prefix cid ps (dbs s (sel s c))"
    if "ran (''HSET'' # cred_key prefix cid # hset_args ps) c s s'"
    using that HSET_cred [OF assms(4) _ assms(3)] unfolding ran_def hset_effect_def by blast
  with hset_wrote [OF assms(1-3)] show ?thesis unfolding wrote_def by fastforce
qed

lemma hset_effect_inv: "cred_inv prefix db \<Longrightarrow> ps \<noteq> [] \<Longrightarrow> cred_inv prefix (hset_effect prefix cid ps db)"
  unfolding hset_effect_def by (rule cred_inv_hset)

lemma sadd_index_contract:
  assumes "ngx_auth_webauthn_redis_sadd hi (Some rd) (Some (index_key prefix uid)) (Some x) s = (rc, s')"
    and "rd_ctx rd = Some c" and "cred_inv prefix (dbs s (sel s c))"
  shows "keeps c s s' \<and> cred_inv prefix (dbs s' (sel s c))
     \<and> (\<forall>cid. dbs s' (sel s c) (cred_key prefix cid) = dbs s (sel s c) (cred_key prefix cid))
     \<and> (rc = NGX_OK \<longrightarrow> x \<in> cred_index prefix (dbs s' (sel s c)) uid)"
proof -
  have r: "cred_inv prefix (dbs s' (sel s c)) \<and> x \<in> cred_index prefix (dbs s' (sel s c)) uid
     \<and> (\<forall>cid. dbs s' (sel s c) (cred_key prefix cid) = dbs s (sel s c) (cred_key prefix cid))"
    if "ran [''SADD'', index_key prefix uid, x] c s s'"
  proof -
    from that obtain t rep where "redis_exec t [''SADD'', index_key prefix uid, x] (dbs s (sel s c)) = (rep, dbs s' (sel s c))"
      unfolding ran_def by blast
    from SADD_index [OF assms(3) this] show ?thesis by auto
  qed
  show ?thesis using sadd_wrote [OF assms(1,2)] assms(3) r unfolding wrote_def by fastforce
qed

lemma srem_index_contract:
  assumes "ngx_auth_webauthn_redis_srem hi (Some rd) (Some (index_key prefix uid)) (Some x) s = (rc, s')"
    and "rd_ctx rd = Some c" and "cred_inv prefix (dbs s (sel s c))"
  shows "keeps c s s' \<and> cred_inv prefix (dbs s' (sel s c))
     \<and> (\<forall>cid. dbs s' (sel s c) (cred_key prefix cid) = dbs s (sel s c) (cred_key prefix cid))
     \<and> (rc = NGX_OK \<longrightarrow> x \<notin> cred_index prefix (dbs s' (sel s c)) uid)"
proof -
  have r: "cred_inv prefix (dbs s' (sel s c)) \<and> x \<notin> cred_index prefix (dbs s' (sel s c)) uid
     \<and> (\<forall>cid. dbs s' (sel s c) (cred_key prefix cid) = dbs s (sel s c) (cred_key prefix cid))"
    if "ran [''SREM'', index_key prefix uid, x] c s s'"
  proof -
    from that obtain t rep where "redis_exec t [''SREM'', index_key prefix uid, x] (dbs s (sel s c)) = (rep, dbs s' (sel s c))"
      unfolding ran_def by blast
    from SREM_index [OF assms(3) this] show ?thesis by auto
  qed
  show ?thesis using srem_wrote [OF assms(1,2)] assms(3) r unfolding wrote_def by fastforce
qed

lemma del_cred_contract:
  assumes "ngx_auth_webauthn_redis_del hi (Some rd) (Some k) s = (rc, s')" and "rd_ctx rd = Some c"
  shows "keeps c s s' \<and> rc \<noteq> NGX_DECLINED \<and> (rc = NGX_OK \<longrightarrow> dbs s' (sel s c) = (dbs s (sel s c))(k := None))
     \<and> (dbs s' (sel s c) = dbs s (sel s c) \<or> dbs s' (sel s c) = (dbs s (sel s c))(k := None))"
  using del_wrote [OF assms] by (auto simp: wrote_def ran_def exec_DEL)

lemma put_contract:
  assumes "ngx_auth_webauthn_credential_put hi (Some rd) (Some pool) (Some prefix) (Some cred) s = (rc, s')"
    and "rd_ctx rd = Some c" and "cred_inv prefix (dbs s (sel s c))"
  shows "keeps c s s' \<and> rc \<noteq> NGX_DECLINED \<and> cred_inv prefix (dbs s' (sel s c))
     \<and> (\<forall>cid. cid \<noteq> cred_credential_id cred \<longrightarrow>
          dbs s' (sel s c) (cred_key prefix cid) = dbs s (sel s c) (cred_key prefix cid))
     \<and> (rc = NGX_OK \<longrightarrow>
          cred_credential_id cred \<in> cred_index prefix (dbs s' (sel s c)) (cred_user_id cred)
          \<and> dbs s' (sel s c) (cred_key prefix (cred_credential_id cred)) =
              hset_effect prefix (cred_credential_id cred) (credential_pairs cred) (dbs s (sel s c))
                (cred_key prefix (cred_credential_id cred)))
     \<and> (dbs s' (sel s c) (cred_key prefix (cred_credential_id cred)) = dbs s (sel s c) (cred_key prefix (cred_credential_id cred))
        \<or> dbs s' (sel s c) (cred_key prefix (cred_credential_id cred)) =
              hset_effect prefix (cred_credential_id cred) (credential_pairs cred) (dbs s (sel s c))
                (cred_key prefix (cred_credential_id cred)))"
proof -
  let ?id = "cred_credential_id cred" and ?uid = "cred_user_id cred" and ?ps = "credential_pairs cred"
  have ps: "?ps \<noteq> []" by (simp add: credential_pairs_def)
  obtain rc1 s1 where h: "ngx_auth_webauthn_redis_hset hi (Some rd) (Some (cred_key prefix ?id)) (Some ?ps) (length ?ps) s
      = (rc1, s1)" by fastforce
  obtain rc2 s2 where a: "ngx_auth_webauthn_redis_sadd hi (Some rd) (Some (index_key prefix ?uid)) (Some ?id) s1
      = (rc2, s2)" by fastforce
  note hc = hset_cred_contract [OF h assms(2) ps assms(3)]
  have frame: "hset_effect prefix ?id ?ps db (cred_key prefix cid) = db (cred_key prefix cid)" if "cid \<noteq> ?id" for cid db
    using that by (simp add: hset_effect_def)
  have sel1: "sel s1 c = sel s c" using hc by (simp add: keeps_def)
  have inv1: "cred_inv prefix (dbs s1 (sel s1 c))" using hc sel1 assms(3) hset_effect_inv [OF assms(3) ps] by metis
  note ac = sadd_index_contract [OF a assms(2) inv1]
  have "s' = s \<and> rc = NGX_ERROR \<or> s' = s1 \<and> rc = NGX_ERROR
      \<or> s' = s2 \<and> rc1 = NGX_OK \<and> rc = (if rc2 = NGX_OK then NGX_OK else NGX_ERROR)"
    using assms(1) h a
    by (auto simp: ngx_auth_webauthn_credential_put_def Let_def dest!: record_key_Some index_key_Some split: option.splits if_splits)
  then show ?thesis
  proof (elim disjE conjE)
    assume "s' = s1" "rc = NGX_ERROR"
    then show ?thesis using hc inv1 sel1 frame by auto
  next
    assume "s' = s2" "rc1 = NGX_OK" "rc = (if rc2 = NGX_OK then NGX_OK else NGX_ERROR)"
    then show ?thesis using hc ac sel1 frame keeps_trans [of c s s1 s2] by (auto split: if_splits)
  qed (use assms(3) in auto)
qed

lemma update_counter_contract:
  assumes "ngx_auth_webauthn_credential_update_counter hi (Some rd) (Some pool) (Some prefix) (Some cid) n t s = (rc, s')"
    and "rd_ctx rd = Some c" and "cred_inv prefix (dbs s (sel s c))"
  shows "keeps c s s' \<and> rc \<noteq> NGX_DECLINED
     \<and> (rc = NGX_OK \<longrightarrow> dbs s' (sel s c) = hset_effect prefix cid (counter_pairs n t) (dbs s (sel s c)))
     \<and> (dbs s' (sel s c) = dbs s (sel s c)
        \<or> dbs s' (sel s c) = hset_effect prefix cid (counter_pairs n t) (dbs s (sel s c)))"
proof -
  have ps: "counter_pairs n t \<noteq> []" "length (counter_pairs n t) = 2" by (simp_all add: counter_pairs_def)
  from assms(1) have "s' = s \<and> rc = NGX_ERROR
      \<or> ngx_auth_webauthn_redis_hset hi (Some rd) (Some (cred_key prefix cid)) (Some (counter_pairs n t))
          (length (counter_pairs n t)) s = (rc, s')"
    by (auto simp: ngx_auth_webauthn_credential_update_counter_def ps dest!: record_key_Some index_key_Some split: option.splits)
  then show ?thesis using hset_cred_contract [OF _ assms(2) ps(1) assms(3)] by auto
qed

lemma delete_contract:
  assumes "ngx_auth_webauthn_credential_delete hi (Some rd) (Some pool) (Some prefix) (Some cid) s = (rc, s')"
    and "rd_ctx rd = Some c" and "cred_inv prefix (dbs s (sel s c))"
  shows "keeps c s s' \<and> cred_inv prefix (dbs s' (sel s c))
     \<and> (\<forall>i. i \<noteq> cid \<longrightarrow> dbs s' (sel s c) (cred_key prefix i) = dbs s (sel s c) (cred_key prefix i))
     \<and> (rc = NGX_DECLINED \<longrightarrow> cred_abs prefix (dbs s (sel s c)) cid = None)
     \<and> (rc = NGX_OK \<longrightarrow> dbs s' (sel s c) (cred_key prefix cid) = None
          \<and> (\<exists>r. cred_abs prefix (dbs s (sel s c)) cid = Some r
               \<and> (cred_user_id r \<noteq> [] \<longrightarrow> cid \<notin> cred_index prefix (dbs s' (sel s c)) (cred_user_id r))))
     \<and> (dbs s' (sel s c) (cred_key prefix cid) = dbs s (sel s c) (cred_key prefix cid) \<or> dbs s' (sel s c) (cred_key prefix cid) = None)"
proof -
  let ?k = "cred_key prefix cid"
  obtain rc1 o1 s1 where g: "ngx_auth_webauthn_credential_get hi (Some rd) (Some pool) (Some prefix) (Some cid)
      (Some credential_zero) s = (rc1, o1, s1)" by (metis surj_pair)
  note gc = get_contract [OF g assms(2,3)]
  have sel1: "sel s1 c = sel s c" and dbs1: "dbs s1 = dbs s" using gc(1,2) by (simp_all add: keeps_def)
  obtain rc2 s2 where d: "ngx_auth_webauthn_redis_del hi (Some rd) (Some ?k) s1 = (rc2, s2)" by fastforce
  note dc = del_cred_contract [OF d assms(2), unfolded sel1 dbs1]
  have sel2: "sel s2 c = sel s c" using dc sel1 by (simp add: keeps_def)
  have inv2: "cred_inv prefix (dbs s2 (sel s2 c))" using dc sel2 assms(3) cred_inv_del [OF assms(3)] by metis
  have ks2: "keeps c s s2" using keeps_trans gc(1) dc by blast
  obtain rc3 s3 where r: "ngx_auth_webauthn_redis_srem hi (Some rd) (Some (index_key prefix (cred_user_id (the o1))))
      (Some cid) s2 = (rc3, s3)" by fastforce
  note rcx = srem_index_contract [OF r assms(2) inv2, unfolded sel2]
  have frame2: "dbs s2 (sel s c) (cred_key prefix i) = dbs s (sel s c) (cred_key prefix i)" if "i \<noteq> cid" for i
    using dc that by auto
  have k2: "dbs s2 (sel s c) ?k = None" if "rc2 = NGX_OK" using dc that by (metis fun_upd_same)
  have k2': "dbs s2 (sel s c) ?k = dbs s (sel s c) ?k \<or> dbs s2 (sel s c) ?k = None" using dc by (metis fun_upd_same)
  have "s' = s1 \<and> (rc = rc1 \<and> rc1 \<noteq> NGX_OK \<or> rc = NGX_ERROR)
      \<or> s' = s2 \<and> rc1 = NGX_OK \<and> (rc = NGX_ERROR \<or> rc2 = NGX_OK \<and> rc = NGX_OK \<and> cred_user_id (the o1) = [])
      \<or> s' = s3 \<and> rc1 = NGX_OK \<and> rc2 = NGX_OK \<and> rc = (if rc3 = NGX_OK then NGX_OK else NGX_ERROR)"
    using assms(1) g d r
    by (auto simp: ngx_auth_webauthn_credential_delete_def Let_def dest!: record_key_Some index_key_Some split: option.splits if_splits)
  then show ?thesis
  proof (elim disjE)
    assume "s' = s1 \<and> (rc = rc1 \<and> rc1 \<noteq> NGX_OK \<or> rc = NGX_ERROR)"
    then show ?thesis using gc dbs1 assms(3) by auto
  next
    assume "s' = s2 \<and> rc1 = NGX_OK \<and> (rc = NGX_ERROR \<or> rc2 = NGX_OK \<and> rc = NGX_OK \<and> cred_user_id (the o1) = [])"
    then show ?thesis using gc(3) k2 k2' ks2 inv2 sel2 frame2 by auto
  next
    assume "s' = s3 \<and> rc1 = NGX_OK \<and> rc2 = NGX_OK \<and> rc = (if rc3 = NGX_OK then NGX_OK else NGX_ERROR)"
    then show ?thesis using gc(3) k2 rcx frame2 keeps_trans [OF ks2, of s3] by auto
  qed
qed

end

section \<open>The contract\<close>

locale credential_store =
  fixes inv :: "'s \<Rightarrow> bool"
    and lookup :: "'s \<Rightarrow> bytes \<Rightarrow> credential option"
    and absent :: "'s \<Rightarrow> bytes \<Rightarrow> bool"
    and members :: "'s \<Rightarrow> bytes \<Rightarrow> bytes set"
    and get :: "bytes \<Rightarrow> 's \<Rightarrow> ngx_int_t \<times> credential option \<times> 's"
    and put :: "credential \<Rightarrow> 's \<Rightarrow> ngx_int_t \<times> 's"
    and update :: "bytes \<Rightarrow> 32 word \<Rightarrow> 64 word \<Rightarrow> 's \<Rightarrow> ngx_int_t \<times> 's"
    and remove :: "bytes \<Rightarrow> 's \<Rightarrow> ngx_int_t \<times> 's"
  assumes get_law: "inv s \<Longrightarrow> get cid s = (rc, out, s') \<Longrightarrow>
      inv s' \<and> lookup s' = lookup s \<and> members s' = members s
      \<and> (rc = NGX_OK \<longrightarrow> out \<noteq> None \<and> lookup s cid = out) \<and> (rc = NGX_DECLINED \<longrightarrow> lookup s cid = None)"
    and put_law: "inv s \<Longrightarrow> put cred s = (rc, s') \<Longrightarrow>
      inv s' \<and> (\<forall>i. i \<noteq> cred_credential_id cred \<longrightarrow> lookup s' i = lookup s i)
      \<and> (rc = NGX_OK \<longrightarrow> cred_credential_id cred \<in> members s' (cred_user_id cred)
           \<and> (absent s (cred_credential_id cred) \<and> credential_wf cred \<longrightarrow> lookup s' (cred_credential_id cred) = Some cred))"
    and update_law: "inv s \<Longrightarrow> update cid n t s = (rc, s') \<Longrightarrow>
      inv s' \<and> members s' = members s \<and> (\<forall>i. i \<noteq> cid \<longrightarrow> lookup s' i = lookup s i)
      \<and> (absent s cid \<longrightarrow> lookup s' cid = None)
      \<and> (\<forall>r. lookup s cid = Some r \<longrightarrow>
           lookup s' cid = Some (r\<lparr> cred_sign_count := n, cred_last_used_at := t \<rparr>)
           \<or> rc = NGX_ERROR \<and> lookup s' cid = Some r)"
    and remove_law: "inv s \<Longrightarrow> remove cid s = (rc, s') \<Longrightarrow>
      inv s' \<and> (\<forall>i. i \<noteq> cid \<longrightarrow> lookup s' i = lookup s i)
      \<and> (rc = NGX_DECLINED \<longrightarrow> lookup s cid = None)
      \<and> (rc = NGX_OK \<longrightarrow> absent s' cid \<and> lookup s' cid = None
           \<and> (\<exists>r. lookup s cid = Some r \<and> (cred_user_id r \<noteq> [] \<longrightarrow> cid \<notin> members s' (cred_user_id r))))"
begin

lemma get_after_put:
  assumes "inv s" and "absent s (cred_credential_id cred)" and "credential_wf cred"
    and "put cred s = (NGX_OK, s1)" and "get (cred_credential_id cred) s1 = (rc, out, s2)"
  shows "rc = NGX_OK \<and> out = Some cred \<or> rc = NGX_ERROR"
  using put_law [OF assms(1,4)] get_law [of s1 "cred_credential_id cred" rc out s2] assms
  by (cases rc) auto

lemma get_after_update:
  assumes "inv s" and "lookup s cid = Some r" and "update cid n t s = (NGX_OK, s1)" and "get cid s1 = (rc, out, s2)"
  shows "rc = NGX_OK \<and> out = Some (r\<lparr> cred_sign_count := n, cred_last_used_at := t \<rparr>) \<or> rc = NGX_ERROR"
  using update_law [OF assms(1,3)] get_law [of s1 cid rc out s2] assms
  by (cases rc) auto

lemma get_after_remove:
  assumes "inv s" and "remove cid s = (NGX_OK, s1)" and "update cid n t s1 = (rc1, s2)" and "get cid s2 = (rc, out, s3)"
  shows "rc \<noteq> NGX_OK"
  using remove_law [OF assms(1,2)] update_law [of s1 cid n t rc1 s2] get_law [of s2 cid rc out s3] assms
  by auto

end

context redis_server
begin

lemma credential_store_laws:
  assumes rd: "rd_ctx rd = Some c"
  shows "credential_store (\<lambda>s. cred_inv prefix (dbs s (sel s c))) (\<lambda>s. cred_abs prefix (dbs s (sel s c)))
     (\<lambda>s cid. dbs s (sel s c) (cred_key prefix cid) = None) (\<lambda>s. cred_index prefix (dbs s (sel s c)))
     (\<lambda>cid. ngx_auth_webauthn_credential_get hi (Some rd) (Some pool) (Some prefix) (Some cid) (Some o'))
     (\<lambda>cred. ngx_auth_webauthn_credential_put hi (Some rd) (Some pool) (Some prefix) (Some cred))
     (\<lambda>cid. ngx_auth_webauthn_credential_update_counter hi (Some rd) (Some pool) (Some prefix) (Some cid))
     (\<lambda>cid. ngx_auth_webauthn_credential_delete hi (Some rd) (Some pool) (Some prefix) (Some cid))"
proof unfold_locales
  fix s cid rc out s'
  assume inv: "cred_inv prefix (dbs s (sel s c))" and
    "ngx_auth_webauthn_credential_get hi (Some rd) (Some pool) (Some prefix) (Some cid) (Some o') s = (rc, out, s')"
  note g = get_contract [OF this(2) rd inv]
  from g(1) have "sel s' c = sel s c" by (simp add: keeps_def)
  with g inv show "cred_inv prefix (dbs s' (sel s' c)) \<and> cred_abs prefix (dbs s' (sel s' c)) = cred_abs prefix (dbs s (sel s c))
      \<and> cred_index prefix (dbs s' (sel s' c)) = cred_index prefix (dbs s (sel s c))
      \<and> (rc = NGX_OK \<longrightarrow> out \<noteq> None \<and> cred_abs prefix (dbs s (sel s c)) cid = out)
      \<and> (rc = NGX_DECLINED \<longrightarrow> cred_abs prefix (dbs s (sel s c)) cid = None)" by simp
next
  fix s cred rc s'
  assume inv: "cred_inv prefix (dbs s (sel s c))" and
    "ngx_auth_webauthn_credential_put hi (Some rd) (Some pool) (Some prefix) (Some cred) s = (rc, s')"
  note p = put_contract [OF this(2) rd inv]
  from p have "sel s' c = sel s c" by (simp add: keeps_def)
  moreover have "credential_of (cred_credential_id cred) (hset_fields (credential_pairs cred) []) = Some cred"
    if "credential_wf cred"
  proof -
    let ?h = "hset_fields (credential_pairs cred) []"
    have d: "distinct (map fst ?h)" by (rule distinct_hset_fields) simp
    have "map_of ?h = map_of (credential_pairs cred)"
      using distinct_credential_pairs [of cred]
        map_of_inject_set [of "rev (credential_pairs cred)" "credential_pairs cred"]
      by (simp add: map_of_hset_fields rev_map [symmetric])
    then have "set ?h = set (credential_pairs cred)"
      using map_of_inject_set [OF d distinct_credential_pairs] by blast
    then have "credential_of cid ?h = credential_of cid (credential_pairs cred)" for cid
      using \<open>map_of ?h = _\<close> by (simp add: credential_of_def)
    with credential_of_pairs [OF that] show ?thesis by simp
  qed
  ultimately show "cred_inv prefix (dbs s' (sel s' c))
      \<and> (\<forall>i. i \<noteq> cred_credential_id cred \<longrightarrow> cred_abs prefix (dbs s' (sel s' c)) i = cred_abs prefix (dbs s (sel s c)) i)
      \<and> (rc = NGX_OK \<longrightarrow> cred_credential_id cred \<in> cred_index prefix (dbs s' (sel s' c)) (cred_user_id cred)
           \<and> (dbs s (sel s c) (cred_key prefix (cred_credential_id cred)) = None \<and> credential_wf cred \<longrightarrow>
                cred_abs prefix (dbs s' (sel s' c)) (cred_credential_id cred) = Some cred))"
    using p by (auto simp: cred_abs_def hset_effect_def hash_at_def)
next
  fix s cid n t rc s'
  assume inv: "cred_inv prefix (dbs s (sel s c))" and
    "ngx_auth_webauthn_credential_update_counter hi (Some rd) (Some pool) (Some prefix) (Some cid) n t s = (rc, s')"
  note u = update_counter_contract [OF this(2) rd inv]
  from u have sel: "sel s' c = sel s c" by (simp add: keeps_def)
  let ?db = "dbs s (sel s c)"
  have e: "cred_abs prefix (hset_effect prefix cid (counter_pairs n t) ?db)
      = (cred_abs prefix ?db)(cid := credential_of cid (hset_fields (counter_pairs n t) (hash_at ?db (cred_key prefix cid))))"
    "cred_index prefix (hset_effect prefix cid (counter_pairs n t) ?db) = cred_index prefix ?db"
    by (simp_all add: hset_effect_def cred_abs_upd cred_index_upd)
  have i: "cred_inv prefix (hset_effect prefix cid (counter_pairs n t) ?db)"
    using hset_effect_inv [OF inv] by (simp add: counter_pairs_def)
  have up: "credential_of cid (hset_fields (counter_pairs n t) (hash_at ?db (cred_key prefix cid)))
      = Some (r\<lparr> cred_sign_count := n, cred_last_used_at := t \<rparr>)" if "cred_abs prefix ?db cid = Some r" for r
    using inv
  proof (cases rule: cred_inv_cases [where cid = cid])
    case 1
    with that show ?thesis by (simp add: cred_abs_def)
  next
    case (2 h)
    with that credential_of_update [OF 2(3), of cid r n t] show ?thesis by (simp add: cred_abs_def hash_at_def)
  qed
  have ab: "credential_of cid (hset_fields (counter_pairs n t) (hash_at ?db (cred_key prefix cid))) = None"
    "cred_abs prefix ?db cid = None" if "?db (cred_key prefix cid) = None"
    using that credential_of_counter_only by (simp_all add: hash_at_def cred_abs_def)
  show "cred_inv prefix (dbs s' (sel s' c)) \<and> cred_index prefix (dbs s' (sel s' c)) = cred_index prefix ?db
      \<and> (\<forall>i. i \<noteq> cid \<longrightarrow> cred_abs prefix (dbs s' (sel s' c)) i = cred_abs prefix ?db i)
      \<and> (?db (cred_key prefix cid) = None \<longrightarrow> cred_abs prefix (dbs s' (sel s' c)) cid = None)
      \<and> (\<forall>r. cred_abs prefix ?db cid = Some r \<longrightarrow>
           cred_abs prefix (dbs s' (sel s' c)) cid = Some (r\<lparr> cred_sign_count := n, cred_last_used_at := t \<rparr>)
           \<or> rc = NGX_ERROR \<and> cred_abs prefix (dbs s' (sel s' c)) cid = Some r)"
  proof (cases "dbs s' (sel s c) = hset_effect prefix cid (counter_pairs n t) ?db")
    case True
    then show ?thesis unfolding sel True using e i up ab by auto
  next
    case False
    with u have "dbs s' (sel s c) = ?db" "rc = NGX_ERROR" by (cases rc; auto)+
    then show ?thesis unfolding sel using inv ab by simp
  qed
next
  fix s cid rc s'
  assume inv: "cred_inv prefix (dbs s (sel s c))" and
    "ngx_auth_webauthn_credential_delete hi (Some rd) (Some pool) (Some prefix) (Some cid) s = (rc, s')"
  note d = delete_contract [OF this(2) rd inv]
  from d have "sel s' c = sel s c" by (simp add: keeps_def)
  with d show "cred_inv prefix (dbs s' (sel s' c))
      \<and> (\<forall>i. i \<noteq> cid \<longrightarrow> cred_abs prefix (dbs s' (sel s' c)) i = cred_abs prefix (dbs s (sel s c)) i)
      \<and> (rc = NGX_DECLINED \<longrightarrow> cred_abs prefix (dbs s (sel s c)) cid = None)
      \<and> (rc = NGX_OK \<longrightarrow> dbs s' (sel s' c) (cred_key prefix cid) = None \<and> cred_abs prefix (dbs s' (sel s' c)) cid = None
           \<and> (\<exists>r. cred_abs prefix (dbs s (sel s c)) cid = Some r
                \<and> (cred_user_id r \<noteq> [] \<longrightarrow> cid \<notin> cred_index prefix (dbs s' (sel s' c)) (cred_user_id r))))"
    by (auto simp: cred_abs_def)
qed

end

interpretation mem_credential: credential_store
    "\<lambda>s. cred_inv prefix (mem_dbs s (mem_sel s c))" "\<lambda>s. cred_abs prefix (mem_dbs s (mem_sel s c))"
    "\<lambda>s cid. mem_dbs s (mem_sel s c) (cred_key prefix cid) = None" "\<lambda>s. cred_index prefix (mem_dbs s (mem_sel s c))"
    "\<lambda>cid. ngx_auth_webauthn_credential_get mem_hi (Some \<lparr> rd_ctx = Some c, rd_pool = pool \<rparr>) (Some pool) (Some prefix) (Some cid) (Some o')"
    "\<lambda>cred. ngx_auth_webauthn_credential_put mem_hi (Some \<lparr> rd_ctx = Some c, rd_pool = pool \<rparr>) (Some pool) (Some prefix) (Some cred)"
    "\<lambda>cid. ngx_auth_webauthn_credential_update_counter mem_hi (Some \<lparr> rd_ctx = Some c, rd_pool = pool \<rparr>) (Some pool) (Some prefix) (Some cid)"
    "\<lambda>cid. ngx_auth_webauthn_credential_delete mem_hi (Some \<lparr> rd_ctx = Some c, rd_pool = pool \<rparr>) (Some pool) (Some prefix) (Some cid)"
  for prefix c pool o'
  by (rule mem.credential_store_laws) simp

section \<open>A stored credential\<close>

definition ex_rec :: credential where
  "ex_rec = \<lparr> cred_credential_id = ''id'', cred_user_id = ''u'', cred_public_key = ''EKEY'', cred_alg = - 7,
     cred_sign_count = 8, cred_created_at = 1, cred_last_used_at = 2, cred_aaguid = replicate 16 (CHR 0x00),
     cred_has_aaguid = False, cred_transports = [] \<rparr>"

definition ex_db :: rdb where
  "ex_db = (\<lambda>_. None)(cred_key ''w:'' ''id'' := Some (RHash (credential_pairs ex_rec), None),
     index_key ''w:'' ''u'' := Some (RSet [''id''], None))"

definition ex_store :: mem where
  "ex_store = mem_empty\<lparr> mem_dbs := (mem_dbs mem_empty)(0 := ex_db) \<rparr>"

lemma ex_rec_wf: "credential_wf ex_rec"
  by (simp add: credential_wf_def ex_rec_def)

lemma ex_db_inv: "cred_inv ''w:'' ex_db"
  using distinct_credential_pairs [of ex_rec] by (auto simp: cred_inv_def ex_db_def credential_pairs_def)

lemma ex_db_abs: "cred_abs ''w:'' ex_db ''id'' = Some ex_rec"
  using credential_of_pairs [OF ex_rec_wf] by (simp add: cred_abs_def ex_db_def ex_rec_def)

lemma ex_fields:
  "credential_fields (credential_pairs ex_rec) (credential_zero\<lparr> cred_credential_id := ''id'' \<rparr>) = Some ex_rec"
  using credential_of_pairs [OF ex_rec_wf] credential_fields_eq [OF distinct_credential_pairs [of ex_rec]]
  by (simp add: credential_of_def ex_rec_def Let_def split: if_splits)

lemma record_key_total: "ngx_auth_webauthn_credential_record_key ex_pool prefix cid = Some (cred_key prefix cid)"
  by (simp add: ngx_auth_webauthn_credential_record_key_def cred_key_def)

lemma index_key_total: "ngx_auth_webauthn_credential_index_key ex_pool prefix uid = Some (index_key prefix uid)"
  by (simp add: ngx_auth_webauthn_credential_index_key_def index_key_def)

lemma mem_exec:
  "cmd \<noteq> ''AUTH'' \<Longrightarrow> cmd \<noteq> ''SELECT'' \<Longrightarrow>
   ngx_auth_webauthn_redis_exec mem_hi ex_redis (cmd # args) s =
     (let (rep, db) = redis_exec (mem_clock s) (cmd # args) (mem_dbs s (mem_sel s 0)) in
      (Some rep, s\<lparr> mem_dbs := (mem_dbs s)(mem_sel s 0 := db), mem_clock := mem_clock s + 1 \<rparr>))"
  by (simp add: ngx_auth_webauthn_redis_exec_def mem_hi_def mem_command_def ex_redis_def Let_def)

lemma ex_conn [simp]: "no_conn (Some ex_redis) = False" "rd_pool ex_redis = ex_pool" "rd_ctx ex_redis = Some 0"
  by (simp_all add: no_conn_def ex_redis_def)

lemma ex_get:
  assumes "mem_dbs s (mem_sel s 0) (cred_key ''w:'' ''id'') = Some (RHash (credential_pairs ex_rec), None)"
  shows "ngx_auth_webauthn_credential_get mem_hi (Some ex_redis) (Some ex_pool) (Some ''w:'') (Some ''id'') (Some o') s
     = (NGX_OK, Some ex_rec, s\<lparr> mem_clock := mem_clock s + 1 \<rparr>)"
proof -
  have ne: "credential_pairs ex_rec \<noteq> []" by (simp add: credential_pairs_def)
  have "ngx_auth_webauthn_redis_hgetall mem_hi (Some ex_redis) (Some ex_pool) (Some (cred_key ''w:'' ''id'')) (Some []) s
      = (NGX_OK, Some (credential_pairs ex_rec), s\<lparr> mem_clock := mem_clock s + 1 \<rparr>)"
    using assms ne hgetall_loop_total [of ex_pool "credential_pairs ex_rec"]
    by (simp add: ngx_auth_webauthn_redis_hgetall_def mem_exec exec_HGETALL live_def entry_def expired_def Let_def
        failed_def is_error_def fun_upd_idem)
  with ne show ?thesis
    by (simp add: ngx_auth_webauthn_credential_get_def record_key_total ex_fields) (simp add: ex_rec_def)
qed

lemma ex_put: "\<exists>s1. ngx_auth_webauthn_credential_put mem_hi (Some ex_redis) (Some ex_pool) (Some ''w:'') (Some ex_rec)
    mem_empty = (NGX_OK, s1)"
proof -
  have ne: "credential_pairs ex_rec \<noteq> []" by (simp add: credential_pairs_def)
  have id: "cred_credential_id ex_rec = ''id''" "cred_user_id ex_rec = ''u''" by (simp_all add: ex_rec_def)
  obtain s1 where h: "ngx_auth_webauthn_redis_hset mem_hi (Some ex_redis) (Some (cred_key ''w:'' ''id''))
      (Some (credential_pairs ex_rec)) (length (credential_pairs ex_rec)) mem_empty = (NGX_OK, s1)"
    "mem_dbs s1 (mem_sel s1 0) (index_key ''w:'' ''u'') = None"
    using ne by (auto simp: ngx_auth_webauthn_redis_hset_def mem_exec exec_HSET entry_def Let_def mem_empty_def
        failed_def is_error_def)
  obtain s2 where "ngx_auth_webauthn_redis_sadd mem_hi (Some ex_redis) (Some (index_key ''w:'' ''u'')) (Some ''id'') s1 = (NGX_OK, s2)"
    using h(2) by (auto simp: ngx_auth_webauthn_redis_sadd_def ngx_auth_webauthn_redis_set_op_def mem_exec exec_SADD
        redis_exec2_def entry_def Let_def failed_def is_error_def)
  with h(1) show ?thesis
    by (simp add: ngx_auth_webauthn_credential_put_def id record_key_total index_key_total)
qed

lemma ex_update: "\<exists>s1. ngx_auth_webauthn_credential_update_counter mem_hi (Some ex_redis) (Some ex_pool) (Some ''w:'')
    (Some ''id'') 9 5 ex_store = (NGX_OK, s1)"
proof -
  have "counter_pairs 9 5 \<noteq> []" by (simp add: counter_pairs_def)
  moreover have "take 2 (counter_pairs 9 5) = counter_pairs 9 5" by (simp add: counter_pairs_def)
  ultimately show ?thesis
    by (simp add: ngx_auth_webauthn_credential_update_counter_def record_key_total ngx_auth_webauthn_redis_hset_def
        mem_exec exec_HSET entry_def expired_def ex_store_def ex_db_def mem_empty_def Let_def failed_def is_error_def)
qed

lemma ex_delete: "\<exists>s1. ngx_auth_webauthn_credential_delete mem_hi (Some ex_redis) (Some ex_pool) (Some ''w:'')
    (Some ''id'') ex_store = (NGX_OK, s1)"
proof -
  have u: "cred_user_id ex_rec = ''u''" by (simp add: ex_rec_def)
  have g: "ngx_auth_webauthn_credential_get mem_hi (Some ex_redis) (Some ex_pool) (Some ''w:'') (Some ''id'') (Some o') ex_store
     = (NGX_OK, Some ex_rec, ex_store\<lparr> mem_clock := 1 \<rparr>)" for o'
    using ex_get [of ex_store o'] by (simp add: ex_store_def ex_db_def mem_empty_def)
  obtain s1 where d: "ngx_auth_webauthn_redis_del mem_hi (Some ex_redis) (Some (cred_key ''w:'' ''id''))
      (ex_store\<lparr> mem_clock := 1 \<rparr>) = (NGX_OK, s1)"
    "mem_dbs s1 (mem_sel s1 0) (index_key ''w:'' ''u'') = Some (RSet [''id''], None)"
    by (auto simp: ngx_auth_webauthn_redis_del_def mem_exec exec_DEL Let_def failed_def is_error_def ex_store_def
        ex_db_def mem_empty_def)
  obtain s2 where "ngx_auth_webauthn_redis_srem mem_hi (Some ex_redis) (Some (index_key ''w:'' ''u'')) (Some ''id'') s1 = (NGX_OK, s2)"
    using d(2) by (auto simp: ngx_auth_webauthn_redis_srem_def ngx_auth_webauthn_redis_set_op_def mem_exec exec_SREM
        redis_exec2_def entry_def expired_def Let_def failed_def is_error_def)
  with g d(1) u show ?thesis
    by (simp add: ngx_auth_webauthn_credential_delete_def record_key_total index_key_total)
qed

section \<open>Properties\<close>

text \<open>C33: a registered credential reads back. After \<open>ngx_auth_webauthn_credential_put\<close> succeeds for a
  credential id with no record, \<open>ngx_auth_webauthn_credential_get\<close> returns the very same record (every
  field, numbers through their decimal text, in whatever order Redis lists the hash), unless Redis
  fails; it never reports the credential as missing.\<close>

theorem credential_put_get:
  assumes "redis_server hi dbs sel clock" and "rd_ctx rd = Some c"
    and "cred_inv prefix (dbs s (sel s c))"
    and "dbs s (sel s c) (cred_key prefix (cred_credential_id cred)) = None" and "credential_wf cred"
    and "ngx_auth_webauthn_credential_put hi (Some rd) (Some pool) (Some prefix) (Some cred) s = (NGX_OK, s1)"
    and "ngx_auth_webauthn_credential_get hi (Some rd) (Some pool) (Some prefix) (Some (cred_credential_id cred))
           (Some o') s1 = (rc, out, s2)"
  shows "rc = NGX_OK \<and> out = Some cred \<or> rc = NGX_ERROR"
  using credential_store.get_after_put [OF redis_server.credential_store_laws [OF assms(1,2)] assms(3-7)] .

theorem credential_put_get_witness:
  "\<exists>s1. ngx_auth_webauthn_credential_put mem_hi (Some ex_redis) (Some ex_pool) (Some ''w:'') (Some ex_rec) mem_empty
      = (NGX_OK, s1)
     \<and> fst (ngx_auth_webauthn_credential_get mem_hi (Some ex_redis) (Some ex_pool) (Some ''w:'') (Some ''id'')
         (Some credential_zero) s1) \<noteq> NGX_DECLINED"
proof -
  obtain s1 where p: "ngx_auth_webauthn_credential_put mem_hi (Some ex_redis) (Some ex_pool) (Some ''w:'') (Some ex_rec)
      mem_empty = (NGX_OK, s1)" using ex_put by blast
  obtain rc out s2 where g: "ngx_auth_webauthn_credential_get mem_hi (Some ex_redis) (Some ex_pool) (Some ''w:'')
      (Some (cred_credential_id ex_rec)) (Some credential_zero) s1 = (rc, out, s2)" by (metis surj_pair)
  have "rc = NGX_OK \<and> out = Some ex_rec \<or> rc = NGX_ERROR"
    by (rule credential_put_get [OF mem.redis_server_axioms _ _ _ ex_rec_wf p g])
      (simp_all add: mem_empty_def cred_inv_def)
  with p g show ?thesis by (auto simp: ex_rec_def)
qed

text \<open>\<open>ngx_auth_webauthn_credential_update_counter\<close> changes the counter and the time of last use of
  the record and nothing else: a later get returns the old record with exactly these two fields
  replaced, and no other credential is affected.\<close>

theorem credential_update_get:
  assumes "redis_server hi dbs sel clock" and "rd_ctx rd = Some c"
    and "cred_inv prefix (dbs s (sel s c))" and "cred_abs prefix (dbs s (sel s c)) cid = Some r"
    and "ngx_auth_webauthn_credential_update_counter hi (Some rd) (Some pool) (Some prefix) (Some cid) n t s = (NGX_OK, s1)"
    and "ngx_auth_webauthn_credential_get hi (Some rd) (Some pool) (Some prefix) (Some cid) (Some o') s1 = (rc, out, s2)"
  shows "(rc = NGX_OK \<and> out = Some (r\<lparr> cred_sign_count := n, cred_last_used_at := t \<rparr>) \<or> rc = NGX_ERROR)
     \<and> (\<forall>i. i \<noteq> cid \<longrightarrow> cred_abs prefix (dbs s1 (sel s1 c)) i = cred_abs prefix (dbs s (sel s c)) i)"
proof -
  note st = redis_server.credential_store_laws [OF assms(1,2)]
  show ?thesis
    using credential_store.get_after_update [OF st assms(3-6)] credential_store.update_law [OF st assms(3,5)] by blast
qed

theorem credential_update_get_witness:
  "\<exists>s1 rc out s2. ngx_auth_webauthn_credential_update_counter mem_hi (Some ex_redis) (Some ex_pool) (Some ''w:'')
      (Some ''id'') 9 5 ex_store = (NGX_OK, s1)
     \<and> ngx_auth_webauthn_credential_get mem_hi (Some ex_redis) (Some ex_pool) (Some ''w:'') (Some ''id'')
         (Some credential_zero) s1 = (rc, out, s2)
     \<and> (out = Some (ex_rec\<lparr> cred_sign_count := 9, cred_last_used_at := 5 \<rparr>) \<or> rc = NGX_ERROR)"
proof -
  obtain s1 where p: "ngx_auth_webauthn_credential_update_counter mem_hi (Some ex_redis) (Some ex_pool) (Some ''w:'')
      (Some ''id'') 9 5 ex_store = (NGX_OK, s1)" using ex_update by blast
  obtain rc out s2 where g: "ngx_auth_webauthn_credential_get mem_hi (Some ex_redis) (Some ex_pool) (Some ''w:'')
      (Some ''id'') (Some credential_zero) s1 = (rc, out, s2)" by (metis surj_pair)
  have "mem_dbs ex_store (mem_sel ex_store 0) = ex_db" by (simp add: ex_store_def mem_empty_def)
  with credential_update_get [OF mem.redis_server_axioms _ _ _ p g, of 0 ex_rec] ex_db_inv ex_db_abs p g show ?thesis by auto
qed

text \<open>C34: revocation is final. After \<open>ngx_auth_webauthn_credential_delete\<close> succeeds the record is gone,
  the id is no longer in its user's index, and a counter update of a login that was already under
  way does not bring it back: a get finds no usable record.\<close>

theorem credential_revoked:
  assumes "redis_server hi dbs sel clock" and "rd_ctx rd = Some c"
    and "cred_inv prefix (dbs s (sel s c))"
    and "ngx_auth_webauthn_credential_delete hi (Some rd) (Some pool) (Some prefix) (Some cid) s = (NGX_OK, s1)"
    and "ngx_auth_webauthn_credential_update_counter hi (Some rd) (Some pool) (Some prefix) (Some cid) n t s1 = (rc1, s2)"
    and "ngx_auth_webauthn_credential_get hi (Some rd) (Some pool) (Some prefix) (Some cid) (Some o') s2 = (rc, out, s3)"
  shows "rc \<noteq> NGX_OK
     \<and> (\<exists>r. cred_abs prefix (dbs s (sel s c)) cid = Some r
          \<and> (cred_user_id r \<noteq> [] \<longrightarrow> cid \<notin> cred_index prefix (dbs s1 (sel s1 c)) (cred_user_id r)))"
proof -
  note st = redis_server.credential_store_laws [OF assms(1,2)]
  show ?thesis
    using credential_store.get_after_remove [OF st assms(3-6)] credential_store.remove_law [OF st assms(3,4)] by blast
qed

theorem credential_revoked_witness:
  "\<exists>s1. ngx_auth_webauthn_credential_delete mem_hi (Some ex_redis) (Some ex_pool) (Some ''w:'') (Some ''id'') ex_store
      = (NGX_OK, s1)
     \<and> fst (ngx_auth_webauthn_credential_get mem_hi (Some ex_redis) (Some ex_pool) (Some ''w:'') (Some ''id'')
         (Some credential_zero) (snd (ngx_auth_webauthn_credential_update_counter mem_hi (Some ex_redis) (Some ex_pool)
           (Some ''w:'') (Some ''id'') 9 5 s1))) \<noteq> NGX_OK"
proof -
  obtain s1 where p: "ngx_auth_webauthn_credential_delete mem_hi (Some ex_redis) (Some ex_pool) (Some ''w:'')
      (Some ''id'') ex_store = (NGX_OK, s1)" using ex_delete by blast
  obtain rc1 s2 where u: "ngx_auth_webauthn_credential_update_counter mem_hi (Some ex_redis) (Some ex_pool)
           (Some ''w:'') (Some ''id'') 9 5 s1 = (rc1, s2)" by fastforce
  obtain rc out s3 where g: "ngx_auth_webauthn_credential_get mem_hi (Some ex_redis) (Some ex_pool) (Some ''w:'')
      (Some ''id'') (Some credential_zero) s2 = (rc, out, s3)" by (metis surj_pair)
  have "mem_dbs ex_store (mem_sel ex_store 0) = ex_db" by (simp add: ex_store_def mem_empty_def)
  with credential_revoked [OF mem.redis_server_axioms _ _ p u g, of 0] ex_db_inv p u g show ?thesis by auto
qed

text \<open>C37: \<open>ngx_auth_webauthn_credential_atoi64\<close> accepts exactly the decimals of signed 64-bit integers
  and returns their value: no wrap-around, no partial parse, no empty number.\<close>

theorem atoi64_exact:
  "ngx_auth_webauthn_credential_atoi64 s = Some v \<longleftrightarrow>
     (\<exists>ds. ds \<noteq> [] \<and> list_all is_digit ds
        \<and> (s = ds \<and> sint v = int (read_nat 0 ds) \<or> s = CHR ''-'' # ds \<and> sint v = - int (read_nat 0 ds)))"
  (is "_ \<longleftrightarrow> ?r")
proof
  assume ?r
  then obtain ds where ds: "ds \<noteq> []" "list_all is_digit ds"
    "s = ds \<and> sint v = int (read_nat 0 ds) \<or> s = CHR ''-'' # ds \<and> sint v = - int (read_nat 0 ds)" by blast
  have b: "- (2 ^ 63) \<le> sint v" "sint v < 2 ^ 63" using sint_ge [of v] sint_lt [of v] by simp_all
  have v: "v = word_of_int (sint v)" by (simp only: of_int_sint scast_id)
  from ds(3) show "ngx_auth_webauthn_credential_atoi64 s = Some v"
  proof (elim disjE conjE)
    assume s: "s = ds" "sint v = int (read_nat 0 ds)"
    then have "int (read_nat 0 ds) < 2 ^ 63" using b(2) by simp
    then have "read_nat 0 ds < 2 ^ 63" by simp
    from atoi64_digits [OF ds(2,1) this] s v show ?thesis by simp
  next
    assume s: "s = CHR ''-'' # ds" "sint v = - int (read_nat 0 ds)"
    then have n: "read_nat 0 ds \<le> 2 ^ 63" using b(1) by simp
    have u: "unat (of_nat (read_nat 0 ds) :: 64 word) = read_nat 0 ds"
      using n by (simp add: unat_of_nat take_bit_eq_mod)
    have "atoi64_loop (0x7FFFFFFFFFFFFFFF + 1) ds 0 = Some (of_nat (read_nat 0 ds))"
      using ds(2) n u by (subst atoi64_loop_iff) simp_all
    then show ?thesis using s v ds(1) by (simp add: ngx_auth_webauthn_credential_atoi64_def)
  qed
qed (rule atoi64_sound)

end
