(* ===== verification/Config.thy ===== *)
theory Config
  imports Credential Assertion
begin

text \<open>
  The configuration half of \<open>src/ngx_http_auth_webauthn_module.c\<close>: the location configuration, its
  creation and merging, the directive parsers and the secret files. nginx core (\<open>ngx_atoi\<close>,
  \<open>ngx_parse_time\<close>, file access, the slot setters) and OpenSSL's PEM functions are parameters.
  A field of \<open>raw_conf\<close> that is \<open>NGX_CONF_UNSET\<close>, or a string whose \<open>data\<close> is \<open>NULL\<close>, is \<open>None\<close>.
\<close>

section \<open>Data\<close>

datatype jwt_family = NGX_AUTH_WEBAUTHN_JWT_HMAC | NGX_AUTH_WEBAUTHN_JWT_ASYM

datatype user_verification =
  NGX_AUTH_WEBAUTHN_UV_REQUIRED | NGX_AUTH_WEBAUTHN_UV_PREFERRED | NGX_AUTH_WEBAUTHN_UV_DISCOURAGED

datatype samesite = Samesite_strict | Samesite_lax | Samesite_none

text \<open>\<open>'v\<close> is a compiled complex value of nginx core.\<close>

record 'v header_t =
  hdr_name :: bytes
  hdr_value :: 'v

text \<open>\<open>ngx_http_auth_webauthn_loc_conf_t\<close> as \<open>create_loc_conf\<close>, the directives and \<open>merge_loc_conf\<close> see
  it.\<close>

record 'v raw_conf =
  rw_rp_id :: "bytes option"
  rw_rp_name :: "bytes option"
  rw_origins :: "bytes list option option"
  rw_challenge_ttl :: "time_t option"
  rw_user_verification :: "user_verification option"
  rw_rate_limit_max :: "nat option"
  rw_rate_limit_window :: "time_t option"
  rw_redis_url :: "bytes option"
  rw_redis_host :: "bytes option"
  rw_redis_port :: "int option"
  rw_redis_password :: "bytes option"
  rw_redis_db :: "nat option"
  rw_redis_timeout :: "nat option"
  rw_redis_key_prefix :: "bytes option"
  rw_jwt_secret_file :: "bytes option"
  rw_jwt_secret :: "bytes option"
  rw_jwt_pub_pem :: "bytes option"
  rw_jwt_alg :: "bytes option"
  rw_jwt_alg_family :: "jwt_family option"
  rw_jwt_ttl :: "time_t option"
  rw_cookie_name :: "bytes option"
  rw_cookie_domain :: "bytes option"
  rw_cookie_path :: "bytes option"
  rw_cookie_secure :: "bool option"
  rw_cookie_samesite :: "samesite option"
  rw_clone_detection :: "clone_detection option"
  rw_auth :: "bool option"
  rw_signin_url :: "bytes option"
  rw_set_headers :: "'v header_t list option option"
  rw_challenge_handler :: "bool option"
  rw_verify_handler :: "bool option"

text \<open>The results of a directive handler or of a merge: \<open>NGX_CONF_OK\<close>, \<open>NGX_CONF_ERROR\<close> or a message.\<close>

datatype conf_rv = NGX_CONF_OK | NGX_CONF_ERROR | Conf_msg string

section \<open>Creation\<close>

definition raw_conf_unset :: "'v raw_conf" where
  "raw_conf_unset =
     \<lparr> rw_rp_id = None, rw_rp_name = None, rw_origins = None, rw_challenge_ttl = None,
       rw_user_verification = None, rw_rate_limit_max = None, rw_rate_limit_window = None,
       rw_redis_url = None, rw_redis_host = None, rw_redis_port = None, rw_redis_password = None,
       rw_redis_db = None, rw_redis_timeout = None, rw_redis_key_prefix = None,
       rw_jwt_secret_file = None, rw_jwt_secret = None, rw_jwt_pub_pem = None, rw_jwt_alg = None,
       rw_jwt_alg_family = None, rw_jwt_ttl = None, rw_cookie_name = None, rw_cookie_domain = None,
       rw_cookie_path = None, rw_cookie_secure = None, rw_cookie_samesite = None,
       rw_clone_detection = None, rw_auth = None, rw_signin_url = None, rw_set_headers = None,
       rw_challenge_handler = None, rw_verify_handler = None \<rparr>"

definition ngx_http_auth_webauthn_create_loc_conf :: "ngx_pool_t \<Rightarrow> 'v raw_conf option" where
  "ngx_http_auth_webauthn_create_loc_conf pool =
     (if \<not> pool ''conf'' 376 then None else Some raw_conf_unset)"

section \<open>Secret files\<close>

record ('fd, 'pk) conf_env =
  ngx_conf_full_name :: "bytes \<Rightarrow> bytes option"
  ngx_open_file :: "bytes \<Rightarrow> 'fd option"
  ngx_fd_info :: "'fd \<Rightarrow> nat option"
  ngx_read_file :: "'fd \<Rightarrow> nat \<Rightarrow> bytes option"
  PEM_read_bio_PrivateKey :: "bytes \<Rightarrow> 'pk option"
  PEM_write_bio_PUBKEY :: "'pk \<Rightarrow> bytes option"
  ngx_atoi :: "bytes \<Rightarrow> int"
  ngx_parse_time :: "bytes \<Rightarrow> time_t"
  ngx_conf_set_flag_slot :: "bytes \<Rightarrow> bool option \<Rightarrow> conf_rv \<times> bool option"

definition ngx_http_auth_webauthn_read_file ::
    "('fd, 'pk) conf_env \<Rightarrow> ngx_pool_t \<Rightarrow> bytes \<Rightarrow> bytes option" where
  "ngx_http_auth_webauthn_read_file env pool path =
     (case ngx_conf_full_name env path of
        None \<Rightarrow> None
      | Some full \<Rightarrow>
          (case ngx_open_file env full of
             None \<Rightarrow> None
           | Some fd \<Rightarrow>
               (case ngx_fd_info env fd of
                  None \<Rightarrow> None
                | Some fsize \<Rightarrow>
                    if \<not> pool ''out->data'' fsize then None
                    else
                      (case ngx_read_file env fd fsize of
                         None \<Rightarrow> None
                       | Some bs \<Rightarrow> if length bs \<noteq> fsize then None else Some bs))))"

text \<open>\<open>s->data[s->len - 1]\<close> is the last byte: the loop runs over the reversed string.\<close>

fun chomp_loop :: "bytes \<Rightarrow> bytes" where
  "chomp_loop [] = []"
| "chomp_loop (c # s) = (if c = CHR 0x0A \<or> c = CHR 0x0D then chomp_loop s else c # s)"

definition ngx_http_auth_webauthn_chomp :: "bytes \<Rightarrow> bytes" where
  "ngx_http_auth_webauthn_chomp s = rev (chomp_loop (rev s))"

definition ngx_http_auth_webauthn_derive_pub_pem ::
    "('fd, 'pk) conf_env \<Rightarrow> ngx_pool_t \<Rightarrow> bytes \<Rightarrow> bytes option" where
  "ngx_http_auth_webauthn_derive_pub_pem env pool priv =
     (case PEM_read_bio_PrivateKey env priv of
        None \<Rightarrow> None
      | Some pkey \<Rightarrow>
          (case PEM_write_bio_PUBKEY env pkey of
             None \<Rightarrow> None
           | Some pem \<Rightarrow> if \<not> pool ''out->data'' (length pem) then None else Some pem))"

section \<open>Merging\<close>

text \<open>\<open>ngx_conf_merge_value\<close> and its variants.\<close>

definition merge_value :: "'a option \<Rightarrow> 'a option \<Rightarrow> 'a \<Rightarrow> 'a option" where
  "merge_value conf prev dflt =
     (case conf of
        Some x \<Rightarrow> Some x
      | None \<Rightarrow> (case prev of Some y \<Rightarrow> Some y | None \<Rightarrow> Some dflt))"

definition merge_fields :: "'v raw_conf \<Rightarrow> 'v raw_conf \<Rightarrow> 'v raw_conf" where
  "merge_fields prev conf =
     \<lparr> rw_rp_id = merge_value (rw_rp_id conf) (rw_rp_id prev) [],
       rw_rp_name = merge_value (rw_rp_name conf) (rw_rp_name prev) [],
       rw_origins = merge_value (rw_origins conf) (rw_origins prev) None,
       rw_challenge_ttl = merge_value (rw_challenge_ttl conf) (rw_challenge_ttl prev) 60,
       rw_user_verification = merge_value (rw_user_verification conf) (rw_user_verification prev)
         NGX_AUTH_WEBAUTHN_UV_PREFERRED,
       rw_rate_limit_max = merge_value (rw_rate_limit_max conf) (rw_rate_limit_max prev) 0,
       rw_rate_limit_window = merge_value (rw_rate_limit_window conf) (rw_rate_limit_window prev) 60,
       rw_redis_url = merge_value (rw_redis_url conf) (rw_redis_url prev) [],
       rw_redis_host = merge_value (rw_redis_host conf) (rw_redis_host prev) [],
       rw_redis_port = merge_value (rw_redis_port conf) (rw_redis_port prev) 0,
       rw_redis_password = merge_value (rw_redis_password conf) (rw_redis_password prev) [],
       rw_redis_db = merge_value (rw_redis_db conf) (rw_redis_db prev) 0,
       rw_redis_timeout = merge_value (rw_redis_timeout conf) (rw_redis_timeout prev) 100,
       rw_redis_key_prefix = merge_value (rw_redis_key_prefix conf) (rw_redis_key_prefix prev) ''webauthn:'',
       rw_jwt_secret_file = merge_value (rw_jwt_secret_file conf) (rw_jwt_secret_file prev) [],
       rw_jwt_secret = merge_value (rw_jwt_secret conf) (rw_jwt_secret prev) [],
       rw_jwt_pub_pem = merge_value (rw_jwt_pub_pem conf) (rw_jwt_pub_pem prev) [],
       rw_jwt_alg = merge_value (rw_jwt_alg conf) (rw_jwt_alg prev) ''HS256'',
       rw_jwt_alg_family = merge_value (rw_jwt_alg_family conf) (rw_jwt_alg_family prev)
         NGX_AUTH_WEBAUTHN_JWT_HMAC,
       rw_jwt_ttl = merge_value (rw_jwt_ttl conf) (rw_jwt_ttl prev) 3600,
       rw_cookie_name = merge_value (rw_cookie_name conf) (rw_cookie_name prev) ''webauthn_session'',
       rw_cookie_domain = merge_value (rw_cookie_domain conf) (rw_cookie_domain prev) [],
       rw_cookie_path = merge_value (rw_cookie_path conf) (rw_cookie_path prev) ''/'',
       rw_cookie_secure = merge_value (rw_cookie_secure conf) (rw_cookie_secure prev) True,
       rw_cookie_samesite = merge_value (rw_cookie_samesite conf) (rw_cookie_samesite prev) Samesite_strict,
       rw_clone_detection = merge_value (rw_clone_detection conf) (rw_clone_detection prev)
         NGX_AUTH_WEBAUTHN_CLONE_STRICT,
       rw_auth = merge_value (rw_auth conf) (rw_auth prev) False,
       rw_signin_url = merge_value (rw_signin_url conf) (rw_signin_url prev) [],
       rw_set_headers = merge_value (rw_set_headers conf) (rw_set_headers prev) None,
       rw_challenge_handler = merge_value (rw_challenge_handler conf) (rw_challenge_handler prev) False,
       rw_verify_handler = merge_value (rw_verify_handler conf) (rw_verify_handler prev) False \<rparr>"

definition ngx_http_auth_webauthn_merge_loc_conf ::
    "('fd, 'pk) conf_env \<Rightarrow> ngx_pool_t \<Rightarrow> 'v raw_conf \<Rightarrow> 'v raw_conf \<Rightarrow> conf_rv \<times> 'v raw_conf" where
  "ngx_http_auth_webauthn_merge_loc_conf env pool prev conf =
     (let conf = merge_fields prev conf in
      if (the (rw_auth conf) \<or> the (rw_verify_handler conf))
         \<and> length (the (rw_jwt_secret conf)) = 0 \<and> length (the (rw_jwt_secret_file conf)) > 0
      then
        case ngx_http_auth_webauthn_read_file env pool (the (rw_jwt_secret_file conf)) of
          None \<Rightarrow> (NGX_CONF_ERROR, conf)
        | Some secret \<Rightarrow>
            let conf = conf\<lparr> rw_jwt_secret := Some secret \<rparr> in
            if the (rw_jwt_alg_family conf) = NGX_AUTH_WEBAUTHN_JWT_HMAC then
              let conf = conf\<lparr> rw_jwt_secret := Some (ngx_http_auth_webauthn_chomp secret) \<rparr> in
              if length (the (rw_jwt_secret conf)) < 32 then (NGX_CONF_ERROR, conf)
              else (NGX_CONF_OK, conf)
            else
              (case ngx_http_auth_webauthn_derive_pub_pem env pool secret of
                 None \<Rightarrow> (NGX_CONF_ERROR, conf)
               | Some pem \<Rightarrow> (NGX_CONF_OK, conf\<lparr> rw_jwt_pub_pem := Some pem \<rparr>))
      else (NGX_CONF_OK, conf))"

section \<open>Directives\<close>

text \<open>\<open>args\<close> are \<open>cf->args\<close> after the directive's name.\<close>

fun push_all :: "ngx_pool_t \<Rightarrow> bytes list \<Rightarrow> bytes list \<Rightarrow> conf_rv \<times> bytes list" where
  "push_all pool [] origins = (NGX_CONF_OK, origins)"
| "push_all pool (v # vs) origins =
     (if \<not> pool ''origin'' 16 then (NGX_CONF_ERROR, origins) else push_all pool vs (origins @ [v]))"

definition ngx_http_auth_webauthn_conf_set_origin ::
    "ngx_pool_t \<Rightarrow> bytes list \<Rightarrow> 'v raw_conf \<Rightarrow> conf_rv \<times> 'v raw_conf" where
  "ngx_http_auth_webauthn_conf_set_origin pool args conf =
     (if rw_origins conf = None \<and> \<not> pool ''wlcf->origins'' 64
      then (NGX_CONF_ERROR, conf\<lparr> rw_origins := Some None \<rparr>)
      else
        let origins = (case rw_origins conf of None \<Rightarrow> [] | Some os \<Rightarrow> the os);
            (rv, origins) = push_all pool args origins
        in (rv, conf\<lparr> rw_origins := Some (Some origins) \<rparr>))"

definition ngx_http_auth_webauthn_conf_set_set_header ::
    "(bytes \<Rightarrow> 'v option) \<Rightarrow> ngx_pool_t \<Rightarrow> bytes \<Rightarrow> bytes \<Rightarrow> 'v raw_conf \<Rightarrow> conf_rv \<times> 'v raw_conf" where
  "ngx_http_auth_webauthn_conf_set_set_header ngx_http_compile_complex_value pool name v conf =
     (if rw_set_headers conf = None \<and> \<not> pool ''wlcf->set_headers'' 224
      then (NGX_CONF_ERROR, conf\<lparr> rw_set_headers := Some None \<rparr>)
      else
        let hdrs = (case rw_set_headers conf of None \<Rightarrow> [] | Some hs \<Rightarrow> the hs);
            conf = conf\<lparr> rw_set_headers := Some (Some hdrs) \<rparr>
        in
        if \<not> pool ''hdr'' 56 then (NGX_CONF_ERROR, conf)
        else
          case ngx_http_compile_complex_value v of
            None \<Rightarrow> (NGX_CONF_ERROR, conf)
          | Some cv \<Rightarrow> (NGX_CONF_OK, conf\<lparr> rw_set_headers := Some (Some (hdrs @ [\<lparr> hdr_name = name, hdr_value = cv \<rparr>])) \<rparr>))"

definition str_value :: "bytes option \<Rightarrow> bytes" where
  "str_value s = (case s of None \<Rightarrow> [] | Some x \<Rightarrow> x)"

definition ngx_http_auth_webauthn_conf_set_redis ::
    "('fd, 'pk) conf_env \<Rightarrow> bytes \<Rightarrow> 'v raw_conf \<Rightarrow> conf_rv \<times> 'v raw_conf" where
  "ngx_http_auth_webauthn_conf_set_redis env value conf =
     (if length (str_value (rw_redis_host conf)) \<noteq> 0 then (Conf_msg ''is duplicate'', conf)
      else
        let conf = conf\<lparr> rw_redis_url := Some value \<rparr>; host = takeWhile (\<lambda>c. c \<noteq> CHR '':'') value in
        if CHR '':'' \<notin> set value \<or> length host = 0 \<or> length host = length value - 1
        then (Conf_msg ''expects <host>:<port>'', conf)
        else
          let conf = conf\<lparr> rw_redis_host := Some host \<rparr>;
              port = ngx_atoi env (drop (length host + 1) value)
          in
          if port = - 1 \<or> port \<le> 0 \<or> port > 65535 then (Conf_msg ''has an invalid port'', conf)
          else (NGX_CONF_OK, conf\<lparr> rw_redis_port := Some port \<rparr>))"

definition ngx_http_auth_webauthn_conf_set_redis_password ::
    "('fd, 'pk) conf_env \<Rightarrow> ngx_pool_t \<Rightarrow> bytes \<Rightarrow> 'v raw_conf \<Rightarrow> conf_rv \<times> 'v raw_conf" where
  "ngx_http_auth_webauthn_conf_set_redis_password env pool value conf =
     (if take 5 value = ''file:'' then
        (case ngx_http_auth_webauthn_read_file env pool (drop 5 value) of
           None \<Rightarrow> (NGX_CONF_ERROR, conf)
         | Some pw \<Rightarrow> (NGX_CONF_OK, conf\<lparr> rw_redis_password := Some (ngx_http_auth_webauthn_chomp pw) \<rparr>))
      else (NGX_CONF_OK, conf\<lparr> rw_redis_password := Some value \<rparr>))"

definition ngx_http_auth_webauthn_conf_set_jwt_alg ::
    "bytes \<Rightarrow> 'v raw_conf \<Rightarrow> conf_rv \<times> 'v raw_conf" where
  "ngx_http_auth_webauthn_conf_set_jwt_alg value conf =
     (if value = ''HS256''
      then (NGX_CONF_OK, conf\<lparr> rw_jwt_alg_family := Some NGX_AUTH_WEBAUTHN_JWT_HMAC, rw_jwt_alg := Some value \<rparr>)
      else if value = ''RS256'' \<or> value = ''ES256''
      then (NGX_CONF_OK, conf\<lparr> rw_jwt_alg_family := Some NGX_AUTH_WEBAUTHN_JWT_ASYM, rw_jwt_alg := Some value \<rparr>)
      else (Conf_msg ''must be one of HS256, RS256, ES256'', conf))"

definition ngx_http_auth_webauthn_conf_set_rate_limit ::
    "('fd, 'pk) conf_env \<Rightarrow> bytes \<Rightarrow> bytes option \<Rightarrow> 'v raw_conf \<Rightarrow> conf_rv \<times> 'v raw_conf" where
  "ngx_http_auth_webauthn_conf_set_rate_limit env value1 value2 conf =
     (if value2 = None \<and> value1 = ''off'' then (NGX_CONF_OK, conf\<lparr> rw_rate_limit_max := Some 0 \<rparr>)
      else
        let maxv = ngx_atoi env value1 in
        if maxv = - 1 \<or> maxv \<le> 0 then (Conf_msg ''expects off or a positive <max> count'', conf)
        else
          let conf = conf\<lparr> rw_rate_limit_max := Some (nat maxv) \<rparr> in
          case value2 of
            None \<Rightarrow> (NGX_CONF_OK, conf)
          | Some v \<Rightarrow>
              let window = ngx_parse_time env v in
              if window = - 1 \<or> window \<le>s 0 then (Conf_msg ''has an invalid <window>'', conf)
              else (NGX_CONF_OK, conf\<lparr> rw_rate_limit_window := Some window \<rparr>))"

datatype content_handler = Challenge_content | Verify_content

text \<open>The handler of the location (\<open>clcf->handler\<close>) is passed and returned.\<close>

definition ngx_http_auth_webauthn_conf_set_challenge_handler ::
    "('fd, 'pk) conf_env \<Rightarrow> bytes \<Rightarrow> 'v raw_conf \<Rightarrow> content_handler option
     \<Rightarrow> conf_rv \<times> 'v raw_conf \<times> content_handler option" where
  "ngx_http_auth_webauthn_conf_set_challenge_handler env value conf handler =
     (let (rv, flag) = ngx_conf_set_flag_slot env value (rw_challenge_handler conf);
          conf = conf\<lparr> rw_challenge_handler := flag \<rparr>
      in
      if rv \<noteq> NGX_CONF_OK then (rv, conf, handler)
      else (NGX_CONF_OK, conf, if flag \<noteq> Some False then Some Challenge_content else handler))"

definition ngx_http_auth_webauthn_conf_set_verify_handler ::
    "('fd, 'pk) conf_env \<Rightarrow> bytes \<Rightarrow> 'v raw_conf \<Rightarrow> content_handler option
     \<Rightarrow> conf_rv \<times> 'v raw_conf \<times> content_handler option" where
  "ngx_http_auth_webauthn_conf_set_verify_handler env value conf handler =
     (let (rv, flag) = ngx_conf_set_flag_slot env value (rw_verify_handler conf);
          conf = conf\<lparr> rw_verify_handler := flag \<rparr>
      in
      if rv \<noteq> NGX_CONF_OK then (rv, conf, handler)
      else (NGX_CONF_OK, conf, if flag \<noteq> Some False then Some Verify_content else handler))"

section \<open>The merged configuration\<close>

text \<open>What the request handlers read: after a merge every field is set.\<close>

record 'v loc_conf =
  lc_rp_id :: bytes
  lc_origins :: "bytes list option"
  lc_challenge_ttl :: time_t
  lc_user_verification :: user_verification
  lc_rate_limit_max :: nat
  lc_rate_limit_window :: time_t
  lc_redis_host :: bytes
  lc_redis_port :: int
  lc_redis_password :: bytes
  lc_redis_db :: nat
  lc_redis_timeout :: nat
  lc_redis_key_prefix :: bytes
  lc_jwt_secret :: bytes
  lc_jwt_pub_pem :: bytes
  lc_jwt_alg :: bytes
  lc_jwt_alg_family :: jwt_family
  lc_jwt_ttl :: time_t
  lc_cookie_name :: bytes
  lc_cookie_domain :: bytes
  lc_cookie_path :: bytes
  lc_cookie_secure :: bool
  lc_cookie_samesite :: samesite
  lc_clone_detection :: clone_detection
  lc_auth :: bool
  lc_signin_url :: bytes
  lc_set_headers :: "'v header_t list option"

definition loc_conf_of :: "'v raw_conf \<Rightarrow> 'v loc_conf" where
  "loc_conf_of c =
     \<lparr> lc_rp_id = the (rw_rp_id c), lc_origins = the (rw_origins c),
       lc_challenge_ttl = the (rw_challenge_ttl c), lc_user_verification = the (rw_user_verification c),
       lc_rate_limit_max = the (rw_rate_limit_max c), lc_rate_limit_window = the (rw_rate_limit_window c),
       lc_redis_host = the (rw_redis_host c), lc_redis_port = the (rw_redis_port c),
       lc_redis_password = the (rw_redis_password c), lc_redis_db = the (rw_redis_db c),
       lc_redis_timeout = the (rw_redis_timeout c), lc_redis_key_prefix = the (rw_redis_key_prefix c),
       lc_jwt_secret = the (rw_jwt_secret c), lc_jwt_pub_pem = the (rw_jwt_pub_pem c),
       lc_jwt_alg = the (rw_jwt_alg c), lc_jwt_alg_family = the (rw_jwt_alg_family c),
       lc_jwt_ttl = the (rw_jwt_ttl c), lc_cookie_name = the (rw_cookie_name c),
       lc_cookie_domain = the (rw_cookie_domain c), lc_cookie_path = the (rw_cookie_path c),
       lc_cookie_secure = the (rw_cookie_secure c), lc_cookie_samesite = the (rw_cookie_samesite c),
       lc_clone_detection = the (rw_clone_detection c), lc_auth = the (rw_auth c),
       lc_signin_url = the (rw_signin_url c), lc_set_headers = the (rw_set_headers c) \<rparr>"

section \<open>Lemmas\<close>

lemma merge_value_set [simp]: "merge_value c p d \<noteq> None"
  by (simp add: merge_value_def split: option.splits)

lemma merge_value_Some [simp]: "merge_value (Some x) p d = Some x"
  by (simp add: merge_value_def)

lemma chomp_loop_eq: "chomp_loop s = dropWhile (\<lambda>c. c = CHR 0x0A \<or> c = CHR 0x0D) s"
  by (induction s) auto

lemma chomp_loop_hd: "chomp_loop s \<noteq> [] \<Longrightarrow> hd (chomp_loop s) \<notin> {CHR 0x0A, CHR 0x0D}"
  using hd_dropWhile [of "\<lambda>c. c = CHR 0x0A \<or> c = CHR 0x0D" s] by (auto simp: chomp_loop_eq)

lemma chomp_split:
  "\<exists>nl. s = ngx_http_auth_webauthn_chomp s @ nl \<and> set nl \<subseteq> {CHR 0x0A, CHR 0x0D}"
proof (intro exI conjI)
  let ?nl = "takeWhile (\<lambda>c. c = CHR 0x0A \<or> c = CHR 0x0D) (rev s)"
  have "s = rev (?nl @ chomp_loop (rev s))" by (simp only: chomp_loop_eq takeWhile_dropWhile_id) simp
  then show "s = ngx_http_auth_webauthn_chomp s @ rev ?nl" by (simp add: ngx_http_auth_webauthn_chomp_def)
  show "set (rev ?nl) \<subseteq> {CHR 0x0A, CHR 0x0D}" by (auto dest: set_takeWhileD)
qed

lemma chomp_last:
  "ngx_http_auth_webauthn_chomp s \<noteq> [] \<Longrightarrow> last (ngx_http_auth_webauthn_chomp s) \<notin> {CHR 0x0A, CHR 0x0D}"
  using chomp_loop_hd [of "rev s"] by (simp add: ngx_http_auth_webauthn_chomp_def last_rev)

section \<open>Properties\<close>

text \<open>Key strength. When \<open>merge_loc_conf\<close> succeeds for a location that mints or checks session
  tokens and its level is the one that loads the key file, the location has a usable key: with an
  HMAC algorithm the secret is the file's content without its trailing line ends and at least 32
  bytes long; otherwise it is the file's content, a PEM private key, and the public PEM the gate
  verifies with is derived from it. A shorter secret or an unreadable file is a configuration error.\<close>

theorem merge_loads_key:
  assumes "ngx_http_auth_webauthn_merge_loc_conf env pool prev conf = (NGX_CONF_OK, c)"
    and "the (rw_auth c) \<or> the (rw_verify_handler c)" and "the (rw_jwt_secret_file c) \<noteq> []"
    and "rw_jwt_secret conf = None" and "rw_jwt_secret prev \<in> {None, Some []}"
  shows "\<exists>file. ngx_http_auth_webauthn_read_file env pool (the (rw_jwt_secret_file c)) = Some file
     \<and> (if the (rw_jwt_alg_family c) = NGX_AUTH_WEBAUTHN_JWT_HMAC
        then rw_jwt_secret c = Some (ngx_http_auth_webauthn_chomp file) \<and> 32 \<le> length (the (rw_jwt_secret c))
        else rw_jwt_secret c = Some file
             \<and> (\<exists>key. PEM_read_bio_PrivateKey env file = Some key \<and> PEM_write_bio_PUBKEY env key = rw_jwt_pub_pem c))"
proof -
  define m where "m = merge_fields prev conf"
  have s: "the (rw_jwt_secret m) = []"
    using assms(4,5) by (auto simp: m_def merge_fields_def merge_value_def)
  have "rw_auth c = rw_auth m" "rw_verify_handler c = rw_verify_handler m" "rw_jwt_secret_file c = rw_jwt_secret_file m"
    "rw_jwt_alg_family c = rw_jwt_alg_family m"
    using assms(1) by (auto simp: ngx_http_auth_webauthn_merge_loc_conf_def Let_def m_def [symmetric]
        split: if_splits option.splits)
  with assms(1-3) s show ?thesis
    by (auto simp: ngx_http_auth_webauthn_merge_loc_conf_def ngx_http_auth_webauthn_derive_pub_pem_def Let_def
        m_def [symmetric] split: if_splits option.splits)
qed

definition ex_env :: "(nat, bytes) conf_env" where
  "ex_env = \<lparr> ngx_conf_full_name = Some, ngx_open_file = (\<lambda>f. if f = ''k'' then Some 0 else None),
     ngx_fd_info = (\<lambda>fd. Some 33), ngx_read_file = (\<lambda>fd n. Some (take n (replicate 32 (CHR ''s'') @ [CHR 0x0A]))),
     PEM_read_bio_PrivateKey = (\<lambda>_. None), PEM_write_bio_PUBKEY = (\<lambda>_. None),
     ngx_atoi = (\<lambda>s. if s = ''6379'' then 6379 else - 1), ngx_parse_time = (\<lambda>_. - 1),
     ngx_conf_set_flag_slot = (\<lambda>v c. if c \<noteq> None then (Conf_msg ''is duplicate'', c)
       else if v = ''on'' then (NGX_CONF_OK, Some True) else if v = ''off'' then (NGX_CONF_OK, Some False)
       else (Conf_msg ''invalid value'', c)) \<rparr>"

definition ex_raw :: "unit raw_conf" where
  "ex_raw = raw_conf_unset\<lparr> rw_auth := Some True, rw_jwt_secret_file := Some ''k'' \<rparr>"

lemma ex_merge:
  "ngx_http_auth_webauthn_merge_loc_conf ex_env ex_pool raw_conf_unset ex_raw
     = (NGX_CONF_OK, (merge_fields raw_conf_unset ex_raw)\<lparr> rw_jwt_secret := Some (replicate 32 (CHR ''s'')) \<rparr>)"
proof -
  have "ngx_http_auth_webauthn_read_file ex_env ex_pool ''k'' = Some (replicate 32 (CHR ''s'') @ [CHR 0x0A])"
    by (simp add: ngx_http_auth_webauthn_read_file_def ex_env_def)
  moreover have "ngx_http_auth_webauthn_chomp (replicate 32 (CHR ''s'') @ [CHR 0x0A]) = replicate 32 (CHR ''s'')"
    by (simp add: ngx_http_auth_webauthn_chomp_def numeral_eq_Suc)
  ultimately show ?thesis
    by (simp add: ngx_http_auth_webauthn_merge_loc_conf_def merge_fields_def ex_raw_def raw_conf_unset_def
        merge_value_def)
qed

theorem merge_loads_key_witness:
  "32 \<le> length (the (rw_jwt_secret (snd (ngx_http_auth_webauthn_merge_loc_conf ex_env ex_pool raw_conf_unset ex_raw))))"
  using merge_loads_key [OF ex_merge] unfolding ex_merge
  by (simp add: merge_fields_def ex_raw_def raw_conf_unset_def merge_value_def)

text \<open>A location that names its own key file below a level whose key is already loaded does not get
  it: \<open>merge_loc_conf\<close> inherits the loaded secret first and then finds it non-empty, so the
  location's \<open>auth_webauthn_jwt_secret_file\<close> is never read and its tokens are signed and checked with
  the outer key.\<close>

theorem merge_ignores_inner_key_file:
  assumes "rw_jwt_secret prev = Some outer" and "outer \<noteq> []" and "rw_jwt_secret conf = None"
    and "rw_jwt_secret_file conf = Some file"
  shows "ngx_http_auth_webauthn_merge_loc_conf env pool prev conf = (NGX_CONF_OK, merge_fields prev conf)
     \<and> rw_jwt_secret (merge_fields prev conf) = Some outer
     \<and> rw_jwt_secret_file (merge_fields prev conf) = Some file"
  using assms
  by (simp add: ngx_http_auth_webauthn_merge_loc_conf_def merge_fields_def merge_value_def)

theorem merge_ignores_inner_key_file_witness:
  "rw_jwt_secret (snd (ngx_http_auth_webauthn_merge_loc_conf ex_env ex_pool
     (ex_raw\<lparr> rw_jwt_secret := Some ''outer'' \<rparr>) (ex_raw\<lparr> rw_jwt_secret_file := Some ''inner'' \<rparr>))) = Some ''outer''"
  using merge_ignores_inner_key_file [of "ex_raw\<lparr> rw_jwt_secret := Some ''outer'' \<rparr>" "''outer''"
      "ex_raw\<lparr> rw_jwt_secret_file := Some ''inner'' \<rparr>" "''inner''" ex_env ex_pool]
  by (simp add: ex_raw_def raw_conf_unset_def)

text \<open>Inheritance and defaults. A successful merge sets every field: what the location sets itself
  is kept, what it leaves unset is inherited, and what neither sets gets the safe default (clone
  detection strict, cookie \<open>Secure\<close> and \<open>SameSite=Strict\<close>, gate off).\<close>

theorem merge_inherits:
  assumes "ngx_http_auth_webauthn_merge_loc_conf env pool prev conf = (rv, c)"
  shows "rw_rp_id c = Some (case rw_rp_id conf of Some x \<Rightarrow> x | None \<Rightarrow> (case rw_rp_id prev of Some x \<Rightarrow> x | None \<Rightarrow> []))
     \<and> rw_clone_detection c = Some (case rw_clone_detection conf of Some x \<Rightarrow> x
         | None \<Rightarrow> (case rw_clone_detection prev of Some x \<Rightarrow> x | None \<Rightarrow> NGX_AUTH_WEBAUTHN_CLONE_STRICT))
     \<and> rw_cookie_secure c = Some (case rw_cookie_secure conf of Some x \<Rightarrow> x
         | None \<Rightarrow> (case rw_cookie_secure prev of Some x \<Rightarrow> x | None \<Rightarrow> True))
     \<and> rw_cookie_samesite c = Some (case rw_cookie_samesite conf of Some x \<Rightarrow> x
         | None \<Rightarrow> (case rw_cookie_samesite prev of Some x \<Rightarrow> x | None \<Rightarrow> Samesite_strict))
     \<and> rw_auth c = Some (case rw_auth conf of Some x \<Rightarrow> x
         | None \<Rightarrow> (case rw_auth prev of Some x \<Rightarrow> x | None \<Rightarrow> False))
     \<and> rw_redis_key_prefix c = Some (case rw_redis_key_prefix conf of Some x \<Rightarrow> x
         | None \<Rightarrow> (case rw_redis_key_prefix prev of Some x \<Rightarrow> x | None \<Rightarrow> ''webauthn:''))"
proof -
  have v: "merge_value a b d = Some (case a of Some x \<Rightarrow> x | None \<Rightarrow> (case b of Some x \<Rightarrow> x | None \<Rightarrow> d))" for a b :: "'z option" and d
    by (simp add: merge_value_def split: option.splits)
  define m where "m = merge_fields prev conf"
  have "rw_rp_id c = rw_rp_id m" "rw_clone_detection c = rw_clone_detection m" "rw_cookie_secure c = rw_cookie_secure m"
    "rw_cookie_samesite c = rw_cookie_samesite m" "rw_auth c = rw_auth m" "rw_redis_key_prefix c = rw_redis_key_prefix m"
    using assms by (auto simp: ngx_http_auth_webauthn_merge_loc_conf_def Let_def m_def [symmetric]
        split: if_splits option.splits)
  then show ?thesis by (simp add: m_def merge_fields_def v)
qed

theorem merge_inherits_witness:
  "rw_clone_detection (snd (ngx_http_auth_webauthn_merge_loc_conf ex_env ex_pool raw_conf_unset ex_raw))
     = Some NGX_AUTH_WEBAUTHN_CLONE_STRICT"
  using merge_inherits [OF ex_merge] unfolding ex_merge by (simp add: ex_raw_def raw_conf_unset_def)

end
