(* ===== verification/Http.thy ===== *)
theory Http
  imports Config
begin

text \<open>
  The request and response side of \<open>src/ngx_http_auth_webauthn_module.c\<close> that its handlers share:
  what they read of a request, what they write of a response, \<open>send_json\<close>, \<open>json_escape\<close> and the
  base64url helper. nginx core (sending, unescaping, base64url) and the \<open>nxe-jwx\<close> submodule are records
  of functions. \<open>ngx_sprintf\<close> with \<open>%V\<close>, \<open>%s\<close> and \<open>%T\<close> is concatenation and \<open>show_int\<close>.
\<close>

section \<open>Requests and responses\<close>

text \<open>\<open>rq_bufs\<close> is the chain of body buffers, each with its bytes and its \<open>in_file\<close> flag; \<open>None\<close> if
  \<open>request_body\<close> or its chain is \<open>NULL\<close>. \<open>rq_user_id\<close> is what \<open>ngx_http_arg\<close> finds for \<open>user_id\<close>.\<close>

record http_req =
  rq_post :: bool
  rq_header_only :: bool
  rq_addr_text :: bytes
  rq_user_id :: "bytes option"
  rq_bufs :: "(bytes \<times> bool) list option"
  rq_cookie :: "bytes list option"

text \<open>\<open>r->headers_out\<close>, the buffer handed to the output filter, and the code the request was finalized
  with.\<close>

record http_out =
  ho_status :: nat
  ho_content_type :: bytes
  ho_content_length :: nat
  ho_headers :: "(bytes \<times> bytes) list"
  ho_location :: "(bytes \<times> bytes) option"
  ho_body :: "bytes option"
  ho_finalized :: "int option"

definition http_out_fresh :: http_out where
  "http_out_fresh = \<lparr> ho_status = 0, ho_content_type = [], ho_content_length = 0, ho_headers = [],
     ho_location = None, ho_body = None, ho_finalized = None \<rparr>"

text \<open>The return codes of a handler: nginx's own and HTTP statuses.\<close>

fun rc_code :: "ngx_int_t \<Rightarrow> int" where
  "rc_code NGX_OK = 0"
| "rc_code NGX_ERROR = - 1"
| "rc_code NGX_DECLINED = - 5"

definition NGX_DONE :: int where "NGX_DONE = - 4"

definition NGX_HTTP_OK :: nat where "NGX_HTTP_OK = 200"

definition NGX_HTTP_SPECIAL_RESPONSE :: int where "NGX_HTTP_SPECIAL_RESPONSE = 300"

definition NGX_HTTP_MOVED_TEMPORARILY :: int where "NGX_HTTP_MOVED_TEMPORARILY = 302"

definition NGX_HTTP_UNAUTHORIZED :: nat where "NGX_HTTP_UNAUTHORIZED = 401"

definition NGX_HTTP_NOT_ALLOWED :: int where "NGX_HTTP_NOT_ALLOWED = 405"

definition NGX_HTTP_TOO_MANY_REQUESTS :: int where "NGX_HTTP_TOO_MANY_REQUESTS = 429"

definition NGX_HTTP_INTERNAL_SERVER_ERROR :: int where "NGX_HTTP_INTERNAL_SERVER_ERROR = 500"

record ngx_core =
  ngx_http_send_header :: "http_out \<Rightarrow> int"
  ngx_http_output_filter :: "http_out \<Rightarrow> bytes \<Rightarrow> int"
  ngx_unescape_uri :: "bytes \<Rightarrow> bytes"
  core_encode_base64url :: "bytes \<Rightarrow> bytes"
  core_decode_base64url :: "bytes \<Rightarrow> bytes option"
  ngx_http_parse_cookie :: "bytes list \<Rightarrow> bytes \<Rightarrow> bytes option"
  ngx_hash_key :: "bytes \<Rightarrow> nat"

text \<open>\<open>nxe-jwx\<close>: \<open>'t\<close> a token, \<open>'ks\<close> a key set, \<open>'p\<close> a payload.\<close>

record ('t, 'ks, 'p) nxe_jwx =
  nxe_jwx_encode :: "bytes \<Rightarrow> bytes option \<Rightarrow> bytes \<Rightarrow> bytes \<Rightarrow> bytes option"
  nxe_jwx_decode :: "bytes \<Rightarrow> 't option"
  nxe_jwx_jwks_parse :: "bytes \<Rightarrow> 'ks option"
  nxe_jwx_jwks_parse_keyval :: "bytes \<Rightarrow> 'ks option"
  nxe_jwx_jws_verify :: "'t \<Rightarrow> 'ks \<Rightarrow> ngx_int_t"
  nxe_jwx_token_payload :: "'t \<Rightarrow> 'p option"
  nxe_jwx_claims_get_string :: "'p \<Rightarrow> string \<Rightarrow> bytes option"
  nxe_jwx_claims_get_integer :: "'p \<Rightarrow> string \<Rightarrow> 64 word option"

section \<open>Helpers\<close>

definition ngx_http_auth_webauthn_send_json ::
    "ngx_core \<Rightarrow> ngx_pool_t \<Rightarrow> http_req \<Rightarrow> http_out \<Rightarrow> nat \<Rightarrow> bytes \<Rightarrow> int \<times> http_out" where
  "ngx_http_auth_webauthn_send_json ngx pool r out status body =
     (let out = out\<lparr> ho_status := status, ho_content_length := length body, ho_content_type := ''application/json'' \<rparr> in
      if \<not> pool ''b'' (length body) then (NGX_HTTP_INTERNAL_SERVER_ERROR, out)
      else
        let rc = ngx_http_send_header ngx out in
        if rc = rc_code NGX_ERROR \<or> rc > rc_code NGX_OK \<or> rq_header_only r then (rc, out)
        else (ngx_http_output_filter ngx out body, out\<lparr> ho_body := Some body \<rparr>))"

definition hex :: "nat \<Rightarrow> char" where
  "hex n = ''0123456789abcdef'' ! n"

fun escape_loop :: "bytes \<Rightarrow> bytes" where
  "escape_loop [] = []"
| "escape_loop (c # cs) =
     (if c = CHR 0x22 then [CHR 0x5C, CHR 0x22]
      else if c = CHR 0x5C then [CHR 0x5C, CHR 0x5C]
      else if c = CHR 0x0A then [CHR 0x5C, CHR ''n'']
      else if c = CHR 0x0D then [CHR 0x5C, CHR ''r'']
      else if c = CHR 0x09 then [CHR 0x5C, CHR ''t'']
      else if byte c < 0x20
      then [CHR 0x5C, CHR ''u'', CHR ''0'', CHR ''0'',
            hex (unat (drop_bit 4 (byte c) AND 0xF)), hex (unat (byte c AND 0xF))]
      else [c])
     @ escape_loop cs"

text \<open>\<open>None\<close> is a result whose \<open>data\<close> is \<open>NULL\<close>.\<close>

definition ngx_http_auth_webauthn_json_escape :: "ngx_pool_t \<Rightarrow> bytes \<Rightarrow> bytes option" where
  "ngx_http_auth_webauthn_json_escape pool src =
     (if length src = 0 then Some []
      else if \<not> pool ''p'' (length src * 6) then None
      else Some (escape_loop src))"

definition ngx_http_auth_webauthn_b64url :: "ngx_core \<Rightarrow> ngx_pool_t \<Rightarrow> bytes \<Rightarrow> bytes option" where
  "ngx_http_auth_webauthn_b64url ngx pool src =
     (if \<not> pool ''dst->data'' (ngx_base64_encoded_length (length src)) then None
      else Some (core_encode_base64url ngx src))"

definition redis_conf_of :: "'v loc_conf \<Rightarrow> redis_conf" where
  "redis_conf_of wlcf =
     \<lparr> rc_host = lc_redis_host wlcf, rc_port = sint (word_of_int (lc_redis_port wlcf) :: 32 word),
       rc_password = lc_redis_password wlcf, rc_db = lc_redis_db wlcf, rc_timeout_ms = lc_redis_timeout wlcf \<rparr>"

section \<open>JSON strings\<close>

text \<open>RFC 8259, section 7: what the characters between the quotes of a JSON string denote, for the
  escapes whose value is one byte. A quote, a bare control character or a dangling escape is not
  part of a string.\<close>

definition unhex :: "char \<Rightarrow> nat option" where
  "unhex c =
     (if is_digit c then Some (digit_val c)
      else if 97 \<le> (of_char c :: nat) \<and> (of_char c :: nat) \<le> 102 then Some (of_char c - 87)
      else if 65 \<le> (of_char c :: nat) \<and> (of_char c :: nat) \<le> 70 then Some (of_char c - 55)
      else None)"

definition short_escape :: "char \<Rightarrow> char option" where
  "short_escape c =
     map_of [(CHR 0x22, CHR 0x22), (CHR 0x5C, CHR 0x5C), (CHR ''/'', CHR ''/''), (CHR ''b'', CHR 0x08),
             (CHR ''f'', CHR 0x0C), (CHR ''n'', CHR 0x0A), (CHR ''r'', CHR 0x0D), (CHR ''t'', CHR 0x09)] c"

fun json_chars :: "bytes \<Rightarrow> bytes option" where
  "json_chars [] = Some []"
| "json_chars (c # cs) =
     (if c = CHR 0x5C then
        (case cs of
           [] \<Rightarrow> None
         | e # es \<Rightarrow>
             if e = CHR ''u'' then
               (case es of
                  h1 # h2 # h3 # h4 # rest \<Rightarrow>
                    (case (unhex h1, unhex h2, unhex h3, unhex h4) of
                       (Some 0, Some 0, Some a, Some b) \<Rightarrow> map_option ((#) (char_of (16 * a + b))) (json_chars rest)
                     | _ \<Rightarrow> None)
                | _ \<Rightarrow> None)
             else (case short_escape e of
                     None \<Rightarrow> None
                   | Some d \<Rightarrow> map_option ((#) d) (json_chars es)))
      else if c = CHR 0x22 \<or> (of_char c :: nat) < 32 then None
      else map_option ((#) c) (json_chars cs))"

declare json_chars.simps(2) [simp del]

lemma json_chars_plain:
  "c \<noteq> CHR 0x5C \<Longrightarrow> c \<noteq> CHR 0x22 \<Longrightarrow> 32 \<le> (of_char c :: nat) \<Longrightarrow> json_chars (c # cs) = map_option ((#) c) (json_chars cs)"
  by (simp add: json_chars.simps(2))

lemma json_chars_short:
  "e \<noteq> CHR ''u'' \<Longrightarrow> short_escape e = Some d \<Longrightarrow>
   json_chars (CHR 0x5C # e # es) = map_option ((#) d) (json_chars es)"
  by (simp add: json_chars.simps(2))

lemma unhex_hex: "n < 16 \<Longrightarrow> unhex (hex n) = Some n"
proof -
  have "\<forall>n \<in> set [0 ..< 16]. unhex (hex n) = Some n" by code_simp
  then show "n < 16 \<Longrightarrow> unhex (hex n) = Some n" by simp
qed

lemma nibbles:
  "unat (drop_bit 4 (byte c) AND 0xF) = (of_char c :: nat) div 16" "unat (byte c AND 0xF) = (of_char c :: nat) mod 16"
proof -
  have m: "unat (w AND 0xF) = unat w mod 16" for w :: "8 word"
  proof -
    have "w AND 0xF = take_bit 4 w" by (simp add: take_bit_eq_mask mask_eq_exp_minus_1)
    then have "unat (w AND 0xF) = take_bit 4 (unat w)" by (simp only: unsigned_take_bit_eq)
    then show ?thesis by (simp add: take_bit_eq_mod)
  qed
  show "unat (byte c AND 0xF) = (of_char c :: nat) mod 16" by (simp add: m)
  have "(of_char c :: nat) div 16 < 16" by (simp add: div_less_iff_less_mult)
  then show "unat (drop_bit 4 (byte c) AND 0xF) = (of_char c :: nat) div 16"
    by (simp only: m unat_drop_bit_eq) (simp add: drop_bit_eq_div)
qed

lemma byte_less: "byte c < 0x20 \<longleftrightarrow> (of_char c :: nat) < 32"
  by (simp add: word_less_nat_alt)

lemma json_chars_control:
  "(of_char c :: nat) < 32 \<Longrightarrow>
   json_chars (CHR 0x5C # CHR ''u'' # CHR ''0'' # CHR ''0'' # hex (of_char c div 16) # hex (of_char c mod 16) # es)
     = map_option ((#) c) (json_chars es)"
proof -
  assume c: "(of_char c :: nat) < 32"
  then have "(of_char c :: nat) div 16 < 16" by simp
  moreover have "unhex (CHR ''0'') = Some 0" by code_simp
  ultimately show ?thesis by (simp add: json_chars.simps(2) unhex_hex)
qed

lemma json_chars_escape_char:
  "json_chars (escape_loop [c] @ es) = map_option ((#) c) (json_chars es)"
proof -
  have "short_escape (CHR 0x22) = Some (CHR 0x22)" "short_escape (CHR 0x5C) = Some (CHR 0x5C)"
    "short_escape (CHR ''n'') = Some (CHR 0x0A)" "short_escape (CHR ''r'') = Some (CHR 0x0D)"
    "short_escape (CHR ''t'') = Some (CHR 0x09)" by (simp_all add: short_escape_def)
  then show ?thesis
    by (simp add: json_chars_short byte_less nibbles json_chars_control json_chars_plain)
qed

lemma escape_loop_Cons: "escape_loop (c # cs) = escape_loop [c] @ escape_loop cs"
  by simp

lemma json_chars_escape: "json_chars (escape_loop s @ es) = map_option ((@) s) (json_chars es)"
proof (induction s)
  case (Cons c s)
  show ?case
    unfolding escape_loop_Cons [of c s] append_assoc json_chars_escape_char Cons.IH
    by (simp add: option.map_comp comp_def)
qed (simp add: option.map_id0 [unfolded id_def] fun_eq_iff option.map_ident)

lemma hex_safe: "n < 16 \<Longrightarrow> hex n \<noteq> CHR 0x22 \<and> 32 \<le> (of_char (hex n) :: nat)"
proof -
  have "\<forall>n \<in> set [0 ..< 16]. hex n \<noteq> CHR 0x22 \<and> 32 \<le> (of_char (hex n) :: nat)" by code_simp
  then show "n < 16 \<Longrightarrow> hex n \<noteq> CHR 0x22 \<and> 32 \<le> (of_char (hex n) :: nat)" by simp
qed

lemma escape_no_control: "x \<in> set (escape_loop s) \<Longrightarrow> 32 \<le> (of_char x :: nat)"
proof (induction s)
  case (Cons c s)
  have "(of_char c :: nat) div 16 < 16" by (simp add: div_less_iff_less_mult)
  with Cons hex_safe show ?case by (auto simp: byte_less nibbles split: if_splits)
qed simp

lemma escape_length: "length (escape_loop s) \<le> length s * 6"
  by (induction s) auto

lemma json_escape_Some: "ngx_http_auth_webauthn_json_escape pool s = Some e \<Longrightarrow> e = escape_loop s"
  by (auto simp: ngx_http_auth_webauthn_json_escape_def split: if_splits)

lemma json_escape_total: "(\<And>site n. pool site n) \<Longrightarrow> ngx_http_auth_webauthn_json_escape pool s = Some (escape_loop s)"
  by (simp add: ngx_http_auth_webauthn_json_escape_def)

lemma escape_inject: "escape_loop s = escape_loop t \<Longrightarrow> s = t"
  using json_chars_escape [of s "[]"] json_chars_escape [of t "[]"] by simp

section \<open>Properties\<close>

text \<open>Escaping is exact. What \<open>ngx_http_auth_webauthn_json_escape\<close> produces is a JSON string body
  (no bare quote, no control character, no dangling escape) that denotes exactly the source bytes,
  whatever they are, and fits the six bytes per source byte it allocates: a user id or PEM placed
  between quotes can neither end the string nor be read back as anything else.\<close>

theorem json_escape_exact:
  assumes "ngx_http_auth_webauthn_json_escape pool s = Some e"
  shows "json_chars e = Some s \<and> (\<forall>x \<in> set e. 32 \<le> (of_char x :: nat)) \<and> length e \<le> length s * 6"
  using json_escape_Some [OF assms] json_chars_escape [of s "[]"] escape_no_control escape_length [of s] by auto

theorem json_escape_exact_witness:
  "json_chars (the (ngx_http_auth_webauthn_json_escape ex_pool [CHR ''a'', CHR 0x22, CHR 0x01]))
     = Some [CHR ''a'', CHR 0x22, CHR 0x01]"
  using json_escape_exact [of ex_pool "[CHR ''a'', CHR 0x22, CHR 0x01]"
      "the (ngx_http_auth_webauthn_json_escape ex_pool [CHR ''a'', CHR 0x22, CHR 0x01])"]
  by (simp add: ngx_http_auth_webauthn_json_escape_def)

section \<open>An example location\<close>

definition ex_conf :: "bytes loc_conf" where
  "ex_conf =
     \<lparr> lc_rp_id = ''rp'', lc_origins = Some [''https://a''], lc_challenge_ttl = 60,
       lc_user_verification = NGX_AUTH_WEBAUTHN_UV_REQUIRED, lc_rate_limit_max = 1, lc_rate_limit_window = 60,
       lc_redis_host = ''h'', lc_redis_port = 6379, lc_redis_password = [], lc_redis_db = 0, lc_redis_timeout = 0,
       lc_redis_key_prefix = ''w:'', lc_jwt_secret = ''secret'', lc_jwt_pub_pem = [], lc_jwt_alg = ''HS256'',
       lc_jwt_alg_family = NGX_AUTH_WEBAUTHN_JWT_HMAC, lc_jwt_ttl = 3600, lc_cookie_name = ''wa'',
       lc_cookie_domain = [], lc_cookie_path = ''/'', lc_cookie_secure = True, lc_cookie_samesite = Samesite_strict,
       lc_clone_detection = NGX_AUTH_WEBAUTHN_CLONE_STRICT, lc_auth = True, lc_signin_url = [],
       lc_set_headers = Some [\<lparr> hdr_name = ''X-User'', hdr_value = ''u'' \<rparr>] \<rparr>"

definition ex_req :: http_req where
  "ex_req = \<lparr> rq_post = True, rq_header_only = False, rq_addr_text = ''::1'', rq_user_id = Some ''u'',
     rq_bufs = Some [(''BODY'', False)], rq_cookie = Some [''wa=T''] \<rparr>"

definition ex_ngx :: ngx_core where
  "ex_ngx = \<lparr> ngx_http_send_header = (\<lambda>_. 0), ngx_http_output_filter = (\<lambda>_ _. 0), ngx_unescape_uri = id,
     core_encode_base64url = ngx_encode_base64url, core_decode_base64url = decoded,
     ngx_http_parse_cookie = (\<lambda>cs name. if cs = [''wa=T''] \<and> name = ''wa'' then Some ''T'' else None),
     ngx_hash_key = length \<rparr>"

end
