(* ===== verification/Redis_Reliable.thy ===== *)
theory Redis_Reliable
  imports Credential
begin

text \<open>
  A Redis server that is up: every connection is made and every command is answered with what it did.
  Under it the client functions return their results and not errors, which is what the completeness
  statements (a valid login is accepted, a quota is exact) need; soundness statements do without.
\<close>

section \<open>The interface\<close>

locale reliable_server = redis_server +
  assumes answers: "redisCommandArgv hi c (cmd # args) s = (r, s') \<Longrightarrow> cmd \<noteq> ''AUTH'' \<Longrightarrow> cmd \<noteq> ''SELECT'' \<Longrightarrow>
      \<exists>rep rep' t. r = Some rep \<and> clock s \<le> t \<and> t \<le> clock s'
        \<and> redis_exec t (cmd # args) (dbs s (sel s c)) = (rep', dbs s' (sel s c)) \<and> same_reply (cmd # args) rep' rep"
    and auth_ok: "redisCommandArgv hi c [''AUTH'', pw] s = (r, s') \<Longrightarrow> \<not> failed r"
    and select_ok: "redisCommandArgv hi c [''SELECT'', show_nat n] s = (r, s') \<Longrightarrow> \<not> failed r"
    and connects: "\<exists>c s'. redisConnect hi h p s = (Some (c, False), s')"
    and opens: "\<exists>c s'. redisConnectWithTimeout hi h p tv s = (Some (c, False), s')"
begin

lemma answered:
  assumes "ngx_auth_webauthn_redis_exec hi rd (cmd # args) s = (r, s')" and "rd_ctx rd = Some c"
    and "cmd \<noteq> ''AUTH''" and "cmd \<noteq> ''SELECT''"
  shows "\<exists>t rep rep'. r = Some rep \<and> clock s \<le> t \<and> t \<le> clock s'
    \<and> redis_exec t (cmd # args) (dbs s (sel s c)) = (rep', dbs s' (sel s c)) \<and> same_reply (cmd # args) rep' rep"
  using answers [of c cmd args s r s'] assms by (auto simp: ngx_auth_webauthn_redis_exec_def)

lemma connect_reliable:
  assumes "ngx_auth_webauthn_redis_connect hi (Some pool) (Some conf) (Some o') s = (rc, out, s')"
    and "\<And>site n. pool site n" and "rc_host conf \<noteq> []" and "rc_db conf < 10 ^ 31"
  shows "rc = NGX_OK"
proof -
  obtain c s1 where e: "connect_open hi conf s = (Some (c, False), s1)"
    using connects [of "rc_host conf" "rc_port conf" s]
      opens [of "rc_host conf" "rc_port conf" "ngx_auth_webauthn_redis_timeval (rc_timeout_ms conf)" s]
    by (cases "0 < rc_timeout_ms conf") (auto simp: connect_open_def)
  define rd where "rd = \<lparr> rd_ctx = Some c, rd_pool = pool \<rparr>"
  have a: "fst (connect_auth hi conf rd x) = NGX_OK" for x
    using auth_ok by (auto simp: connect_auth_def ngx_auth_webauthn_redis_exec_def rd_def split: prod.splits)
  have b: "fst (connect_select hi conf rd x) = NGX_OK" for x
    using select_ok length_show_nat [of "rc_db conf" 31] assms(4)
    by (auto simp: connect_select_def ngx_auth_webauthn_redis_exec_def rd_def NGX_AUTH_WEBAUTHN_REDIS_NUMBUF_def Let_def
        split: prod.splits)
  from assms e a b show ?thesis
    by (auto simp: ngx_auth_webauthn_redis_connect_def Let_def rd_def [symmetric] split: if_splits prod.splits)
      (metis fst_conv)+
qed

lemma incr_expire_reliable:
  assumes "ngx_auth_webauthn_redis_incr_expire hi (Some rd) (Some k) n (Some v0) s = (rc, v, s')"
    and "rd_ctx rd = Some c" and "n < 10 ^ 31"
  obtains t rep where "clock s \<le> t" "t \<le> clock s'"
    "redis_incr_expire t k n (dbs s (sel s c)) = (rep, dbs s' (sel s c))"
    "\<And>i. rep = Reply_Integer i \<Longrightarrow> rc = NGX_OK \<and> v = Some i"
proof -
  obtain r where e: "ngx_auth_webauthn_redis_exec hi rd [''EVAL'', incr_script, ''1'', k, show_nat n] s = (r, s')"
    and rc: "(rc, v) = (case r of Some (Reply_Integer i) \<Rightarrow> (NGX_OK, Some i) | _ \<Rightarrow> (NGX_ERROR, Some 0))"
    using assms length_show_nat [of n 31]
    by (auto simp: ngx_auth_webauthn_redis_incr_expire_def no_conn_def NGX_AUTH_WEBAUTHN_REDIS_NUMBUF_def Let_def
        split: prod.splits option.splits redisReply.splits)
  from answered [OF e assms(2)] obtain t rep where "r = Some rep" "clock s \<le> t" "t \<le> clock s'"
    "redis_incr_expire t k n (dbs s (sel s c)) = (rep, dbs s' (sel s c))" by (auto simp: exec_EVAL)
  moreover have "rc = NGX_OK \<and> v = Some i" if "rep = Reply_Integer i" for i using rc that \<open>r = Some rep\<close> by simp
  ultimately show thesis using that [of t rep] by blast
qed

lemma issue_reliable:
  assumes "ngx_auth_webauthn_challenge_issue hi (Some x) (Some rd) (Some pool) (Some prefix) ttl (Some o') s = (rc, out, s')"
    and "rd_ctx rd = Some c" and "\<And>site n. pool site n" and "length x = 32" and "0 <s ttl" and "ttl \<le>s 0xFFFFFFFF"
  shows "rc = NGX_OK"
proof -
  let ?k = "prefix @ ''chal:'' @ x"
  have ttl: "\<not> ttl \<le>s 0" "\<not> 0xFFFFFFFF <s ttl" using assms(5,6) by (auto simp: word_sless_alt word_sle_eq)
  from ttl_bound [OF this] have n: "0 < unat ttl" "length (show_nat (unat ttl)) \<le> 31" using length_show_nat [of "unat ttl" 31] by simp_all
  obtain r s1 where ex: "ngx_auth_webauthn_redis_exec hi rd [''SET'', ?k, ''1'', ''EX'', show_nat (unat ttl)] s = (r, s1)" by fastforce
  from answered [OF ex assms(2)] n(1) have "\<not> failed r" by (auto simp: exec_SET failed_def is_error_def)
  then show ?thesis
    using assms(1-4) ttl n(2) ex
    by (auto simp: ngx_auth_webauthn_challenge_issue_def ngx_auth_webauthn_challenge_key_def NGX_AUTH_WEBAUTHN_CHALLENGE_LEN_def
        ngx_auth_webauthn_redis_set_ex_def no_conn_def NGX_AUTH_WEBAUTHN_REDIS_NUMBUF_def Let_def split: if_splits)
qed

lemma consume_reliable:
  assumes "ngx_auth_webauthn_challenge_consume hi (Some rd) (Some pool) (Some prefix) (Some x) 32 s = (rc, s')"
    and "rd_ctx rd = Some c" and "\<And>site n. pool site n" and "length x = 32"
    and "dbs s (sel s c) (prefix @ ''chal:'' @ x) = Some (RString v, Some e)" and "clock s' < e"
  shows "rc = NGX_OK"
proof -
  let ?k = "prefix @ ''chal:'' @ x"
  obtain r s1 where ex: "ngx_auth_webauthn_redis_exec hi rd [''GETDEL'', ?k] s = (r, s1)" by fastforce
  from answered [OF ex assms(2)] obtain t rep where r: "r = Some rep" "t \<le> clock s1"
    "redis_exec t [''GETDEL'', ?k] (dbs s (sel s c)) = (rep, dbs s1 (sel s c))" by auto
  have s1: "s1 = s'"
    using assms(1-4) ex by (auto simp: ngx_auth_webauthn_challenge_consume_def NGX_AUTH_WEBAUTHN_CHALLENGE_LEN_def
        ngx_auth_webauthn_challenge_key_def ngx_auth_webauthn_redis_getdel_def no_conn_def Let_def
        split: if_splits prod.splits)
  have "rep = Reply_String v"
    using r(2,3) s1 assms(5,6) by (auto simp: exec_GETDEL live_def entry_def expired_def)
  then show ?thesis
    using assms(1-4) ex r(1) by (auto simp: ngx_auth_webauthn_challenge_consume_def NGX_AUTH_WEBAUTHN_CHALLENGE_LEN_def
        ngx_auth_webauthn_challenge_key_def ngx_auth_webauthn_redis_getdel_def no_conn_def Let_def failed_def is_error_def)
qed

lemma get_reliable:
  assumes "ngx_auth_webauthn_credential_get hi (Some rd) (Some pool) (Some prefix) (Some cid) (Some o') s = (rc, out, s')"
    and "rd_ctx rd = Some c" and "cred_inv prefix (dbs s (sel s c))" and "\<And>site n. pool site n"
    and "cred_abs prefix (dbs s (sel s c)) cid = Some cred"
  shows "rc = NGX_OK \<and> out = Some cred"
proof -
  obtain h where h: "dbs s (sel s c) (cred_key prefix cid) = Some (RHash h, None)" "h \<noteq> []"
    using assms(3,5) by (cases rule: cred_inv_cases [where cid = cid]) (auto simp: cred_abs_def)
  obtain r s1 where ex: "ngx_auth_webauthn_redis_exec hi rd [''HGETALL'', cred_key prefix cid] s = (r, s1)" by fastforce
  from answered [OF ex assms(2)] obtain t rep rep' where r: "r = Some rep"
    "redis_exec t [''HGETALL'', cred_key prefix cid] (dbs s (sel s c)) = (rep', dbs s1 (sel s c))"
    "same_reply [''HGETALL'', cred_key prefix cid] rep' rep" by auto
  have "rep' = Reply_Array (flatten h)" using r(2) h(1) by (simp add: exec_HGETALL live_def entry_def expired_def)
  then have ne: "\<not> is_error rep" using r(3) by (auto simp: same_reply_def is_error_def)
  from HGETALL_reply [OF r(2,3) ne] obtain xs where xs: "rep = Reply_Array (flatten xs)" by blast
  have k: "ngx_auth_webauthn_credential_record_key pool prefix cid = Some (cred_key prefix cid)"
    using assms(4) by (simp add: ngx_auth_webauthn_credential_record_key_def cred_key_def)
  have "rc \<noteq> NGX_ERROR"
    using assms(1,2,4) k ex r(1) xs hgetall_loop_total [of pool xs]
    by (auto simp: ngx_auth_webauthn_credential_get_def ngx_auth_webauthn_redis_hgetall_def no_conn_def Let_def
        failed_def is_error_def split: if_splits option.splits)
  with get_contract(3,4) [OF assms(1-3)] assms(5) show ?thesis by (cases rc) auto
qed

end

interpretation mem_reliable: reliable_server mem_hi mem_dbs mem_sel mem_clock
proof unfold_locales
  fix c cmd args s r s'
  assume a: "redisCommandArgv mem_hi c (cmd # args) s = (r, s')" "cmd \<noteq> ''AUTH''" "cmd \<noteq> ''SELECT''"
  then have "mem_command c (cmd # args) s = (r, s')" by (simp add: mem_hi_def)
  from mem_command_exec [OF this a(2,3)] obtain rep db where
    "redis_exec (mem_clock s) (cmd # args) (mem_dbs s (mem_sel s c)) = (rep, db)" "r = Some rep"
    "s' = s\<lparr> mem_dbs := (mem_dbs s)(mem_sel s c := db), mem_clock := mem_clock s + 1 \<rparr>" by blast
  then show "\<exists>rep rep' t. r = Some rep \<and> mem_clock s \<le> t \<and> t \<le> mem_clock s'
        \<and> redis_exec t (cmd # args) (mem_dbs s (mem_sel s c)) = (rep', mem_dbs s' (mem_sel s c))
        \<and> same_reply (cmd # args) rep' rep"
    by (intro exI [of _ rep] exI [of _ "mem_clock s"]) (simp add: same_reply_def)
qed (auto simp: mem_hi_def mem_connect_def mem_command_def failed_def is_error_def)

end
