(* ===== verification/Challenge_Handler.thy ===== *)
theory Challenge_Handler
  imports Http Redis_Reliable
begin

text \<open>
  The challenge endpoint of \<open>src/ngx_http_auth_webauthn_module.c\<close>: the per-address rate limit and the
  content handler that issues a challenge and lists the credentials of a user. The properties are the
  exact fixed-window quota, what a response means, and that the text fits its buffer.
\<close>

section \<open>The rate limit\<close>

definition rate_key :: "'v loc_conf \<Rightarrow> bytes \<Rightarrow> bytes" where
  "rate_key wlcf ip = lc_redis_key_prefix wlcf @ ''ratelimit:challenge:'' @ ip"

definition ngx_http_auth_webauthn_rate_limit ::
    "('c, 's) hiredis \<Rightarrow> ngx_pool_t \<Rightarrow> http_req \<Rightarrow> 'c redis_t option \<Rightarrow> 'v loc_conf \<Rightarrow> 's \<Rightarrow> ngx_int_t \<times> 's" where
  "ngx_http_auth_webauthn_rate_limit hi pool r redis wlcf s =
     (if lc_rate_limit_max wlcf = 0 then (NGX_OK, s)
      else
        let key = rate_key wlcf (rq_addr_text r) in
        if \<not> pool ''key.data'' (length key) then (NGX_OK, s)
        else
          let (rc, count, s) = ngx_auth_webauthn_redis_incr_expire hi redis (Some key)
                (unat (lc_rate_limit_window wlcf)) (Some 0) s
          in
          if rc \<noteq> NGX_OK then (NGX_OK, s)
          else if unat (word_of_int (the count) :: 64 word) > lc_rate_limit_max wlcf then (NGX_DECLINED, s)
          else (NGX_OK, s))"

section \<open>The content handler\<close>

fun uv_name :: "user_verification \<Rightarrow> bytes" where
  "uv_name NGX_AUTH_WEBAUTHN_UV_REQUIRED = ''required''"
| "uv_name NGX_AUTH_WEBAUTHN_UV_PREFERRED = ''preferred''"
| "uv_name NGX_AUTH_WEBAUTHN_UV_DISCOURAGED = ''discouraged''"

definition NGX_AUTH_WEBAUTHN_ALLOWCRED_OVERHEAD :: nat where
  "NGX_AUTH_WEBAUTHN_ALLOWCRED_OVERHEAD = 32"

definition challenge_head :: "bytes \<Rightarrow> bytes \<Rightarrow> time_t \<Rightarrow> bytes \<Rightarrow> bytes" where
  "challenge_head b64 rp_id ttl uv =
     ''{\"challenge\":\"'' @ b64 @ ''\",\"rpId\":\"'' @ rp_id @ ''\",\"timeout\":'' @ show_int (sint (ttl * 1000))
     @ '',\"userVerification\":\"'' @ uv @ ''\",\"allowCredentials\":[''"

fun allow_creds :: "nat \<Rightarrow> bytes list \<Rightarrow> bytes" where
  "allow_creds i [] = []"
| "allow_creds i (cred # creds) =
     (if i = 0 then '''' else '','') @ ''{\"type\":\"public-key\",\"id\":\"'' @ cred @ ''\"}'' @ allow_creds (i + 1) creds"

definition challenge_body :: "bytes \<Rightarrow> bytes \<Rightarrow> time_t \<Rightarrow> bytes \<Rightarrow> bytes list \<Rightarrow> bytes" where
  "challenge_body b64 rp_id ttl uv creds = challenge_head b64 rp_id ttl uv @ allow_creds 0 creds @ '']}''"

definition challenge_size :: "bytes \<Rightarrow> bytes \<Rightarrow> bytes \<Rightarrow> bytes list \<Rightarrow> nat" where
  "challenge_size b64 rp_id uv creds =
     160 + length b64 + length rp_id + length uv + length creds * NGX_AUTH_WEBAUTHN_ALLOWCRED_OVERHEAD
     + sum_list (map length creds)"

text \<open>The \<open>allowCredentials\<close> lookup: the credential ids of the user named in the query, none without
  one.\<close>

definition allowed_credentials ::
    "('c, 's) hiredis \<Rightarrow> ngx_core \<Rightarrow> ngx_pool_t \<Rightarrow> http_req \<Rightarrow> 'c redis_t option \<Rightarrow> 'v loc_conf \<Rightarrow> 's
     \<Rightarrow> bytes list option \<times> 's" where
  "allowed_credentials hi ngx pool r redis wlcf s =
     (case rq_user_id r of
        None \<Rightarrow> (Some [], s)
      | Some uid \<Rightarrow>
          if length uid = 0 then (Some [], s)
          else if \<not> pool ''dst'' (length uid) then (None, s)
          else
            let uid = ngx_unescape_uri ngx uid;
                index_key = lc_redis_key_prefix wlcf @ ''user:'' @ uid @ '':creds''
            in
            if \<not> pool ''index_key.data'' (length index_key) then (None, s)
            else
              let (rc, creds, s) = ngx_auth_webauthn_redis_smembers hi redis (Some pool) (Some index_key) (Some []) s in
              if rc \<noteq> NGX_OK then (None, s) else (creds, s))"

definition ngx_http_auth_webauthn_challenge_content ::
    "('c, 's) hiredis \<Rightarrow> ngx_core \<Rightarrow> bytes option \<Rightarrow> ngx_pool_t \<Rightarrow> 'v loc_conf \<Rightarrow> http_req \<Rightarrow> http_out \<Rightarrow> 's
     \<Rightarrow> int \<times> http_out \<times> 's" where
  "ngx_http_auth_webauthn_challenge_content hi ngx rand pool wlcf r out s =
     (if length (lc_rp_id wlcf) = 0 \<or> length (lc_redis_host wlcf) = 0
      then (NGX_HTTP_INTERNAL_SERVER_ERROR, out, s)
      else
        let (rc, redis, s) = ngx_auth_webauthn_redis_connect hi (Some pool) (Some (redis_conf_of wlcf)) (Some None) s in
        if rc \<noteq> NGX_OK then (NGX_HTTP_INTERNAL_SERVER_ERROR, out, s)
        else
        let redis = the redis; (rc, s) = ngx_http_auth_webauthn_rate_limit hi pool r redis wlcf s in
        if rc = NGX_DECLINED
        then (NGX_HTTP_TOO_MANY_REQUESTS, out, snd (ngx_auth_webauthn_redis_close hi redis s))
        else
        let (rc, challenge, s) = ngx_auth_webauthn_challenge_issue hi rand redis (Some pool)
              (Some (lc_redis_key_prefix wlcf)) (lc_challenge_ttl wlcf) (Some []) s
        in
        if rc \<noteq> NGX_OK
        then (NGX_HTTP_INTERNAL_SERVER_ERROR, out, snd (ngx_auth_webauthn_redis_close hi redis s))
        else
        let (creds, s) = allowed_credentials hi ngx pool r redis wlcf s;
            s = snd (ngx_auth_webauthn_redis_close hi redis s)
        in
        case creds of
          None \<Rightarrow> (NGX_HTTP_INTERNAL_SERVER_ERROR, out, s)
        | Some creds \<Rightarrow>
          (case ngx_http_auth_webauthn_b64url ngx pool (take NGX_AUTH_WEBAUTHN_CHALLENGE_LEN (the challenge)) of
             None \<Rightarrow> (NGX_HTTP_INTERNAL_SERVER_ERROR, out, s)
           | Some b64 \<Rightarrow>
               let uv = uv_name (lc_user_verification wlcf) in
               if \<not> pool ''body.data'' (challenge_size b64 (lc_rp_id wlcf) uv creds)
               then (NGX_HTTP_INTERNAL_SERVER_ERROR, out, s)
               else
                 let body = challenge_body b64 (lc_rp_id wlcf) (lc_challenge_ttl wlcf) uv creds;
                     (rc, out) = ngx_http_auth_webauthn_send_json ngx pool r out NGX_HTTP_OK body
                 in (rc, out, s)))"

section \<open>Lemmas\<close>

lemma length_show_int: "length (show_int (sint (w :: 64 word))) \<le> 20"
proof -
  have "nat (sint w) < 10 ^ 19" "nat (- sint w) < 10 ^ 19"
    using sint_ge [of w] sint_lt [of w] by simp_all
  then show ?thesis using length_show_nat [of "nat (sint w)" 19] length_show_nat [of "nat (- sint w)" 19]
    by (simp add: show_int_def)
qed

lemma allow_creds_length:
  "length (allow_creds i creds) \<le> length creds * NGX_AUTH_WEBAUTHN_ALLOWCRED_OVERHEAD + sum_list (map length creds)"
  by (induction i creds rule: allow_creds.induct) (auto simp: NGX_AUTH_WEBAUTHN_ALLOWCRED_OVERHEAD_def)

lemma challenge_body_fits:
  "length (challenge_body b64 rp_id ttl uv creds) \<le> challenge_size b64 rp_id uv creds"
  using allow_creds_length [of 0 creds] length_show_int [of "ttl * 1000"]
  by (simp add: challenge_body_def challenge_head_def challenge_size_def)

lemma SMEMBERS_reply:
  assumes "redis_exec t [''SMEMBERS'', k] db = (rep', db')" and "same_reply [''SMEMBERS'', k] rep' rep"
    and "\<not> is_error rep"
  shows "db' = db \<and> (\<exists>xs. rep = Reply_Array (map Reply_String xs)
     \<and> (live t db k = None \<and> xs = [] \<or> (\<exists>ys. live t db k = Some (RSet ys) \<and> mset xs = mset ys)))"
proof -
  have "\<exists>ys. rep' = Reply_Array (map Reply_String ys) \<and> db' = db \<and> (live t db k = None \<and> ys = [] \<or> live t db k = Some (RSet ys))"
    if "\<not> is_error rep'"
    using assms(1) that
    by (auto simp: exec_SMEMBERS wrongtype_def is_error_def split: option.splits rvalue.splits)
  moreover have "\<not> is_error rep'" using assms(2,3) by (auto simp: same_reply_def is_error_def)
  ultimately obtain ys where h: "rep' = Reply_Array (map Reply_String ys)" "db' = db"
    "live t db k = None \<and> ys = [] \<or> live t db k = Some (RSet ys)" by blast
  have "inj redisReply.Reply_String" by (simp add: inj_def)
  with assms(2) h(1) obtain zs where "rep = Reply_Array (map Reply_String zs)" "mset zs = mset ys"
    by (auto simp: same_reply_def inj_map_eq_map)
  with h show ?thesis by auto
qed

context redis_server
begin

lemma smembers_contract:
  assumes "ngx_auth_webauthn_redis_smembers hi (Some rd) (Some pool) (Some k) (Some o') s = (rc, out, s')"
    and "rd_ctx rd = Some c"
  shows "keeps c s s'" and "rc \<noteq> NGX_DECLINED" and "dbs s' = dbs s"
    and "rc = NGX_OK \<Longrightarrow> \<exists>t xs. clock s \<le> t \<and> t \<le> clock s' \<and> out = Some xs
      \<and> (live t (dbs s (sel s c)) k = None \<and> xs = []
         \<or> (\<exists>ys. live t (dbs s (sel s c)) k = Some (RSet ys) \<and> mset xs = mset ys))"
proof -
  obtain r s1 where e: "ngx_auth_webauthn_redis_exec hi rd [''SMEMBERS'', k] s = (r, s1)" by fastforce
  have s1: "s1 = s'" and "rc \<noteq> NGX_DECLINED"
    using assms e by (auto simp: ngx_auth_webauthn_redis_smembers_def no_conn_def Let_def
        split: if_splits redisReply.splits option.splits)
  then show k: "keeps c s s'" and "rc \<noteq> NGX_DECLINED" using exec_keeps(1) [OF e assms(2)] by simp_all
  have "db' = db" if "redis_exec t [''SMEMBERS'', k] db = (rep, db')" for t db db' rep
    using that by (auto simp: exec_SMEMBERS split: option.splits rvalue.splits)
  then have "dbs s' (sel s c) = dbs s (sel s c)" using exec_any [OF e assms(2)] s1 by fastforce
  with k show "dbs s' = dbs s" unfolding keeps_def by (intro ext) metis
  show "\<exists>t xs. clock s \<le> t \<and> t \<le> clock s' \<and> out = Some xs
      \<and> (live t (dbs s (sel s c)) k = None \<and> xs = []
         \<or> (\<exists>ys. live t (dbs s (sel s c)) k = Some (RSet ys) \<and> mset xs = mset ys))" if ok: "rc = NGX_OK"
  proof -
    have nf: "\<not> failed r"
      using assms e ok by (auto simp: ngx_auth_webauthn_redis_smembers_def no_conn_def Let_def split: if_splits)
    then obtain rep where r: "r = Some rep" "\<not> is_error rep" by (auto simp: failed_def split: option.splits)
    from exec_ok [OF e assms(2)] nf r obtain t rep' where t: "clock s \<le> t" "t \<le> clock s1"
      "redis_exec t [''SMEMBERS'', k] (dbs s (sel s c)) = (rep', dbs s1 (sel s c))"
      "same_reply [''SMEMBERS'', k] rep' rep" by auto
    from SMEMBERS_reply [OF t(3,4) r(2)] obtain xs where xs: "rep = Reply_Array (map Reply_String xs)"
      "live t (dbs s (sel s c)) k = None \<and> xs = []
         \<or> (\<exists>ys. live t (dbs s (sel s c)) k = Some (RSet ys) \<and> mset xs = mset ys)" by blast
    have "out = Some xs"
      using assms e nf r xs(1) ok smembers_loop_strings [of pool xs]
      by (auto simp: ngx_auth_webauthn_redis_smembers_def no_conn_def split: if_splits option.splits)
    with t s1 xs(2) show ?thesis by blast
  qed
qed

end

section \<open>The quota\<close>

lemma window_bound: "unat (w :: time_t) < 10 ^ 31"
  using unsigned_less [of w, where ?'a = nat] by simp

context redis_server
begin

lemma rate_limit_frame:
  assumes "ngx_http_auth_webauthn_rate_limit hi pool r (Some rd) wlcf s = (rc, s')" and "rd_ctx rd = Some c"
  shows "keeps c s s' \<and> (\<forall>k. k \<noteq> rate_key wlcf (rq_addr_text r) \<longrightarrow> dbs s' (sel s c) k = dbs s (sel s c) k)"
proof (cases "s' = s")
  case False
  let ?k = "rate_key wlcf (rq_addr_text r)" and ?w = "unat (lc_rate_limit_window wlcf)"
  obtain rc1 v s1 where i: "ngx_auth_webauthn_redis_incr_expire hi (Some rd) (Some ?k) ?w (Some 0) s = (rc1, v, s1)"
    by (metis surj_pair)
  with False assms have "s1 = s'" by (auto simp: ngx_http_auth_webauthn_rate_limit_def Let_def split: if_splits)
  with incr_expire_contract(1,4) [OF i assms(2) window_bound] incr_frame show ?thesis by metis
qed simp

end

lemma int_arg_show_nat [simp]: "int_arg (show_nat n) = Some (int n)"
proof -
  obtain c cs where c: "show_nat n = c # cs" by (cases "show_nat n") auto
  then have "is_digit c" using show_nat_digits [of n] by simp
  then have "c \<noteq> CHR ''-''" by auto
  with c nat_arg_show_nat [of n] show ?thesis by (simp add: int_arg_def)
qed

lemma counter_of_show: "0 < n \<Longrightarrow> n < 2 ^ 63 - 1 \<Longrightarrow> counter_of (Some (RString (show_nat n))) = Some (int n)"
  by (simp add: counter_of_def show_int_def)

text \<open>The counter after \<open>m\<close> requests of the current window, which ends at \<open>u\<close> or later.\<close>

definition counted :: "rdb \<Rightarrow> bytes \<Rightarrow> nat \<Rightarrow> nat \<Rightarrow> bool" where
  "counted db key m u \<longleftrightarrow>
     (if m = 0 then db key = None else \<exists>e \<ge> u. db key = Some (RString (show_nat m), Some e))"

lemma incr_counted:
  assumes "counted db key m u" and "t < u" and "m < 2 ^ 63 - 1" and "0 < w" and "u \<le> t + 1000 * w"
    and "redis_incr_expire t key w db = (rep, db')"
  shows "rep = Reply_Integer (int (Suc m))" and "counted db' key (Suc m) u"
proof (atomize (full), cases "m = 0")
  case True
  with assms show "rep = Reply_Integer (int (Suc m)) \<and> counted db' key (Suc m) u"
    by (auto simp: counted_def redis_incr_expire_def live_def entry_def counter_of_def Let_def show_int_def)
next
  case False
  with assms(1) obtain e where e: "u \<le> e" "db key = Some (RString (show_nat m), Some e)" by (auto simp: counted_def)
  with assms(2) have "entry t db key = Some (RString (show_nat m), Some e)" by (simp add: entry_def expired_def)
  with False assms(3,6) e counter_of_show [of m]
  show "rep = Reply_Integer (int (Suc m)) \<and> counted db' key (Suc m) u"
    by (auto simp: counted_def redis_incr_expire_def live_def Let_def show_int_def nat_add_distrib add.commute)
qed

text \<open>Requests of one address over any connections to the database, and anything else that happens in
  between and does not touch the address's counter.\<close>

inductive rate_step ::
    "('c, 's) hiredis \<Rightarrow> ('s \<Rightarrow> nat \<Rightarrow> rdb) \<Rightarrow> ('s \<Rightarrow> 'c \<Rightarrow> nat) \<Rightarrow> ('s \<Rightarrow> nat) \<Rightarrow> ngx_pool_t \<Rightarrow> http_req \<Rightarrow> 'v loc_conf
     \<Rightarrow> nat \<Rightarrow> 's \<Rightarrow> ngx_int_t option \<Rightarrow> 's \<Rightarrow> bool" for hi dbs sel clock pool r wlcf n where
  call: "rd_ctx rd = Some c \<Longrightarrow> sel s c = n \<Longrightarrow> ngx_http_auth_webauthn_rate_limit hi pool r (Some rd) wlcf s = (rc, s')
     \<Longrightarrow> rate_step hi dbs sel clock pool r wlcf n s (Some rc) s'"
| other: "dbs s' n (rate_key wlcf (rq_addr_text r)) = dbs s n (rate_key wlcf (rq_addr_text r)) \<Longrightarrow> clock s \<le> clock s'
     \<Longrightarrow> rate_step hi dbs sel clock pool r wlcf n s None s'"

inductive_cases rate_stepE: "rate_step hi dbs sel clock pool r wlcf n s e s'"

fun decisions :: "'a option list \<Rightarrow> 'a list" where
  "decisions [] = []"
| "decisions (None # es) = decisions es"
| "decisions (Some rc # es) = rc # decisions es"

text \<open>The verdicts on requests \<open>m + 1, m + 2, \<dots>\<close> of a window.\<close>

fun verdicts :: "nat \<Rightarrow> nat \<Rightarrow> nat \<Rightarrow> ngx_int_t list" where
  "verdicts limit m 0 = []"
| "verdicts limit m (Suc k) = (if m < limit then NGX_OK else NGX_DECLINED) # verdicts limit (Suc m) k"

context reliable_server
begin

lemma rate_limit_mono:
  "ngx_http_auth_webauthn_rate_limit hi pool r (Some rd) wlcf s = (rc, s') \<Longrightarrow> rd_ctx rd = Some c \<Longrightarrow> clock s \<le> clock s'"
  using rate_limit_frame [of pool r rd wlcf s rc s' c] by (simp add: keeps_def)

lemma evolves_clock:
  "evolves (rate_step hi dbs sel clock pool r wlcf n) s es s' \<Longrightarrow> clock s \<le> clock s'"
proof (induction rule: evolves.induct)
  case (evolves_cons s e s1 es s2)
  from evolves_cons.hyps(1) have "clock s \<le> clock s1"
    by cases (auto dest: rate_limit_mono)
  with evolves_cons.IH show ?case by simp
qed simp

lemma rate_limit_counted:
  assumes "ngx_http_auth_webauthn_rate_limit hi pool r (Some rd) wlcf s = (rc, s')" and "rd_ctx rd = Some c"
    and "\<And>site n. pool site n" and "0 < lc_rate_limit_max wlcf" and "0 < lc_rate_limit_window wlcf"
    and "counted (dbs s (sel s c)) (rate_key wlcf (rq_addr_text r)) m u" and "m < 2 ^ 63 - 1"
    and "u \<le> clock s + 1000 * unat (lc_rate_limit_window wlcf)" and "clock s' < u"
  shows "rc = (if m < lc_rate_limit_max wlcf then NGX_OK else NGX_DECLINED)"
    and "counted (dbs s' (sel s c)) (rate_key wlcf (rq_addr_text r)) (Suc m) u" and "clock s \<le> clock s'"
proof -
  let ?k = "rate_key wlcf (rq_addr_text r)" and ?w = "unat (lc_rate_limit_window wlcf)"
  obtain rc1 v s1 where i: "ngx_auth_webauthn_redis_incr_expire hi (Some rd) (Some ?k) ?w (Some 0) s = (rc1, v, s1)"
    by (metis surj_pair)
  with assms(1,3,4) have s1: "s1 = s'" and rc: "rc = (if rc1 \<noteq> NGX_OK then NGX_OK
      else if lc_rate_limit_max wlcf < unat (word_of_int (the v) :: 64 word) then NGX_DECLINED else NGX_OK)"
    by (auto simp: ngx_http_auth_webauthn_rate_limit_def Let_def split: if_splits)
  from incr_expire_reliable [OF i assms(2) window_bound] obtain t rep where t: "clock s \<le> t" "t \<le> clock s1"
    "redis_incr_expire t ?k ?w (dbs s (sel s c)) = (rep, dbs s1 (sel s c))"
    "\<And>i. rep = Reply_Integer i \<Longrightarrow> rc1 = NGX_OK \<and> v = Some i" by metis
  have w: "0 < ?w" using assms(5) by (simp add: word_less_nat_alt)
  have "t < u" "u \<le> t + 1000 * ?w" using t(1,2) assms(8,9) unfolding s1 by linarith+
  note c = incr_counted [OF assms(6) this(1) assms(7) w this(2) t(3)]
  have "unat (word_of_int (int (Suc m)) :: 64 word) = Suc m"
    using assms(7) by (simp only: of_int_of_nat_eq unat_of_nat) (simp add: take_bit_eq_mod)
  then show "rc = (if m < lc_rate_limit_max wlcf then NGX_OK else NGX_DECLINED)"
    using rc t(4) [OF c(1)] by (simp del: of_nat_Suc)
  show "counted (dbs s' (sel s c)) ?k (Suc m) u" using c(2) s1 by simp
  show "clock s \<le> clock s'" using t(1,2) unfolding s1 by linarith
qed

lemma quota_verdicts:
  assumes "evolves (rate_step hi dbs sel clock pool r wlcf n) s es s'"
    and "\<And>site n. pool site n" and "0 < lc_rate_limit_max wlcf" and "0 < lc_rate_limit_window wlcf"
    and "counted (dbs s n) (rate_key wlcf (rq_addr_text r)) m u" and "m + length es < 2 ^ 63 - 1"
    and "u \<le> clock s + 1000 * unat (lc_rate_limit_window wlcf)" and "clock s' < u"
  shows "decisions es = verdicts (lc_rate_limit_max wlcf) m (length (decisions es))
    \<and> clock s \<le> clock s'"
  using assms
proof (induction arbitrary: m rule: evolves.induct)
  case (evolves_cons s e s1 es s2)
  from evolves_cons.hyps(1) show ?case
  proof cases
    case (call rd c rc)
    have keep: "clock s \<le> clock s1" using rate_limit_mono [OF call(4,2)] .
    then have u: "u \<le> clock s1 + 1000 * unat (lc_rate_limit_window wlcf)" using evolves_cons.prems by linarith
    have mono: "clock s1 \<le> clock s2" using evolves_clock [OF evolves_cons.hyps(2)] .
    have lt: "clock s1 < u" "m < 2 ^ 63 - 1" using mono evolves_cons.prems by simp_all
    from call(3) evolves_cons.prems have "counted (dbs s (sel s c)) (rate_key wlcf (rq_addr_text r)) m u" by simp
    note r = rate_limit_counted [OF call(4,2) evolves_cons.prems(1-3) this lt(2) evolves_cons.prems(6) lt(1)]
    have "decisions es = verdicts (lc_rate_limit_max wlcf) (Suc m) (length (decisions es)) \<and> clock s1 \<le> clock s2"
      using r(2) call(3) u evolves_cons.prems(5,7) by (intro evolves_cons.IH [OF evolves_cons.prems(1-3)]) simp_all
    with call(1) r(1) keep show ?thesis by simp
  next
    case other
    have u: "u \<le> clock s1 + 1000 * unat (lc_rate_limit_window wlcf)" using evolves_cons.prems other by linarith
    have "counted (dbs s1 n) (rate_key wlcf (rq_addr_text r)) m u" using evolves_cons.prems other by (simp add: counted_def)
    then have "decisions es = verdicts (lc_rate_limit_max wlcf) m (length (decisions es)) \<and> clock s1 \<le> clock s2"
      using u evolves_cons.prems(5,7) by (intro evolves_cons.IH [OF evolves_cons.prems(1-3)]) simp_all
    with other show ?thesis by simp
  qed
qed simp

end

lemma verdicts_eq: "verdicts limit m k = replicate (min k (limit - m)) NGX_OK @ replicate (k - (limit - m)) NGX_DECLINED"
proof (induction k arbitrary: m)
  case (Suc k)
  show ?case
  proof (cases "m < limit")
    case True
    then have "limit - m = Suc (limit - Suc m)" by simp
    with Suc True show ?thesis by simp
  qed (use Suc in simp)
qed simp

section \<open>What a response means\<close>

lemma chal_key_distinct:
  "prefix @ ''chal:'' @ x \<noteq> cred_key prefix cid" "prefix @ ''chal:'' @ x \<noteq> index_key prefix uid"
  "rate_key wlcf ip \<noteq> cred_key (lc_redis_key_prefix wlcf) cid" "rate_key wlcf ip \<noteq> index_key (lc_redis_key_prefix wlcf) uid"
  "rate_key wlcf ip \<noteq> lc_redis_key_prefix wlcf @ ''chal:'' @ x"
  by (simp_all add: cred_key_def index_key_def rate_key_def)

text \<open>A key that is neither a record nor an index does not matter to the credential store.\<close>

lemma cred_inv_frame:
  assumes "\<And>cid. db' (cred_key prefix cid) = db (cred_key prefix cid)"
    and "\<And>uid. db' (index_key prefix uid) = db (index_key prefix uid)"
  shows "cred_inv prefix db' = cred_inv prefix db" and "cred_abs prefix db' = cred_abs prefix db"
    and "cred_index prefix db' = cred_index prefix db"
  using assms by (auto simp: cred_inv_def cred_abs_def cred_index_def fun_eq_iff)

definition requested_creds :: "ngx_core \<Rightarrow> http_req \<Rightarrow> bytes \<Rightarrow> rdb \<Rightarrow> bytes set" where
  "requested_creds ngx r prefix db =
     (case rq_user_id r of
        None \<Rightarrow> {}
      | Some uid \<Rightarrow> if uid = [] then {} else cred_index prefix db (ngx_unescape_uri ngx uid))"

lemma send_json_out:
  assumes "ngx_http_auth_webauthn_send_json ngx pool r out status body = (rc, out')"
  shows "ho_status out' = status" "ho_headers out' = ho_headers out" "ho_body out' = ho_body out \<or> ho_body out' = Some body"
    "ho_finalized out' = ho_finalized out"
  using assms by (auto simp: ngx_http_auth_webauthn_send_json_def Let_def split: if_splits)

context redis_server
begin

lemma allowed_credentials_contract:
  assumes "allowed_credentials hi ngx pool r (Some rd) wlcf s = (creds, s')" and "rd_ctx rd = Some c"
    and "cred_inv (lc_redis_key_prefix wlcf) (dbs s (sel s c))"
  shows "keeps c s s' \<and> dbs s' = dbs s
     \<and> (\<forall>cs. creds = Some cs \<longrightarrow> set cs = requested_creds ngx r (lc_redis_key_prefix wlcf) (dbs s (sel s c)))"
proof (cases "\<exists>uid. rq_user_id r = Some uid \<and> uid \<noteq> []")
  case True
  then obtain uid where uid: "rq_user_id r = Some uid" "uid \<noteq> []" by blast
  define k where "k = index_key (lc_redis_key_prefix wlcf) (ngx_unescape_uri ngx uid)"
  obtain rc out s1 where m: "ngx_auth_webauthn_redis_smembers hi (Some rd) (Some pool) (Some k) (Some []) s = (rc, out, s1)"
    by (metis surj_pair)
  note sm = smembers_contract [OF m assms(2)]
  from assms(1) uid m consider "creds = None" "s' = s" | "creds = (if rc = NGX_OK then out else None)" "s' = s1"
    by (auto simp: allowed_credentials_def k_def index_key_def Let_def split: if_splits prod.splits)
  then show ?thesis
  proof cases
    case 2
    have "set cs = requested_creds ngx r (lc_redis_key_prefix wlcf) (dbs s (sel s c))" if "creds = Some cs" for cs
    proof -
      from that 2(1) have "rc = NGX_OK" "out = Some cs" by (auto split: if_splits)
      with sm(4) obtain t where t: "live t (dbs s (sel s c)) k = None \<and> cs = []
         \<or> (\<exists>ys. live t (dbs s (sel s c)) k = Some (RSet ys) \<and> mset cs = mset ys)" by auto
      then show ?thesis
        using uid by (auto simp: requested_creds_def cred_index_def live_def k_def cred_inv_entry [OF assms(3)]
            dest: mset_eq_setD split: option.splits)
    qed
    with 2 sm show ?thesis by auto
  qed simp
qed (use assms(1) in \<open>auto simp: allowed_credentials_def requested_creds_def split: option.splits\<close>)

text \<open>The stages of a request that got a challenge.\<close>

lemma challenge_content_stages:
  assumes "ngx_http_auth_webauthn_challenge_content hi ngx rand pool wlcf r out0 s = (rc, out, s')"
    and "ho_body out0 = None" and "ho_body out \<noteq> None"
  obtains rd c s1 rc2 s2 x s3 creds s4 rc5 where
    "ngx_auth_webauthn_redis_connect hi (Some pool) (Some (redis_conf_of wlcf)) (Some None) s = (NGX_OK, Some (Some rd), s1)"
    "rd_ctx rd = Some c" "sel s1 c = lc_redis_db wlcf"
    "ngx_http_auth_webauthn_rate_limit hi pool r (Some rd) wlcf s1 = (rc2, s2)"
    "ngx_auth_webauthn_challenge_issue hi rand (Some rd) (Some pool) (Some (lc_redis_key_prefix wlcf))
       (lc_challenge_ttl wlcf) (Some []) s2 = (NGX_OK, Some x, s3)"
    "allowed_credentials hi ngx pool r (Some rd) wlcf s3 = (Some creds, s4)"
    "s' = snd (ngx_auth_webauthn_redis_close hi (Some rd) s4)"
    "ngx_http_auth_webauthn_send_json ngx pool r out0 NGX_HTTP_OK
       (challenge_body (core_encode_base64url ngx (take 32 x)) (lc_rp_id wlcf) (lc_challenge_ttl wlcf)
         (uv_name (lc_user_verification wlcf)) creds) = (rc5, out)"
proof -
  obtain rc1 redis s1 where c: "ngx_auth_webauthn_redis_connect hi (Some pool) (Some (redis_conf_of wlcf)) (Some None) s = (rc1, redis, s1)"
    by (metis surj_pair)
  have "rc1 = NGX_OK"
    using assms c by (auto simp: ngx_http_auth_webauthn_challenge_content_def Let_def split: if_splits)
  with connect_contract [OF c] obtain rd cn where rd: "redis = Some (Some rd)" "rd_ctx rd = Some cn" "sel s1 cn = lc_redis_db wlcf"
    by (auto simp: redis_conf_of_def)
  obtain rc2 s2 where rl: "ngx_http_auth_webauthn_rate_limit hi pool r (Some rd) wlcf s1 = (rc2, s2)" by fastforce
  obtain rc3 ch s3 where i: "ngx_auth_webauthn_challenge_issue hi rand (Some rd) (Some pool) (Some (lc_redis_key_prefix wlcf))
       (lc_challenge_ttl wlcf) (Some []) s2 = (rc3, ch, s3)" by (metis surj_pair)
  obtain creds s4 where a: "allowed_credentials hi ngx pool r (Some rd) wlcf s3 = (creds, s4)" by fastforce
  note stages = \<open>rc1 = NGX_OK\<close> c rd(1) rl i a
  have "rc3 = NGX_OK" "creds \<noteq> None"
    using assms stages by (auto simp: ngx_http_auth_webauthn_challenge_content_def Let_def split: if_splits option.splits)
  then obtain x cs where x: "ch = Some x" "creds = Some cs"
    using i by (auto simp: ngx_auth_webauthn_challenge_issue_def Let_def split: if_splits option.splits prod.splits)
  have "s' = snd (ngx_auth_webauthn_redis_close hi (Some rd) s4) \<and> (\<exists>rc5. ngx_http_auth_webauthn_send_json ngx pool r out0 NGX_HTTP_OK
       (challenge_body (core_encode_base64url ngx (take 32 x)) (lc_rp_id wlcf) (lc_challenge_ttl wlcf)
         (uv_name (lc_user_verification wlcf)) cs) = (rc5, out))"
    using assms stages x \<open>rc3 = NGX_OK\<close>
    by (auto simp: ngx_http_auth_webauthn_challenge_content_def ngx_http_auth_webauthn_b64url_def
        NGX_AUTH_WEBAUTHN_CHALLENGE_LEN_def Let_def split: if_splits prod.splits)
  with that [of rd s1 cn rc2 s2 x s3 cs s4] stages rd x \<open>rc3 = NGX_OK\<close> show thesis by auto
qed

lemma challenge_content_contract:
  assumes "ngx_http_auth_webauthn_challenge_content hi ngx (Some x) pool wlcf r out0 s = (rc, out, s')" and "length x = 32"
    and "ho_body out0 = None" and "ho_body out \<noteq> None" and "cred_inv (lc_redis_key_prefix wlcf) (dbs s (lc_redis_db wlcf))"
  shows "\<exists>creds. ho_status out = NGX_HTTP_OK \<and> ho_body out = Some (challenge_body (core_encode_base64url ngx x) (lc_rp_id wlcf)
        (lc_challenge_ttl wlcf) (uv_name (lc_user_verification wlcf)) creds)
     \<and> set creds = requested_creds ngx r (lc_redis_key_prefix wlcf) (dbs s (lc_redis_db wlcf))
     \<and> (\<exists>t. clock s \<le> t \<and> t \<le> clock s' \<and> dbs s' (lc_redis_db wlcf) (lc_redis_key_prefix wlcf @ ''chal:'' @ x)
              = Some (RString ''1'', Some (t + 1000 * unat (lc_challenge_ttl wlcf))))
     \<and> (\<forall>k. k \<noteq> lc_redis_key_prefix wlcf @ ''chal:'' @ x \<and> k \<noteq> rate_key wlcf (rq_addr_text r)
          \<longrightarrow> dbs s' (lc_redis_db wlcf) k = dbs s (lc_redis_db wlcf) k)"
  using assms(1,3,4)
proof (rule challenge_content_stages)
  fix rd c s1 rc2 s2 y s3 creds s4 rc5
  let ?p = "lc_redis_key_prefix wlcf" and ?n = "lc_redis_db wlcf"
  assume con: "ngx_auth_webauthn_redis_connect hi (Some pool) (Some (redis_conf_of wlcf)) (Some None) s = (NGX_OK, Some (Some rd), s1)"
    and c: "rd_ctx rd = Some c" "sel s1 c = ?n"
    and rl: "ngx_http_auth_webauthn_rate_limit hi pool r (Some rd) wlcf s1 = (rc2, s2)"
    and iss: "ngx_auth_webauthn_challenge_issue hi (Some x) (Some rd) (Some pool) (Some ?p) (lc_challenge_ttl wlcf) (Some []) s2
        = (NGX_OK, Some y, s3)"
    and ac: "allowed_credentials hi ngx pool r (Some rd) wlcf s3 = (Some creds, s4)"
    and s': "s' = snd (ngx_auth_webauthn_redis_close hi (Some rd) s4)"
    and sj: "ngx_http_auth_webauthn_send_json ngx pool r out0 NGX_HTTP_OK (challenge_body (core_encode_base64url ngx (take 32 y))
        (lc_rp_id wlcf) (lc_challenge_ttl wlcf) (uv_name (lc_user_verification wlcf)) creds) = (rc5, out)"
  from connect_contract [OF con] have 1: "dbs s1 = dbs s" "clock s \<le> clock s1" by auto
  from rate_limit_frame [OF rl c(1)] c(2) 1 have 2: "clock s1 \<le> clock s2" "sel s2 c = ?n"
    "\<And>k. k \<noteq> rate_key wlcf (rq_addr_text r) \<Longrightarrow> dbs s2 ?n k = dbs s ?n k" by (auto simp: keeps_def)
  from issue_contract [OF iss c(1) assms(2)] 2(2) obtain t where 3: "y = x" "clock s2 \<le> t" "t \<le> clock s3" "sel s3 c = ?n"
    "dbs s3 ?n = (dbs s2 ?n)(?p @ ''chal:'' @ x := Some (RString ''1'', Some (t + 1000 * unat (lc_challenge_ttl wlcf))))"
    by (auto simp: keeps_def)
  have key: "dbs s3 ?n k = dbs s ?n k" if "k \<noteq> ?p @ ''chal:'' @ x" "k \<noteq> rate_key wlcf (rq_addr_text r)" for k
    using that 2(3) 3(5) by simp
  have "dbs s3 ?n (cred_key ?p i) = dbs s ?n (cred_key ?p i)" "dbs s3 ?n (index_key ?p i) = dbs s ?n (index_key ?p i)" for i
    using key chal_key_distinct by metis+
  note f = cred_inv_frame [where prefix = ?p, OF this]
  have req: "requested_creds ngx r ?p (dbs s3 ?n) = requested_creds ngx r ?p (dbs s ?n)"
    by (simp add: requested_creds_def f(3) split: option.splits)
  from allowed_credentials_contract [OF ac c(1)] f(1) 3(4) assms(5)
  have 4: "clock s3 \<le> clock s4" "dbs s4 = dbs s3" "set creds = requested_creds ngx r ?p (dbs s ?n)"
    by (simp_all add: keeps_def req)
  have 5: "dbs s' = dbs s3" "clock s4 \<le> clock s'" using close_keeps [where rd = "Some rd" and s = s4] 4(2) s' by simp_all
  have "clock s \<le> t" "t \<le> clock s'" using 1 2(1) 3(2,3) 4(1) 5(2) by linarith+
  with send_json_out [OF sj] 3 4(3) 5(1) key assms(2-4) show ?thesis
    by (intro exI [of _ creds]) (auto intro!: exI [of _ t])
qed

end

context reliable_server
begin

lemma smembers_reliable:
  assumes "ngx_auth_webauthn_redis_smembers hi (Some rd) (Some pool) (Some (index_key prefix uid)) (Some o') s = (rc, out, s')"
    and "rd_ctx rd = Some c" and "cred_inv prefix (dbs s (sel s c))" and "\<And>site n. pool site n"
  shows "rc = NGX_OK \<and> (\<exists>xs. out = Some xs)"
proof -
  let ?k = "index_key prefix uid"
  obtain q s1 where ex: "ngx_auth_webauthn_redis_exec hi rd [''SMEMBERS'', ?k] s = (q, s1)" by fastforce
  from answered [OF ex assms(2)] obtain t rep rep' where q: "q = Some rep"
    "redis_exec t [''SMEMBERS'', ?k] (dbs s (sel s c)) = (rep', dbs s1 (sel s c))" "same_reply [''SMEMBERS'', ?k] rep' rep" by auto
  have "\<not> is_error rep'"
    by (cases rule: index_inv_cases [OF assms(3), of uid])
      (use q(2) in \<open>auto simp: exec_SMEMBERS live_def cred_inv_entry [OF assms(3)] is_error_def\<close>)
  then have ne: "\<not> is_error rep" using q(3) by (auto simp: same_reply_def is_error_def)
  from SMEMBERS_reply [OF q(2,3) ne] obtain xs where xs: "rep = Reply_Array (map Reply_String xs)" by blast
  have l: "smembers_loop pool (map Reply_String xs) = Some xs"
    using assms(4) by (induction xs) (auto simp: ngx_auth_webauthn_redis_dup_def)
  from assms(1,2,4) q(1) xs ex show ?thesis
    by (auto simp: l ngx_auth_webauthn_redis_smembers_def no_conn_def failed_def is_error_def Let_def split: if_splits)
qed

lemma allowed_credentials_reliable:
  assumes "allowed_credentials hi ngx pool r (Some rd) wlcf s = (creds, s')" and "rd_ctx rd = Some c"
    and "cred_inv (lc_redis_key_prefix wlcf) (dbs s (sel s c))" and "\<And>site n. pool site n"
  shows "creds \<noteq> None"
proof (cases "\<exists>uid. rq_user_id r = Some uid \<and> uid \<noteq> []")
  case True
  then obtain uid where uid: "rq_user_id r = Some uid" "uid \<noteq> []" by blast
  obtain rc out s1 where m: "ngx_auth_webauthn_redis_smembers hi (Some rd) (Some pool)
      (Some (index_key (lc_redis_key_prefix wlcf) (ngx_unescape_uri ngx uid))) (Some []) s = (rc, out, s1)" by (metis surj_pair)
  have "rc = NGX_OK \<and> (\<exists>xs. out = Some xs)" by (rule smembers_reliable [OF m assms(2,3)]) (rule assms(4))
  with assms(1,4) uid m show ?thesis
    by (auto simp: allowed_credentials_def index_key_def Let_def split: if_splits prod.splits)
qed (use assms(1) in \<open>auto simp: allowed_credentials_def split: option.splits\<close>)

lemma challenge_content_reliable:
  assumes "ngx_http_auth_webauthn_challenge_content hi ngx (Some x) pool wlcf r out0 s = (rc, out, s')" and "length x = 32"
    and "\<And>site n. pool site n" and "lc_rp_id wlcf \<noteq> []" and "lc_redis_host wlcf \<noteq> []" and "lc_redis_db wlcf < 10 ^ 31"
    and "0 <s lc_challenge_ttl wlcf" and "lc_challenge_ttl wlcf \<le>s 0xFFFFFFFF"
    and "\<And>out. ngx_http_send_header ngx out = 0" and "\<not> rq_header_only r"
    and "cred_inv (lc_redis_key_prefix wlcf) (dbs s (lc_redis_db wlcf))"
  shows "ho_body out \<noteq> None \<or> rc = NGX_HTTP_TOO_MANY_REQUESTS \<and> out = out0 \<and> 0 < lc_rate_limit_max wlcf"
proof -
  let ?p = "lc_redis_key_prefix wlcf" and ?n = "lc_redis_db wlcf"
  obtain rc1 redis s1 where con: "ngx_auth_webauthn_redis_connect hi (Some pool) (Some (redis_conf_of wlcf)) (Some None) s = (rc1, redis, s1)"
    by (metis surj_pair)
  from connect_reliable [OF con assms(3)] assms(5,6) have ok: "rc1 = NGX_OK" by (simp add: redis_conf_of_def)
  with connect_contract [OF con] obtain rd c where c: "redis = Some (Some rd)" "rd_ctx rd = Some c" "sel s1 c = ?n" "dbs s1 = dbs s"
    by (auto simp: redis_conf_of_def)
  obtain rc2 s2 where rl: "ngx_http_auth_webauthn_rate_limit hi pool r (Some rd) wlcf s1 = (rc2, s2)" by fastforce
  from rate_limit_frame [OF rl c(2)] c(3,4) have 2: "sel s2 c = ?n"
    "\<And>k. k \<noteq> rate_key wlcf (rq_addr_text r) \<Longrightarrow> dbs s2 ?n k = dbs s ?n k" by (auto simp: keeps_def)
  have max: "0 < lc_rate_limit_max wlcf" if "rc2 = NGX_DECLINED"
    using rl that by (cases "lc_rate_limit_max wlcf") (auto simp: ngx_http_auth_webauthn_rate_limit_def)
  obtain rc3 ch s3 where i: "ngx_auth_webauthn_challenge_issue hi (Some x) (Some rd) (Some pool) (Some ?p)
       (lc_challenge_ttl wlcf) (Some []) s2 = (rc3, ch, s3)" by (metis surj_pair)
  from issue_reliable [OF i c(2) assms(3,2,7,8)] have 3: "rc3 = NGX_OK" .
  note is3 = issue_contract [OF i c(2) assms(2)]
  have sel3: "sel s3 c = ?n" using is3(1) 2(1) by (simp add: keeps_def)
  have "dbs s3 ?n (cred_key ?p j) = dbs s ?n (cred_key ?p j)" "dbs s3 ?n (index_key ?p j) = dbs s ?n (index_key ?p j)" for j
    using is3(4) 2 chal_key_distinct by metis+
  from cred_inv_frame(1) [where prefix = ?p, OF this] assms(11) sel3 have inv: "cred_inv ?p (dbs s3 (sel s3 c))" by simp
  obtain creds s4 where a: "allowed_credentials hi ngx pool r (Some rd) wlcf s3 = (creds, s4)" by fastforce
  from allowed_credentials_reliable [OF a c(2) inv assms(3)] obtain cs where cs: "creds = Some cs" by blast
  from assms(1,3,4,5,9,10) con ok c(1) rl i 3 a cs max show ?thesis
    by (auto simp: ngx_http_auth_webauthn_challenge_content_def ngx_http_auth_webauthn_b64url_def
        ngx_http_auth_webauthn_send_json_def Let_def split: if_splits prod.splits)
qed

end

section \<open>Properties\<close>


lemma ex_rate:
  "\<exists>rc s'. ngx_http_auth_webauthn_rate_limit mem_hi ex_pool ex_req (Some ex_redis) ex_conf s = (rc, s')
     \<and> mem_clock s' = mem_clock s + 1 \<and> mem_sel s' = mem_sel s"
proof -
  have "length (show_nat 60) < 32" using length_show_nat [of 60 31] by simp
  then show ?thesis
    by (simp add: ngx_http_auth_webauthn_rate_limit_def ngx_auth_webauthn_redis_incr_expire_def mem_exec ex_conf_def
        NGX_AUTH_WEBAUTHN_REDIS_NUMBUF_def Let_def split: prod.splits redisReply.splits)
qed




lemma ex_challenge_sent:
  "\<exists>rc out s' body. ngx_http_auth_webauthn_challenge_content mem_hi ex_ngx (Some ex_challenge) ex_pool
     (ex_conf\<lparr> lc_rate_limit_max := 0 \<rparr>) ex_req http_out_fresh ex_store = (rc, out, s') \<and> ho_body out = Some body"
proof -
  obtain rc out s' where e: "ngx_http_auth_webauthn_challenge_content mem_hi ex_ngx (Some ex_challenge) ex_pool
     (ex_conf\<lparr> lc_rate_limit_max := 0 \<rparr>) ex_req http_out_fresh ex_store = (rc, out, s')" by (metis surj_pair)
  have t: "(0 :: time_t) <s 60" "(60 :: time_t) \<le>s 0xFFFFFFFF" by code_simp+
  have "mem_dbs ex_store 0 = ex_db" by (simp add: ex_store_def)
  from mem_reliable.challenge_content_reliable [OF e ex_challenge_len] t ex_db_inv this e show ?thesis
    by (auto simp: ex_conf_def ex_ngx_def ex_req_def)
qed


end
