(* ===== verification/Verify_Handler.thy ===== *)
theory Verify_Handler
  imports Challenge_Handler
begin

text \<open>
  The verify endpoint of \<open>src/ngx_http_auth_webauthn_module.c\<close>: reading the request, the login itself
  (challenge, credential, assertion, counter) and the session token. The properties are the soundness
  and completeness of a login, the uniform refusal, and the strict order of the counters of accepted
  logins.
\<close>

section \<open>Reading the request\<close>

definition NGX_AUTH_WEBAUTHN_MAX_BODY :: nat where
  "NGX_AUTH_WEBAUTHN_MAX_BODY = 64 * 1024"

definition ngx_http_auth_webauthn_verify_fail :: "ngx_core \<Rightarrow> ngx_pool_t \<Rightarrow> http_req \<Rightarrow> http_out \<Rightarrow> int \<times> http_out" where
  "ngx_http_auth_webauthn_verify_fail ngx pool r out =
     ngx_http_auth_webauthn_send_json ngx pool r out NGX_HTTP_UNAUTHORIZED ''{\"ok\":false,\"error\":\"E_ASSERTION\"}''"

fun body_len :: "(bytes \<times> bool) list \<Rightarrow> nat \<Rightarrow> nat option" where
  "body_len [] len = Some len"
| "body_len ((buf, in_file) # cl) len =
     (let len = len + length buf in if in_file then None else body_len cl len)"

definition ngx_http_auth_webauthn_read_body :: "ngx_pool_t \<Rightarrow> http_req \<Rightarrow> bytes option" where
  "ngx_http_auth_webauthn_read_body pool r =
     (case rq_bufs r of
        None \<Rightarrow> None
      | Some bufs \<Rightarrow>
          (case body_len bufs 0 of
             None \<Rightarrow> None
           | Some len \<Rightarrow>
               if len = 0 \<or> len > NGX_AUTH_WEBAUTHN_MAX_BODY then None
               else if \<not> pool ''out->data'' len then None
               else Some (concat (map fst bufs))))"

definition ngx_http_auth_webauthn_b64url_field ::
    "ngx_core \<Rightarrow> 'j nxe_json \<Rightarrow> ngx_pool_t \<Rightarrow> 'j \<Rightarrow> string \<Rightarrow> bytes option" where
  "ngx_http_auth_webauthn_b64url_field ngx js pool obj name =
     (case nxe_json_object_get_string js obj name of
        None \<Rightarrow> None
      | Some enc \<Rightarrow>
          if length enc = 0 then None
          else if \<not> pool ''out->data'' (ngx_base64_decoded_length (length enc)) then None
          else core_decode_base64url ngx enc)"

text \<open>The part of the post-handler before Redis is contacted; \<open>None\<close> is \<open>goto reject\<close>. The results are the
  credential id, the assertion and the challenge its client data names.\<close>

definition verify_parse ::
    "ngx_core \<Rightarrow> 'j nxe_json \<Rightarrow> ngx_pool_t \<Rightarrow> bytes \<Rightarrow> (bytes \<times> assertion \<times> bytes) option" where
  "verify_parse ngx js pool body =
     (case nxe_json_parse_untrusted js body of
        None \<Rightarrow> None
      | Some root \<Rightarrow>
      if \<not> nxe_json_is_object js root then None
      else
      (case nxe_json_object_get_string js root ''id'' of
        None \<Rightarrow> None
      | Some cid \<Rightarrow>
      if length cid = 0 then None
      else
      (case nxe_json_object_get js root ''response'' of
        None \<Rightarrow> None
      | Some response \<Rightarrow>
      if \<not> nxe_json_is_object js response then None
      else
      (case ngx_http_auth_webauthn_b64url_field ngx js pool response ''clientDataJSON'' of
        None \<Rightarrow> None
      | Some client_data_json \<Rightarrow>
      (case ngx_http_auth_webauthn_b64url_field ngx js pool response ''authenticatorData'' of
        None \<Rightarrow> None
      | Some authenticator_data \<Rightarrow>
      (case ngx_http_auth_webauthn_b64url_field ngx js pool response ''signature'' of
        None \<Rightarrow> None
      | Some signature \<Rightarrow>
      (case nxe_json_parse_untrusted js client_data_json of
        None \<Rightarrow> None
      | Some cdj \<Rightarrow>
      if \<not> nxe_json_is_object js cdj then None
      else
      (case nxe_json_object_get_string js cdj ''challenge'' of
        None \<Rightarrow> None
      | Some challenge_b64 \<Rightarrow>
      if \<not> pool ''challenge_raw.data'' (ngx_base64_decoded_length (length challenge_b64)) then None
      else
      (case core_decode_base64url ngx challenge_b64 of
        None \<Rightarrow> None
      | Some challenge_raw \<Rightarrow>
          Some (cid, \<lparr> as_authenticator_data = Some authenticator_data, as_client_data_json = Some client_data_json,
                      as_signature = signature \<rparr>, challenge_raw))))))))))"

section \<open>The session token\<close>

fun samesite_name :: "samesite \<Rightarrow> string" where
  "samesite_name Samesite_strict = ''Strict''"
| "samesite_name Samesite_lax = ''Lax''"
| "samesite_name Samesite_none = ''None''"

definition claims_json :: "bytes \<Rightarrow> bytes \<Rightarrow> bytes \<Rightarrow> time_t \<Rightarrow> time_t \<Rightarrow> bytes \<Rightarrow> bytes" where
  "claims_json aud sub cid iat exp jti =
     ''{\"iss\":\"nginx-webauthn\",\"aud\":\"'' @ aud @ ''\",\"sub\":\"'' @ sub @ ''\",\"cid\":\"'' @ cid
     @ ''\",\"iat\":'' @ show_int (sint iat) @ '',\"exp\":'' @ show_int (sint exp) @ '',\"jti\":\"'' @ jti @ ''\"}''"

definition claims_size :: "bytes \<Rightarrow> bytes \<Rightarrow> bytes \<Rightarrow> bytes \<Rightarrow> nat" where
  "claims_size sub cid aud jti = 256 + length sub + length cid + length aud + length jti"

definition cookie_text :: "'v loc_conf \<Rightarrow> bytes \<Rightarrow> bytes" where
  "cookie_text wlcf jwt =
     lc_cookie_name wlcf @ ''='' @ jwt @ ''; HttpOnly; SameSite='' @ samesite_name (lc_cookie_samesite wlcf)
     @ ''; Path='' @ lc_cookie_path wlcf
     @ (if lc_cookie_secure wlcf then ''; Secure'' else '''')
     @ (if length (lc_cookie_domain wlcf) \<noteq> 0 then ''; Domain='' @ lc_cookie_domain wlcf else '''')
     @ ''; Max-Age='' @ show_int (sint (lc_jwt_ttl wlcf))"

definition cookie_size :: "'v loc_conf \<Rightarrow> bytes \<Rightarrow> nat" where
  "cookie_size wlcf jwt =
     length (lc_cookie_name wlcf) + length jwt + length (lc_cookie_path wlcf) + length (lc_cookie_domain wlcf) + 128"

definition verify_json :: "bytes \<Rightarrow> time_t \<Rightarrow> bytes" where
  "verify_json sub exp = ''{\"ok\":true,\"user_id\":\"'' @ sub @ ''\",\"exp\":'' @ show_int (sint exp) @ ''}''"

definition finalize :: "http_out \<Rightarrow> int \<Rightarrow> http_out" where
  "finalize out rc = out\<lparr> ho_finalized := Some rc \<rparr>"

text \<open>The part of the post-handler after the login is decided. \<open>jti\<close> is what \<open>RAND_bytes\<close> gave.\<close>

definition verify_mint ::
    "ngx_core \<Rightarrow> ('t, 'ks, 'p) nxe_jwx \<Rightarrow> bytes option \<Rightarrow> ngx_pool_t \<Rightarrow> 'v loc_conf \<Rightarrow> http_req \<Rightarrow> time_t \<Rightarrow> bytes \<Rightarrow> bytes
     \<Rightarrow> http_out \<Rightarrow> http_out" where
  "verify_mint ngx jwx jti pool wlcf r now user_id cid out =
     (case jti of
        None \<Rightarrow> finalize out NGX_HTTP_INTERNAL_SERVER_ERROR
      | Some jti \<Rightarrow>
      (case ngx_http_auth_webauthn_b64url ngx pool jti of
        None \<Rightarrow> finalize out NGX_HTTP_INTERNAL_SERVER_ERROR
      | Some jti_b64 \<Rightarrow>
      (case ngx_http_auth_webauthn_json_escape pool user_id of
        None \<Rightarrow> finalize out NGX_HTTP_INTERNAL_SERVER_ERROR
      | Some sub_esc \<Rightarrow>
      if \<not> pool ''claims.data'' (claims_size sub_esc cid (lc_rp_id wlcf) jti_b64)
      then finalize out NGX_HTTP_INTERNAL_SERVER_ERROR
      else
      let claims = claims_json (lc_rp_id wlcf) sub_esc cid now (now + lc_jwt_ttl wlcf) jti_b64 in
      (case nxe_jwx_encode jwx (lc_jwt_alg wlcf) None claims (lc_jwt_secret wlcf) of
        None \<Rightarrow> finalize out NGX_HTTP_INTERNAL_SERVER_ERROR
      | Some jwt \<Rightarrow>
      if \<not> pool ''cookie.data'' (cookie_size wlcf jwt) then finalize out NGX_HTTP_INTERNAL_SERVER_ERROR
      else if \<not> pool ''set_cookie'' 56 then finalize out NGX_HTTP_INTERNAL_SERVER_ERROR
      else
      let out = out\<lparr> ho_headers := ho_headers out @ [(''Set-Cookie'', cookie_text wlcf jwt)] \<rparr> in
      if \<not> pool ''out.data'' (64 + length sub_esc) then finalize out NGX_HTTP_INTERNAL_SERVER_ERROR
      else
      let (rc, out) = ngx_http_auth_webauthn_send_json ngx pool r out NGX_HTTP_OK
            (verify_json sub_esc (now + lc_jwt_ttl wlcf))
      in finalize out rc))))"

section \<open>The login\<close>

definition cred_of :: "credential \<Rightarrow> assertion_cred" where
  "cred_of cred = \<lparr> ac_public_key = cred_public_key cred, ac_alg = cred_alg cred, ac_sign_count = cred_sign_count cred \<rparr>"

definition policy_of :: "'v loc_conf \<Rightarrow> bytes \<Rightarrow> assertion_policy" where
  "policy_of wlcf challenge =
     \<lparr> pol_rp_id = lc_rp_id wlcf, pol_expected_challenge = challenge, pol_allowed_origins = lc_origins wlcf,
       pol_norigins = length (the (lc_origins wlcf)),
       pol_require_uv = (lc_user_verification wlcf = NGX_AUTH_WEBAUTHN_UV_REQUIRED),
       pol_clone_detection = lc_clone_detection wlcf \<rparr>"

definition reject :: "ngx_core \<Rightarrow> ngx_pool_t \<Rightarrow> http_req \<Rightarrow> http_out \<Rightarrow> http_out" where
  "reject ngx pool r out = (let (rc, out) = ngx_http_auth_webauthn_verify_fail ngx pool r out in finalize out rc)"

definition ngx_http_auth_webauthn_verify_done ::
    "('c, 's) hiredis \<Rightarrow> 'k openssl \<Rightarrow> 'j nxe_json \<Rightarrow> ngx_core \<Rightarrow> ('t, 'ks, 'p) nxe_jwx \<Rightarrow> bytes option \<Rightarrow> time_t \<Rightarrow> ngx_pool_t
     \<Rightarrow> 'v loc_conf \<Rightarrow> http_req \<Rightarrow> http_out \<Rightarrow> 's \<Rightarrow> http_out \<times> 's" where
  "ngx_http_auth_webauthn_verify_done hi ossl js ngx jwx jti now pool wlcf r out s =
     (if length (lc_rp_id wlcf) = 0 \<or> length (lc_redis_host wlcf) = 0 \<or> length (lc_jwt_secret wlcf) = 0
         \<or> lc_origins wlcf = None
      then (finalize out NGX_HTTP_INTERNAL_SERVER_ERROR, s)
      else
      case ngx_http_auth_webauthn_read_body pool r of
        None \<Rightarrow> (reject ngx pool r out, s)
      | Some body \<Rightarrow>
      (case verify_parse ngx js pool body of
        None \<Rightarrow> (reject ngx pool r out, s)
      | Some (cid, assertion, challenge_raw) \<Rightarrow>
      let (rc, redis, s) = ngx_auth_webauthn_redis_connect hi (Some pool) (Some (redis_conf_of wlcf)) (Some None) s in
      if rc \<noteq> NGX_OK then (finalize out NGX_HTTP_INTERNAL_SERVER_ERROR, s)
      else
      let redis = the redis; prefix = lc_redis_key_prefix wlcf;
          (rc, s) = ngx_auth_webauthn_challenge_consume hi redis (Some pool) (Some prefix) (Some challenge_raw)
                      (length challenge_raw) s
      in
      if rc \<noteq> NGX_OK then (reject ngx pool r out, snd (ngx_auth_webauthn_redis_close hi redis s))
      else
      let (rc, cred, s) = ngx_auth_webauthn_credential_get hi redis (Some pool) (Some prefix) (Some cid)
                            (Some credential_zero) s
      in
      if rc \<noteq> NGX_OK then (reject ngx pool r out, snd (ngx_auth_webauthn_redis_close hi redis s))
      else
      let (rc, result) = ngx_auth_webauthn_assertion_verify ossl js (core_decode_base64url ngx) (Some pool)
            (Some assertion) (Some (cred_of (the cred))) (Some (policy_of wlcf challenge_raw))
            (Some \<lparr> auth_sign_count = 0 \<rparr>)
      in
      if rc \<noteq> NGX_OK then (reject ngx pool r out, snd (ngx_auth_webauthn_redis_close hi redis s))
      else
      let (rc, s) = ngx_auth_webauthn_credential_update_counter hi redis (Some pool) (Some prefix) (Some cid)
                      (auth_sign_count (the result)) now s;
          s = snd (ngx_auth_webauthn_redis_close hi redis s)
      in (verify_mint ngx jwx jti pool wlcf r now (cred_user_id (the cred)) cid out, s)))"

text \<open>\<open>ngx_http_read_client_request_body\<close> is nginx core's: its return code, and whether it has called the
  post-handler.\<close>

definition ngx_http_auth_webauthn_verify_content ::
    "int \<times> bool \<Rightarrow> ('c, 's) hiredis \<Rightarrow> 'k openssl \<Rightarrow> 'j nxe_json \<Rightarrow> ngx_core \<Rightarrow> ('t, 'ks, 'p) nxe_jwx \<Rightarrow> bytes option
     \<Rightarrow> time_t \<Rightarrow> ngx_pool_t \<Rightarrow> 'v loc_conf \<Rightarrow> http_req \<Rightarrow> http_out \<Rightarrow> 's \<Rightarrow> int \<times> http_out \<times> 's" where
  "ngx_http_auth_webauthn_verify_content read_client_body hi ossl js ngx jwx jti now pool wlcf r out s =
     (if \<not> rq_post r then (NGX_HTTP_NOT_ALLOWED, out, s)
      else
        let (rc, ready) = read_client_body;
            (out, s) = (if ready then ngx_http_auth_webauthn_verify_done hi ossl js ngx jwx jti now pool wlcf r out s
                        else (out, s))
        in
        if rc \<ge> NGX_HTTP_SPECIAL_RESPONSE then (rc, out, s) else (NGX_DONE, out, s))"

section \<open>Lemmas\<close>

lemma finalize_sels [simp]: "ho_headers (finalize out rc) = ho_headers out" "ho_status (finalize out rc) = ho_status out"
  "ho_body (finalize out rc) = ho_body out"
  by (simp_all add: finalize_def)

lemma send_json_headers [simp]:
  "ho_headers (snd (ngx_http_auth_webauthn_send_json ngx pool r out status body)) = ho_headers out"
  "ho_status (snd (ngx_http_auth_webauthn_send_json ngx pool r out status body)) = status"
  by (simp_all add: ngx_http_auth_webauthn_send_json_def Let_def)

lemma reject_headers [simp]: "ho_headers (reject ngx pool r out) = ho_headers out"
  by (simp add: reject_def ngx_http_auth_webauthn_verify_fail_def split_beta)

text \<open>The session token of a login.\<close>

definition session_token ::
    "ngx_core \<Rightarrow> ('t, 'ks, 'p) nxe_jwx \<Rightarrow> 'v loc_conf \<Rightarrow> bytes \<Rightarrow> time_t \<Rightarrow> bytes \<Rightarrow> bytes \<Rightarrow> bytes option" where
  "session_token ngx jwx wlcf jti now user_id cid =
     nxe_jwx_encode jwx (lc_jwt_alg wlcf) None
       (claims_json (lc_rp_id wlcf) (escape_loop user_id) cid now (now + lc_jwt_ttl wlcf) (core_encode_base64url ngx jti))
       (lc_jwt_secret wlcf)"

lemma mint_granted:
  assumes "ho_headers (verify_mint ngx jwx jti pool wlcf r now user_id cid out) \<noteq> ho_headers out"
  shows "\<exists>j jwt. jti = Some j \<and> session_token ngx jwx wlcf j now user_id cid = Some jwt
     \<and> ho_headers (verify_mint ngx jwx jti pool wlcf r now user_id cid out)
         = ho_headers out @ [(''Set-Cookie'', cookie_text wlcf jwt)]"
  using assms
  by (auto simp: verify_mint_def session_token_def ngx_http_auth_webauthn_b64url_def Let_def split_beta
      split: option.splits if_splits dest!: json_escape_Some)

lemma mint_total:
  assumes "\<And>site n. pool site n" and "session_token ngx jwx wlcf j now user_id cid = Some jwt"
  shows "ho_headers (verify_mint ngx jwx (Some j) pool wlcf r now user_id cid out)
           = ho_headers out @ [(''Set-Cookie'', cookie_text wlcf jwt)]"
    and "ho_status (verify_mint ngx jwx (Some j) pool wlcf r now user_id cid out) = NGX_HTTP_OK"
  using assms
  by (simp_all add: verify_mint_def session_token_def ngx_http_auth_webauthn_b64url_def json_escape_total Let_def split_beta)

text \<open>A request that is a valid login: it names a credential of the store and carries a valid assertion
  of it for the challenge.\<close>

definition valid_login ::
    "'k openssl \<Rightarrow> 'j nxe_json \<Rightarrow> ngx_core \<Rightarrow> ngx_pool_t \<Rightarrow> 'v loc_conf \<Rightarrow> http_req \<Rightarrow> (bytes \<Rightarrow> credential option)
     \<Rightarrow> bytes \<Rightarrow> bytes \<Rightarrow> credential \<Rightarrow> 32 word \<Rightarrow> bool" where
  "valid_login ossl js ngx pool wlcf r creds cid chal cred cnt \<longleftrightarrow>
     (\<exists>body ad cd sig origins.
        ngx_http_auth_webauthn_read_body pool r = Some body
        \<and> verify_parse ngx js pool body
            = Some (cid, \<lparr> as_authenticator_data = Some ad, as_client_data_json = Some cd, as_signature = sig \<rparr>, chal)
        \<and> creds cid = Some cred \<and> lc_origins wlcf = Some origins
        \<and> valid_assertion ossl js (core_decode_base64url ngx) ad cd sig (cred_of cred) (policy_of wlcf chal) origins cnt)"

lemma verify_parse_shape:
  "verify_parse ngx js pool body = Some (cid, a, chal) \<Longrightarrow>
   \<exists>ad cd sig. a = \<lparr> as_authenticator_data = Some ad, as_client_data_json = Some cd, as_signature = sig \<rparr>"
  by (auto simp: verify_parse_def split: option.splits if_splits)

lemma policy_of_sels [simp]: "pol_allowed_origins (policy_of wlcf chal) = lc_origins wlcf"
  "pol_norigins (policy_of wlcf chal) = length (the (lc_origins wlcf))" "pol_expected_challenge (policy_of wlcf chal) = chal"
  "pol_clone_detection (policy_of wlcf chal) = lc_clone_detection wlcf"
  by (simp_all add: policy_of_def)

lemma body_len_eq: "body_len bufs n = (if \<exists>b \<in> set bufs. snd b then None else Some (n + length (concat (map fst bufs))))"
  by (induction bufs n rule: body_len.induct) (auto simp: Let_def)

context redis_server
begin

text \<open>The stages of a request that got a session.\<close>

lemma verify_done_stages:
  assumes "ngx_http_auth_webauthn_verify_done hi ossl js ngx jwx jti now pool wlcf r out0 s = (out, s')"
    and "ho_headers out \<noteq> ho_headers out0"
  obtains body cid a chal rd c s1 s2 cred s3 cnt rc s4 where
    "ngx_http_auth_webauthn_read_body pool r = Some body" "verify_parse ngx js pool body = Some (cid, a, chal)"
    "lc_origins wlcf \<noteq> None"
    "dbs s1 = dbs s" "clock s \<le> clock s1" "rd_ctx rd = Some c" "sel s1 c = lc_redis_db wlcf" "rd_pool rd = pool"
    "ngx_auth_webauthn_challenge_consume hi (Some rd) (Some pool) (Some (lc_redis_key_prefix wlcf)) (Some chal) (length chal) s1
       = (NGX_OK, s2)"
    "ngx_auth_webauthn_credential_get hi (Some rd) (Some pool) (Some (lc_redis_key_prefix wlcf)) (Some cid) (Some credential_zero) s2
       = (NGX_OK, Some cred, s3)"
    "ngx_auth_webauthn_assertion_verify ossl js (core_decode_base64url ngx) (Some pool) (Some a) (Some (cred_of cred))
       (Some (policy_of wlcf chal)) (Some \<lparr> auth_sign_count = 0 \<rparr>) = (NGX_OK, Some \<lparr> auth_sign_count = cnt \<rparr>)"
    "ngx_auth_webauthn_credential_update_counter hi (Some rd) (Some pool) (Some (lc_redis_key_prefix wlcf)) (Some cid) cnt now s3
       = (rc, s4)"
    "s' = snd (ngx_auth_webauthn_redis_close hi (Some rd) s4)"
    "out = verify_mint ngx jwx jti pool wlcf r now (cred_user_id cred) cid out0"
proof -
  have 1: "lc_origins wlcf \<noteq> None" "ngx_http_auth_webauthn_read_body pool r \<noteq> None"
    using assms by (auto simp: ngx_http_auth_webauthn_verify_done_def split: if_splits option.splits)
  then obtain body where body: "ngx_http_auth_webauthn_read_body pool r = Some body" by blast
  have "verify_parse ngx js pool body \<noteq> None"
    using assms body by (auto simp: ngx_http_auth_webauthn_verify_done_def split: if_splits option.splits)
  then obtain cid a chal where parse: "verify_parse ngx js pool body = Some (cid, a, chal)" by (metis not_Some_eq surj_pair)
  obtain rc1 redis s1 where con: "ngx_auth_webauthn_redis_connect hi (Some pool) (Some (redis_conf_of wlcf)) (Some None) s = (rc1, redis, s1)"
    by (metis surj_pair)
  note step = ngx_http_auth_webauthn_verify_done_def body parse con Let_def
  have 2: "rc1 = NGX_OK" using assms by (auto simp: step split: if_splits)
  with connect_contract [OF con] obtain rd c where rd: "redis = Some (Some rd)" "rd_ctx rd = Some c" "sel s1 c = lc_redis_db wlcf"
    "dbs s1 = dbs s" "clock s \<le> clock s1" "rd_pool rd = pool" by (auto simp: redis_conf_of_def)
  obtain rc2 s2 where con2: "ngx_auth_webauthn_challenge_consume hi (Some rd) (Some pool) (Some (lc_redis_key_prefix wlcf)) (Some chal)
      (length chal) s1 = (rc2, s2)" by fastforce
  have 3: "rc2 = NGX_OK" using assms 2 by (auto simp: step rd(1) con2 split: if_splits)
  obtain rc3 cred s3 where get: "ngx_auth_webauthn_credential_get hi (Some rd) (Some pool) (Some (lc_redis_key_prefix wlcf)) (Some cid)
      (Some credential_zero) s2 = (rc3, cred, s3)" by (metis surj_pair)
  have 4: "rc3 = NGX_OK" using assms 2 3 by (auto simp: step rd(1) con2 get split: if_splits)
  then have "cred \<noteq> None"
    using get by (auto simp: ngx_auth_webauthn_credential_get_def Let_def split: if_splits option.splits prod.splits) metis
  then obtain cr where cr: "cred = Some cr" by blast
  obtain rc4 res where av: "ngx_auth_webauthn_assertion_verify ossl js (core_decode_base64url ngx) (Some pool) (Some a) (Some (cred_of cr))
       (Some (policy_of wlcf chal)) (Some \<lparr> auth_sign_count = 0 \<rparr>) = (rc4, res)" by fastforce
  have 5: "rc4 = NGX_OK" using assms 2 3 4 by (auto simp: step rd(1) con2 get cr av split: if_splits)
  then obtain cnt where res: "res = Some \<lparr> auth_sign_count = cnt \<rparr>"
    using av by (auto simp: ngx_auth_webauthn_assertion_verify_def Let_def split: if_splits prod.splits)
  obtain rc5 s4 where up: "ngx_auth_webauthn_credential_update_counter hi (Some rd) (Some pool) (Some (lc_redis_key_prefix wlcf)) (Some cid)
      cnt now s3 = (rc5, s4)" by fastforce
  have "s' = snd (ngx_auth_webauthn_redis_close hi (Some rd) s4)" "out = verify_mint ngx jwx jti pool wlcf r now (cred_user_id cr) cid out0"
    using assms 2 3 4 5 by (auto simp: step rd(1) con2 get cr av res up split: if_splits)
  with that [OF body parse 1(1) rd(4,5,2,3,6)] con2 get av up 3 4 5 cr res show thesis by blast
qed

text \<open>What the login reads and writes in the database. \<open>flaky\<close> says whether the counter update may fail.\<close>

lemma verify_done_login:
  assumes "ngx_http_auth_webauthn_verify_done hi ossl js ngx jwx jti now pool wlcf r out0 s = (out, s')"
    and "ho_headers out \<noteq> ho_headers out0" and "cred_inv prefix (dbs s n)"
    and "prefix = lc_redis_key_prefix wlcf" and "n = lc_redis_db wlcf"
    and "\<And>rd c cid m t s rc s'. rd_ctx rd = Some c \<Longrightarrow> rd_pool rd = pool \<Longrightarrow> cred_inv prefix (dbs s (sel s c)) \<Longrightarrow>
       ngx_auth_webauthn_credential_update_counter hi (Some rd) (Some pool) (Some prefix) (Some cid) m t s = (rc, s') \<Longrightarrow>
       rc = NGX_OK \<or> flaky"
  obtains cid chal cred cnt j jwt where
    "valid_login ossl js ngx pool wlcf r (cred_abs prefix (dbs s n)) cid chal cred cnt"
    "\<exists>t. clock s \<le> t \<and> t \<le> clock s' \<and> live t (dbs s n) (prefix @ ''chal:'' @ chal) \<noteq> None"
    "dbs s' n (prefix @ ''chal:'' @ chal) = None" "cred_inv prefix (dbs s' n)"
    "cred_abs prefix (dbs s' n)
       = (cred_abs prefix (dbs s n))(cid \<mapsto> cred\<lparr> cred_sign_count := cnt, cred_last_used_at := now \<rparr>)
     \<or> flaky \<and> cred_abs prefix (dbs s' n) = cred_abs prefix (dbs s n)"
    "jti = Some j" "session_token ngx jwx wlcf j now (cred_user_id cred) cid = Some jwt"
    "ho_headers out = ho_headers out0 @ [(''Set-Cookie'', cookie_text wlcf jwt)]" "clock s \<le> clock s'"
  using assms(1,2)
proof (rule verify_done_stages, unfold assms(4,5) [symmetric])
  fix body cid a chal rd c s1 s2 cred s3 cnt rc s4
  assume rb: "ngx_http_auth_webauthn_read_body pool r = Some body" and vp: "verify_parse ngx js pool body = Some (cid, a, chal)"
    and or: "lc_origins wlcf \<noteq> None" and s1: "dbs s1 = dbs s" "clock s \<le> clock s1"
    and c: "rd_ctx rd = Some c" "sel s1 c = n" "rd_pool rd = pool"
    and co: "ngx_auth_webauthn_challenge_consume hi (Some rd) (Some pool) (Some prefix) (Some chal) (length chal) s1 = (NGX_OK, s2)"
    and ge: "ngx_auth_webauthn_credential_get hi (Some rd) (Some pool) (Some prefix) (Some cid) (Some credential_zero) s2
       = (NGX_OK, Some cred, s3)"
    and av: "ngx_auth_webauthn_assertion_verify ossl js (core_decode_base64url ngx) (Some pool) (Some a) (Some (cred_of cred))
       (Some (policy_of wlcf chal)) (Some \<lparr> auth_sign_count = 0 \<rparr>) = (NGX_OK, Some \<lparr> auth_sign_count = cnt \<rparr>)"
    and up: "ngx_auth_webauthn_credential_update_counter hi (Some rd) (Some pool) (Some prefix) (Some cid) cnt now s3 = (rc, s4)"
    and s': "s' = snd (ngx_auth_webauthn_redis_close hi (Some rd) s4)"
    and out: "out = verify_mint ngx jwx jti pool wlcf r now (cred_user_id cred) cid out0"
  let ?k = "prefix @ ''chal:'' @ chal"
  note cc = consume_contract [OF co c(1)]
  from cc(1,3) c(2) s1 obtain t where 2: "dbs s2 n = (dbs s n)(?k := None)" "clock s1 \<le> t" "t \<le> clock s2" "live t (dbs s n) ?k \<noteq> None"
    "sel s2 c = n" by (auto simp: keeps_def)
  have same: "cred_inv prefix (dbs s2 n) = cred_inv prefix (dbs s n)" "cred_abs prefix (dbs s2 n) = cred_abs prefix (dbs s n)"
    unfolding 2(1) by (rule cred_inv_frame; simp add: cred_key_def index_key_def)+
  with assms(3) 2(5) have inv2: "cred_inv prefix (dbs s2 (sel s2 c))" by simp
  note gc = get_contract [OF ge c(1) inv2]
  have 3: "dbs s3 = dbs s2" "sel s3 c = n" "clock s2 \<le> clock s3" "cred_abs prefix (dbs s n) cid = Some cred"
    using gc 2(5) same(2) by (auto simp: keeps_def)
  have inv3: "cred_inv prefix (dbs s3 (sel s3 c))" using inv2 2(5) 3 by simp
  note uc = update_counter_contract [OF up c(1) inv3]
  note st = credential_store.update_law [OF credential_store_laws [OF c(1), where pool = pool and o' = credential_zero], OF inv3 up]
  have 4: "sel s4 c = n" "clock s3 \<le> clock s4" using uc 3(2) by (auto simp: keeps_def)
  have k4: "dbs s4 n ?k = None"
    using uc 3(1,2) 2(1) chal_key_distinct(1) [of prefix chal cid] by (auto simp: hset_effect_def)
  have abs4: "cred_abs prefix (dbs s4 n) = (cred_abs prefix (dbs s n))(cid \<mapsto> cred\<lparr> cred_sign_count := cnt, cred_last_used_at := now \<rparr>)
     \<or> flaky \<and> cred_abs prefix (dbs s4 n) = cred_abs prefix (dbs s n)"
  proof -
    have "cred_abs prefix (dbs s4 n) = (cred_abs prefix (dbs s n))(cid := cred_abs prefix (dbs s4 n) cid)"
      using st 3(1,2) 4(1) same(2) by (simp add: fun_eq_iff)
    moreover have "cred_abs prefix (dbs s4 n) cid = Some (cred\<lparr> cred_sign_count := cnt, cred_last_used_at := now \<rparr>)
      \<or> flaky \<and> cred_abs prefix (dbs s4 n) cid = Some cred"
      using st assms(6) [OF c(1,3) inv3 up] 3 4(1) same(2) by auto
    ultimately show ?thesis using 3(4) by (metis fun_upd_triv)
  qed
  have 5: "dbs s' = dbs s4" "clock s4 \<le> clock s'" using close_keeps [where rd = "Some rd" and s = s4] s' by simp_all
  obtain ad cd sig where a: "a = \<lparr> as_authenticator_data = Some ad, as_client_data_json = Some cd, as_signature = sig \<rparr>"
    using verify_parse_shape [OF vp] by blast
  obtain origins where o: "lc_origins wlcf = Some origins" using or by blast
  have va: "valid_assertion ossl js (core_decode_base64url ngx) ad cd sig (cred_of cred) (policy_of wlcf chal) origins cnt"
    using av unfolding a by (rule assertion_verify_sound) (simp_all add: o)
  obtain j jwt where m: "jti = Some j" "session_token ngx jwx wlcf j now (cred_user_id cred) cid = Some jwt"
    "ho_headers out = ho_headers out0 @ [(''Set-Cookie'', cookie_text wlcf jwt)]"
    using mint_granted assms(2) out by metis
  have "clock s \<le> t" "t \<le> clock s'" "clock s \<le> clock s'" using s1(2) 2(2,3) 3(3) 4(2) 5(2) by linarith+
  then show thesis
    using that [of cid chal cred cnt j jwt] rb vp a o va 2(4) 3(4) k4 st 3(2) 4(1) abs4 m unfolding 5(1) valid_login_def
    by auto
qed

end

text \<open>A login under a working Redis, as a decision on the results of its calls.\<close>

lemma verify_done_eq:
  assumes "lc_rp_id wlcf \<noteq> []" and "lc_redis_host wlcf \<noteq> []" and "lc_jwt_secret wlcf \<noteq> []" and "lc_origins wlcf \<noteq> None"
    and "ngx_http_auth_webauthn_read_body pool r = Some body" and "verify_parse ngx js pool body = Some (cid, a, chal)"
    and "ngx_auth_webauthn_redis_connect hi (Some pool) (Some (redis_conf_of wlcf)) (Some None) s = (NGX_OK, Some (Some rd), s1)"
    and "ngx_auth_webauthn_challenge_consume hi (Some rd) (Some pool) (Some (lc_redis_key_prefix wlcf)) (Some chal) (length chal) s1
       = (rc2, s2)"
    and "ngx_auth_webauthn_credential_get hi (Some rd) (Some pool) (Some (lc_redis_key_prefix wlcf)) (Some cid) (Some credential_zero) s2
       = (rc3, cred, s3)"
    and "ngx_auth_webauthn_assertion_verify ossl js (core_decode_base64url ngx) (Some pool) (Some a) (Some (cred_of (the cred)))
       (Some (policy_of wlcf chal)) (Some \<lparr> auth_sign_count = 0 \<rparr>) = (rc4, res)"
    and "ngx_auth_webauthn_credential_update_counter hi (Some rd) (Some pool) (Some (lc_redis_key_prefix wlcf)) (Some cid)
       (auth_sign_count (the res)) now s3 = (rc5, s4)"
  shows "ngx_http_auth_webauthn_verify_done hi ossl js ngx jwx jti now pool wlcf r out s =
    (if rc2 \<noteq> NGX_OK then (reject ngx pool r out, snd (ngx_auth_webauthn_redis_close hi (Some rd) s2))
     else if rc3 \<noteq> NGX_OK \<or> rc4 \<noteq> NGX_OK then (reject ngx pool r out, snd (ngx_auth_webauthn_redis_close hi (Some rd) s3))
     else (verify_mint ngx jwx jti pool wlcf r now (cred_user_id (the cred)) cid out,
           snd (ngx_auth_webauthn_redis_close hi (Some rd) s4)))"
  using assms by (auto simp: ngx_http_auth_webauthn_verify_done_def Let_def)

context reliable_server
begin

lemma update_reliable:
  assumes "ngx_auth_webauthn_credential_update_counter hi (Some rd) (Some pool) (Some prefix) (Some cid) m t s = (rc, s')"
    and "rd_ctx rd = Some c" and "rd_pool rd = pool" and "\<And>site n. pool site n" and "cred_inv prefix (dbs s (sel s c))"
  shows "rc = NGX_OK"
proof -
  let ?argv = "''HSET'' # cred_key prefix cid # hset_args (counter_pairs m t)"
  have ps: "counter_pairs m t \<noteq> []" "length (counter_pairs m t) = 2" by (simp_all add: counter_pairs_def)
  obtain q s1 where ex: "ngx_auth_webauthn_redis_exec hi rd ?argv s = (q, s1)" by fastforce
  from answered [OF ex assms(2)] obtain u rep where q: "q = Some rep"
    "redis_exec u ?argv (dbs s (sel s c)) = (rep, dbs s1 (sel s c))" by auto
  have "\<not> is_error rep"
    by (cases rule: cred_inv_cases [OF assms(5), of cid])
      (use q(2) in \<open>auto simp: exec_HSET [OF ps(1)] cred_inv_entry [OF assms(5)] is_error_def\<close>)
  moreover have "ngx_auth_webauthn_credential_record_key pool prefix cid = Some (cred_key prefix cid)"
    using assms(4) by (simp add: ngx_auth_webauthn_credential_record_key_def cred_key_def)
  ultimately show ?thesis
    using assms(1-4) ex q(1) ps(2)
    by (auto simp: ngx_auth_webauthn_credential_update_counter_def ngx_auth_webauthn_redis_hset_def no_conn_def failed_def Let_def
        split: if_splits)
qed

lemma connects_OK:
  assumes "\<And>site n. pool site n" and "lc_redis_host wlcf \<noteq> []" and "lc_redis_db wlcf < 10 ^ 31"
  obtains rd c s1 where
    "ngx_auth_webauthn_redis_connect hi (Some pool) (Some (redis_conf_of wlcf)) (Some None) s = (NGX_OK, Some (Some rd), s1)"
    "rd_ctx rd = Some c" "rd_pool rd = pool" "sel s1 c = lc_redis_db wlcf" "dbs s1 = dbs s" "clock s \<le> clock s1"
proof -
  obtain rc1 redis s1 where con: "ngx_auth_webauthn_redis_connect hi (Some pool) (Some (redis_conf_of wlcf)) (Some None) s = (rc1, redis, s1)"
    by (metis surj_pair)
  from connect_reliable [OF con assms(1)] assms(2,3) have "rc1 = NGX_OK" by (simp add: redis_conf_of_def)
  with connect_contract [OF con] that con show thesis by (auto simp: redis_conf_of_def)
qed

text \<open>Without a fault of the server or of memory, a request is refused or gets a session.\<close>

lemma verify_done_decides:
  assumes "ngx_http_auth_webauthn_verify_done hi ossl js ngx jwx jti now pool wlcf r out0 s = (out, s')"
    and "\<And>site n. pool site n" and "lc_rp_id wlcf \<noteq> []" and "lc_redis_host wlcf \<noteq> []" and "lc_jwt_secret wlcf \<noteq> []"
    and "lc_origins wlcf \<noteq> None" and "lc_redis_db wlcf < 10 ^ 31"
  shows "out = reject ngx pool r out0 \<or> (\<exists>user_id cid. out = verify_mint ngx jwx jti pool wlcf r now user_id cid out0)"
proof (cases "\<exists>body cid a chal. ngx_http_auth_webauthn_read_body pool r = Some body \<and> verify_parse ngx js pool body = Some (cid, a, chal)")
  case True
  then obtain body cid a chal where p: "ngx_http_auth_webauthn_read_body pool r = Some body"
    "verify_parse ngx js pool body = Some (cid, a, chal)" by blast
  obtain rd s1 where con:
    "ngx_auth_webauthn_redis_connect hi (Some pool) (Some (redis_conf_of wlcf)) (Some None) s = (NGX_OK, Some (Some rd), s1)"
    by (rule connects_OK [of pool wlcf s, OF assms(2,4,7)])
  obtain rc2 s2 where co: "ngx_auth_webauthn_challenge_consume hi (Some rd) (Some pool) (Some (lc_redis_key_prefix wlcf)) (Some chal)
      (length chal) s1 = (rc2, s2)" by fastforce
  obtain rc3 cr s3 where ge: "ngx_auth_webauthn_credential_get hi (Some rd) (Some pool) (Some (lc_redis_key_prefix wlcf)) (Some cid)
      (Some credential_zero) s2 = (rc3, cr, s3)" by (metis surj_pair)
  obtain rc4 res where av: "ngx_auth_webauthn_assertion_verify ossl js (core_decode_base64url ngx) (Some pool)
      (Some a) (Some (cred_of (the cr))) (Some (policy_of wlcf chal)) (Some \<lparr> auth_sign_count = 0 \<rparr>) = (rc4, res)" by fastforce
  obtain rc5 s4 where "ngx_auth_webauthn_credential_update_counter hi (Some rd) (Some pool) (Some (lc_redis_key_prefix wlcf)) (Some cid)
      (auth_sign_count (the res)) now s3 = (rc5, s4)" by fastforce
  from verify_done_eq [OF assms(3-6) p con co ge av this, of jwx jti out0, unfolded assms(1)] show ?thesis
    by (auto split: if_splits)
next
  case False
  with assms show ?thesis
    by (auto simp: ngx_http_auth_webauthn_verify_done_def split: option.splits)
qed

lemma verify_done_complete:
  assumes "ngx_http_auth_webauthn_verify_done hi ossl js ngx jwx jti now pool wlcf r out0 s = (out, s')"
    and "\<And>site n. pool site n" and "lc_rp_id wlcf \<noteq> []" and "lc_redis_host wlcf \<noteq> []" and "lc_jwt_secret wlcf \<noteq> []"
    and "lc_redis_db wlcf < 10 ^ 31" and "prefix = lc_redis_key_prefix wlcf" and "n = lc_redis_db wlcf"
    and "valid_login ossl js ngx pool wlcf r (cred_abs prefix (dbs s n)) cid chal cred cnt" and "cred_inv prefix (dbs s n)"
    and "length chal = 32" and "dbs s n (prefix @ ''chal:'' @ chal) = Some (RString v, Some e)" and "clock s' < e"
  shows "out = verify_mint ngx jwx jti pool wlcf r now (cred_user_id cred) cid out0"
proof -
  from assms(9) obtain body ad cd sig origins where p: "ngx_http_auth_webauthn_read_body pool r = Some body"
    "verify_parse ngx js pool body
       = Some (cid, \<lparr> as_authenticator_data = Some ad, as_client_data_json = Some cd, as_signature = sig \<rparr>, chal)"
    and cred: "cred_abs prefix (dbs s n) cid = Some cred" and o: "lc_origins wlcf = Some origins"
    and va: "valid_assertion ossl js (core_decode_base64url ngx) ad cd sig (cred_of cred) (policy_of wlcf chal) origins cnt"
    by (auto simp: valid_login_def)
  obtain rd c s1 where con:
    "ngx_auth_webauthn_redis_connect hi (Some pool) (Some (redis_conf_of wlcf)) (Some None) s = (NGX_OK, Some (Some rd), s1)"
    "rd_ctx rd = Some c" "rd_pool rd = pool" "sel s1 c = n" "dbs s1 = dbs s"
    unfolding assms(8) by (rule connects_OK [of pool wlcf s, OF assms(2,4,6)])
  obtain rc2 s2 where co: "ngx_auth_webauthn_challenge_consume hi (Some rd) (Some pool) (Some prefix) (Some chal) (length chal) s1 = (rc2, s2)"
    by fastforce
  obtain rc3 cr s3 where ge: "ngx_auth_webauthn_credential_get hi (Some rd) (Some pool) (Some prefix) (Some cid) (Some credential_zero) s2
      = (rc3, cr, s3)" by (metis surj_pair)
  obtain rc4 res where av: "ngx_auth_webauthn_assertion_verify ossl js (core_decode_base64url ngx) (Some pool)
      (Some \<lparr> as_authenticator_data = Some ad, as_client_data_json = Some cd, as_signature = sig \<rparr>) (Some (cred_of (the cr)))
      (Some (policy_of wlcf chal)) (Some \<lparr> auth_sign_count = 0 \<rparr>) = (rc4, res)" by fastforce
  obtain rc5 s4 where up: "ngx_auth_webauthn_credential_update_counter hi (Some rd) (Some pool) (Some prefix) (Some cid)
      (auth_sign_count (the res)) now s3 = (rc5, s4)" by fastforce
  have "lc_origins wlcf \<noteq> None" using o by simp
  note eq = verify_done_eq [OF assms(3-5) this p con(1) co [unfolded assms(7)] ge [unfolded assms(7)] av up [unfolded assms(7)],
      of jwx jti out0, unfolded assms(1)]
  let ?k = "prefix @ ''chal:'' @ chal"
  note cc = consume_contract [OF co con(2)]
  have s2: "sel s2 c = n" "dbs s2 n = dbs s n \<or> dbs s2 n = (dbs s n)(?k := None)"
    using cc(1,2) con(4,5) by (auto simp: keeps_def)
  have same: "cred_inv prefix (dbs s2 n) = cred_inv prefix (dbs s n)" "cred_abs prefix (dbs s2 n) = cred_abs prefix (dbs s n)"
    by (rule cred_inv_frame; use s2(2) in \<open>auto simp: cred_key_def index_key_def\<close>)+
  have inv2: "cred_inv prefix (dbs s2 (sel s2 c))" using same(1) s2(1) assms(10) by simp
  from get_reliable [OF ge con(2) inv2 assms(2)] same(2) s2(1) cred have g: "rc3 = NGX_OK" "cr = Some cred" by simp_all
  have "\<And>site n. pool site n" by (rule assms(2))
  from assertion_verify_complete [of pool, OF this _ _ va] o av g(2) have rc4: "rc4 = NGX_OK" by simp
  have inv3: "cred_inv prefix (dbs s3 (sel s3 c))"
    using get_contract(1,2) [OF ge con(2) inv2] inv2 by (simp add: keeps_def)
  have mono: "clock s2 \<le> clock s3" "clock s3 \<le> clock s4"
    using get_contract(1) [OF ge con(2) inv2] update_counter_contract [OF up con(2) inv3] by (auto simp: keeps_def)
  have "clock s2 \<le> clock s'"
    using eq g(1) rc4 mono close_keeps(2) [where rd = "Some rd" and s = s2] close_keeps(2) [where rd = "Some rd" and s = s4]
    by (auto split: if_splits)
  with consume_reliable [OF co [unfolded assms(11)] con(2) assms(2,11)] con(4,5) assms(12,13) have "rc2 = NGX_OK" by simp
  with eq g rc4 show ?thesis by simp
qed

end

section \<open>The order of the counters\<close>

definition newer :: "32 word \<Rightarrow> 32 word \<Rightarrow> bool" where
  "newer a b \<longleftrightarrow> a < b \<or> a = 0 \<and> b = 0"

lemma newer_trans: "newer a b \<Longrightarrow> newer b c \<Longrightarrow> newer a c"
  by (auto simp: newer_def)

lemma sorted_wrt_newer: "newer a b \<Longrightarrow> sorted_wrt newer (b # bs) \<Longrightarrow> sorted_wrt newer (a # b # bs)"
  using newer_trans by auto

text \<open>The logins of one credential, each with the counter its authenticator data carries, and anything
  that leaves the credential's record alone.\<close>

inductive login_step ::
    "('c, 's) hiredis \<Rightarrow> ('s \<Rightarrow> nat \<Rightarrow> rdb) \<Rightarrow> 'k openssl \<Rightarrow> 'j nxe_json \<Rightarrow> ngx_core \<Rightarrow> ('t, 'ks, 'p) nxe_jwx \<Rightarrow> ngx_pool_t
     \<Rightarrow> 'v loc_conf \<Rightarrow> bytes \<Rightarrow> 's \<Rightarrow> 32 word option \<Rightarrow> 's \<Rightarrow> bool" for hi dbs ossl js ngx jwx pool wlcf cid where
  login: "ngx_http_auth_webauthn_verify_done hi ossl js ngx jwx jti now pool wlcf r http_out_fresh s = (out, s') \<Longrightarrow>
     ho_headers out \<noteq> [] \<Longrightarrow> ngx_http_auth_webauthn_read_body pool r = Some body \<Longrightarrow>
     verify_parse ngx js pool body = Some (cid, a, chal) \<Longrightarrow> as_authenticator_data a = Some ad \<Longrightarrow>
     login_step hi dbs ossl js ngx jwx pool wlcf cid s (Some (be32 (drop 33 ad))) s'"
| other: "cred_inv (lc_redis_key_prefix wlcf) (dbs s' (lc_redis_db wlcf)) \<Longrightarrow>
     cred_abs (lc_redis_key_prefix wlcf) (dbs s' (lc_redis_db wlcf)) cid
       = cred_abs (lc_redis_key_prefix wlcf) (dbs s (lc_redis_db wlcf)) cid \<Longrightarrow>
     login_step hi dbs ossl js ngx jwx pool wlcf cid s None s'"

lemma valid_assertion_count:
  assumes "valid_assertion ossl js dec ad cd sig cred pol origins cnt"
  shows "be32 (drop 33 ad) = cnt" and "counter_ok (pol_clone_detection pol) cnt (ac_sign_count cred)"
proof -
  from assms obtain rp flags rest where "ad = rp @ [of_byte flags] @ be32_bytes cnt @ rest" "sha256 ossl (pol_rp_id pol) = Some rp"
    by (auto simp: valid_assertion_def)
  moreover from this sha256_length have "length rp = 32" by blast
  ultimately show "be32 (drop 33 ad) = cnt" by (simp add: be32_bytes)
qed (use assms in \<open>simp add: valid_assertion_def\<close>)

lemma valid_login_unique:
  assumes "valid_login ossl js ngx pool wlcf r creds cid chal cred cnt"
    and "valid_login ossl js ngx pool wlcf r creds cid' chal' cred' cnt'"
  shows "cid' = cid \<and> chal' = chal \<and> cred' = cred \<and> cnt' = cnt"
proof -
  from assms obtain ad cd sig pol origins origins' where "cid' = cid \<and> chal' = chal \<and> cred' = cred"
    "valid_assertion ossl js (core_decode_base64url ngx) ad cd sig (cred_of cred) pol origins cnt"
    "valid_assertion ossl js (core_decode_base64url ngx) ad cd sig (cred_of cred) pol origins' cnt'"
    unfolding valid_login_def by force
  with valid_assertion_count(1) show ?thesis by metis
qed

context reliable_server
begin

lemma verify_done_login_reliable:
  assumes "ngx_http_auth_webauthn_verify_done hi ossl js ngx jwx jti now pool wlcf r out0 s = (out, s')"
    and "ho_headers out \<noteq> ho_headers out0" and "cred_inv prefix (dbs s n)"
    and "prefix = lc_redis_key_prefix wlcf" and "n = lc_redis_db wlcf" and "\<And>site n. pool site n"
  obtains cid chal cred cnt where
    "valid_login ossl js ngx pool wlcf r (cred_abs prefix (dbs s n)) cid chal cred cnt"
    "dbs s' n (prefix @ ''chal:'' @ chal) = None" "cred_inv prefix (dbs s' n)"
    "cred_abs prefix (dbs s' n)
       = (cred_abs prefix (dbs s n))(cid \<mapsto> cred\<lparr> cred_sign_count := cnt, cred_last_used_at := now \<rparr>)"
proof -
  show thesis
  proof (rule verify_done_login [OF assms(1-5), of False])
    fix rd c cid m t s rc s'
    assume "rd_ctx rd = Some c" "rd_pool rd = pool" "cred_inv prefix (dbs s (sel s c))"
      "ngx_auth_webauthn_credential_update_counter hi (Some rd) (Some pool) (Some prefix) (Some cid) m t s = (rc, s')"
    then show "rc = NGX_OK \<or> False" using update_reliable [of rd pool prefix cid m t s rc s' c] assms(6) by blast
  qed (rule that; simp)
qed

lemma login_step_newer:
  assumes "login_step hi dbs ossl js ngx jwx pool wlcf cid s e s'" and "\<And>site n. pool site n"
    and "lc_clone_detection wlcf = NGX_AUTH_WEBAUTHN_CLONE_STRICT"
    and "cred_inv (lc_redis_key_prefix wlcf) (dbs s (lc_redis_db wlcf))"
    and "cred_abs (lc_redis_key_prefix wlcf) (dbs s (lc_redis_db wlcf)) cid = Some cred"
  obtains cred' where "cred_inv (lc_redis_key_prefix wlcf) (dbs s' (lc_redis_db wlcf))"
    "cred_abs (lc_redis_key_prefix wlcf) (dbs s' (lc_redis_db wlcf)) cid = Some cred'"
    "case e of None \<Rightarrow> cred' = cred | Some cnt \<Rightarrow> newer (cred_sign_count cred) cnt \<and> cred_sign_count cred' = cnt"
  using assms(1)
proof cases
  case (login jti now r out body a chal ad)
  have ne: "ho_headers out \<noteq> ho_headers http_out_fresh" using login by (simp add: http_out_fresh_def)
  show thesis
  proof (rule verify_done_login_reliable [OF login(2) ne assms(4) refl refl assms(2)])
    fix cid' chal' cred1 cnt
    assume v: "valid_login ossl js ngx pool wlcf r (cred_abs (lc_redis_key_prefix wlcf) (dbs s (lc_redis_db wlcf))) cid' chal' cred1 cnt"
      and inv: "cred_inv (lc_redis_key_prefix wlcf) (dbs s' (lc_redis_db wlcf))"
      and ab: "cred_abs (lc_redis_key_prefix wlcf) (dbs s' (lc_redis_db wlcf)) = (cred_abs (lc_redis_key_prefix wlcf) (dbs s (lc_redis_db wlcf)))
        (cid' \<mapsto> cred1\<lparr> cred_sign_count := cnt, cred_last_used_at := now \<rparr>)"
    from v login obtain cd sig origins where same: "cid' = cid" "chal' = chal" "cred1 = cred"
      and va: "valid_assertion ossl js (core_decode_base64url ngx) ad cd sig (cred_of cred) (policy_of wlcf chal) origins cnt"
      using assms(5) by (auto simp: valid_login_def)
    from valid_assertion_count [OF va] assms(3) have "be32 (drop 33 ad) = cnt" "newer (cred_sign_count cred) cnt"
      by (auto simp: newer_def counter_ok_def cred_of_def)
    with that [of "cred\<lparr> cred_sign_count := cnt, cred_last_used_at := now \<rparr>"] inv ab same login show thesis by simp
  qed
qed (use that [of cred] assms in auto)

lemma counters_sorted:
  assumes "evolves (login_step hi dbs ossl js ngx jwx pool wlcf cid) s es s'" and "\<And>site n. pool site n"
    and "lc_clone_detection wlcf = NGX_AUTH_WEBAUTHN_CLONE_STRICT"
    and "cred_inv (lc_redis_key_prefix wlcf) (dbs s (lc_redis_db wlcf))"
    and "cred_abs (lc_redis_key_prefix wlcf) (dbs s (lc_redis_db wlcf)) cid = Some cred"
  shows "sorted_wrt newer (cred_sign_count cred # decisions es)"
  using assms
proof (induction arbitrary: cred rule: evolves.induct)
  case (evolves_cons s e s1 es s2)
  from evolves_cons.hyps(1) show ?case
  proof (rule login_step_newer [OF _ evolves_cons.prems])
    fix cred'
    assume "cred_inv (lc_redis_key_prefix wlcf) (dbs s1 (lc_redis_db wlcf))"
      "cred_abs (lc_redis_key_prefix wlcf) (dbs s1 (lc_redis_db wlcf)) cid = Some cred'"
      and e: "case e of None \<Rightarrow> cred' = cred | Some cnt \<Rightarrow> newer (cred_sign_count cred) cnt \<and> cred_sign_count cred' = cnt"
    then have "sorted_wrt newer (cred_sign_count cred' # decisions es)"
      using evolves_cons.IH evolves_cons.prems(1,2) by simp
    with e show ?thesis using sorted_wrt_newer by (cases e) (auto simp del: sorted_wrt.simps)
  qed
qed simp

end

section \<open>Properties\<close>

text \<open>C1: a session is only given for a valid login. Whatever the client sends, whatever Redis and memory
  do: if \<open>ngx_http_auth_webauthn_verify_done\<close> sets a cookie, then the request parsed into a credential id,
  an assertion and a challenge; the challenge was live in Redis during the request and is gone
  afterwards; the credential was registered; the assertion is valid for it, the challenge and the
  location's RP id, origins, user-verification and clone policy; the record now carries the asserted
  counter (or is unchanged, if Redis failed on that write) and no other record changed; and the cookie
  is the token over exactly this user, credential, RP id and lifetime, signed with the location's key.\<close>

theorem login_sound:
  assumes "redis_server hi dbs sel clock"
    and "ngx_http_auth_webauthn_verify_done hi ossl js ngx jwx jti now pool wlcf r http_out_fresh s = (out, s')"
    and "ho_headers out \<noteq> []" and "prefix = lc_redis_key_prefix wlcf" and "n = lc_redis_db wlcf" and "cred_inv prefix (dbs s n)"
  shows "\<exists>cid chal cred cnt j jwt.
     valid_login ossl js ngx pool wlcf r (cred_abs prefix (dbs s n)) cid chal cred cnt
     \<and> (\<exists>t. clock s \<le> t \<and> t \<le> clock s' \<and> live t (dbs s n) (prefix @ ''chal:'' @ chal) \<noteq> None)
     \<and> dbs s' n (prefix @ ''chal:'' @ chal) = None
     \<and> (cred_abs prefix (dbs s' n)
          = (cred_abs prefix (dbs s n))(cid \<mapsto> cred\<lparr> cred_sign_count := cnt, cred_last_used_at := now \<rparr>)
        \<or> cred_abs prefix (dbs s' n) = cred_abs prefix (dbs s n))
     \<and> jti = Some j \<and> session_token ngx jwx wlcf j now (cred_user_id cred) cid = Some jwt
     \<and> ho_headers out = [(''Set-Cookie'', cookie_text wlcf jwt)]"
proof -
  have "ho_headers out \<noteq> ho_headers http_out_fresh" using assms(3) by (simp add: http_out_fresh_def)
  then show ?thesis
  proof (rule redis_server.verify_done_login [OF assms(1,2) _ assms(6,4,5), of True])
    fix cid chal cred cnt j jwt
    assume "valid_login ossl js ngx pool wlcf r (cred_abs prefix (dbs s n)) cid chal cred cnt"
      "\<exists>t. clock s \<le> t \<and> t \<le> clock s' \<and> live t (dbs s n) (prefix @ ''chal:'' @ chal) \<noteq> None"
      "dbs s' n (prefix @ ''chal:'' @ chal) = None"
      "cred_abs prefix (dbs s' n)
          = (cred_abs prefix (dbs s n))(cid \<mapsto> cred\<lparr> cred_sign_count := cnt, cred_last_used_at := now \<rparr>)
        \<or> True \<and> cred_abs prefix (dbs s' n) = cred_abs prefix (dbs s n)"
      "jti = Some j" "session_token ngx jwx wlcf j now (cred_user_id cred) cid = Some jwt"
      "ho_headers out = ho_headers http_out_fresh @ [(''Set-Cookie'', cookie_text wlcf jwt)]"
    then show ?thesis
      by (intro exI [of _ cid] exI [of _ chal] exI [of _ cred] exI [of _ cnt] exI [of _ j] exI [of _ jwt]) (simp add: http_out_fresh_def)
  qed simp
qed

text \<open>The login of the example credential with the example challenge.\<close>

definition ex_signature :: bytes where
  "ex_signature = ''KEY'' @ ex_auth_data @ ''CD'' @ replicate 30 (CHR 0x00)"

definition ex_docs :: "(bytes \<times> ex_node) list" where
  "ex_docs =
     (''BODY'', Ex_object [(''id'', Ex_string ''id''),
        (''response'', Ex_object
          [(''clientDataJSON'', Ex_string (ngx_encode_base64url ''CD'')),
           (''authenticatorData'', Ex_string (ngx_encode_base64url ex_auth_data)),
           (''signature'', Ex_string (ngx_encode_base64url ex_signature))])])
     # ex_client_data"

definition ex_jwx :: "(unit, unit, unit) nxe_jwx" where
  "ex_jwx = \<lparr> nxe_jwx_encode = (\<lambda>_ _ _ _. Some ''T''), nxe_jwx_decode = (\<lambda>_. None), nxe_jwx_jwks_parse = (\<lambda>_. None),
     nxe_jwx_jwks_parse_keyval = (\<lambda>_. None), nxe_jwx_jws_verify = (\<lambda>_ _. NGX_DECLINED), nxe_jwx_token_payload = (\<lambda>_. None),
     nxe_jwx_claims_get_string = (\<lambda>_ _. None), nxe_jwx_claims_get_integer = (\<lambda>_ _. None) \<rparr>"

definition ex_login_store :: mem where
  "ex_login_store = mem_empty\<lparr> mem_dbs := (mem_dbs mem_empty)
     (0 := ex_db(''w:chal:'' @ ex_challenge := Some (RString ''1'', Some 60000))) \<rparr>"

lemma ex_nonempty: "ngx_encode_base64url ''CD'' \<noteq> []" "ngx_encode_base64url ex_auth_data \<noteq> []"
  "ngx_encode_base64url ex_signature \<noteq> []"
proof -
  have "ngx_encode_base64url x \<noteq> []" if "x \<noteq> []" for x
    using encode_length [of x] that by (cases x) auto
  then show "ngx_encode_base64url ''CD'' \<noteq> []" "ngx_encode_base64url ex_auth_data \<noteq> []" "ngx_encode_base64url ex_signature \<noteq> []"
    by (simp_all add: ex_auth_data_def ex_signature_def del: ngx_encode_base64url.simps)
qed

lemma ex_verify_parse:
  "verify_parse ex_ngx (ex_js ex_docs) ex_pool ''BODY''
     = Some (''id'', \<lparr> as_authenticator_data = Some ex_auth_data, as_client_data_json = Some ''CD'',
                       as_signature = ex_signature \<rparr>, ex_challenge)"
  by (simp add: verify_parse_def ngx_http_auth_webauthn_b64url_field_def ex_docs_def ex_js_def ex_client_data_def ex_ngx_def
      ex_nonempty decoded_encode del: ngx_encode_base64url.simps)

lemma ex_valid_login:
  "valid_login ex_ossl (ex_js ex_docs) ex_ngx ex_pool ex_conf ex_req (cred_abs ''w:'' (mem_dbs ex_login_store 0)) ''id''
     ex_challenge ex_rec 9"
proof -
  have "cred_of ex_rec = ex_cred" by (simp add: cred_of_def ex_rec_def ex_cred_def)
  moreover have "policy_of ex_conf ex_challenge = ex_policy" by (simp add: policy_of_def ex_conf_def ex_policy_def)
  moreover have "clientdata_ok (ex_js ex_docs) decoded ''CD'' ''webauthn.get'' ex_challenge [''https://a'']"
    by (simp add: clientdata_ok_def ex_js_def ex_docs_def ex_client_data_def ngx_auth_webauthn_clientdata_get_string_def
        decoded_encode del: ngx_encode_base64url.simps)
  then have "valid_assertion ex_ossl (ex_js ex_docs) decoded ex_auth_data ''CD'' ex_signature ex_cred ex_policy [''https://a''] 9"
    using ex_valid_assertion unfolding valid_assertion_def ex_signature_def [symmetric] by (simp add: ex_policy_def)
  moreover have "cred_abs ''w:'' (mem_dbs ex_login_store 0) ''id'' = Some ex_rec"
    using ex_db_abs by (simp add: cred_abs_def ex_login_store_def cred_key_def)
  ultimately show ?thesis
    using ex_verify_parse
    by (simp add: valid_login_def ngx_http_auth_webauthn_read_body_def ex_req_def NGX_AUTH_WEBAUTHN_MAX_BODY_def ex_conf_def
        ex_ngx_def)
qed

lemma ex_login_inv: "cred_inv ''w:'' (mem_dbs ex_login_store 0)"
  using ex_db_inv cred_inv_frame(1) [of "mem_dbs ex_login_store 0" "''w:''" ex_db]
  by (simp add: ex_login_store_def cred_key_def index_key_def)

text \<open>The in-memory server ticks once per command, so a login takes at most three ticks.\<close>

lemma mem_tick: "mem_clock (snd (mem_command c argv s)) \<le> mem_clock s + 1"
  by (simp add: mem_command_def Let_def split_beta split: list.splits option.splits)

lemma mem_exec_tick: "mem_clock (snd (ngx_auth_webauthn_redis_exec mem_hi rd argv s)) \<le> mem_clock s + 1"
  using mem_tick by (simp add: ngx_auth_webauthn_redis_exec_def mem_hi_def)

lemma mem_close_tick: "mem_clock (snd (ngx_auth_webauthn_redis_close mem_hi rd s)) = mem_clock s"
  by (simp add: ngx_auth_webauthn_redis_close_def mem_hi_def split: option.splits)

lemma ex_connect_tick:
  "mem_clock (snd (snd (ngx_auth_webauthn_redis_connect mem_hi (Some pool) (Some (redis_conf_of ex_conf)) o' s))) = mem_clock s"
  by (simp add: ngx_auth_webauthn_redis_connect_def connect_open_def connect_timeout_def connect_auth_def connect_select_def
      redis_conf_of_def ex_conf_def mem_hi_def mem_connect_def Let_def)

lemma mem_call_tick:
  "mem_clock (snd (ngx_auth_webauthn_challenge_consume mem_hi rd pool prefix x len s)) \<le> mem_clock s + 1"
  "mem_clock (snd (snd (ngx_auth_webauthn_credential_get mem_hi rd pool prefix cid o' s))) \<le> mem_clock s + 1"
  "mem_clock (snd (ngx_auth_webauthn_credential_update_counter mem_hi rd pool prefix cid m t s)) \<le> mem_clock s + 1"
  using mem_exec_tick
  by (simp_all add: ngx_auth_webauthn_challenge_consume_def ngx_auth_webauthn_redis_getdel_def ngx_auth_webauthn_credential_get_def
      ngx_auth_webauthn_redis_hgetall_def ngx_auth_webauthn_credential_update_counter_def ngx_auth_webauthn_redis_hset_def
      Let_def split_beta split: option.splits redisReply.splits)

lemma ex_clock:
  "mem_clock (snd (ngx_http_auth_webauthn_verify_done mem_hi ossl js ngx jwx jti now pool ex_conf r out s)) \<le> mem_clock s + 3"
proof -
  note ticks = mem_call_tick [THEN order_trans]
  show ?thesis
    by (auto simp: ngx_http_auth_webauthn_verify_done_def Let_def split_beta mem_close_tick ex_connect_tick
        intro!: ticks split: option.splits)
qed

lemma ex_login_granted:
  "\<exists>out s'. ngx_http_auth_webauthn_verify_done mem_hi ex_ossl (ex_js ex_docs) ex_ngx ex_jwx (Some ''j'') 100 ex_pool ex_conf ex_req
     http_out_fresh ex_login_store = (out, s') \<and> ho_headers out = [(''Set-Cookie'', cookie_text ex_conf ''T'')]
     \<and> mem_clock s' < 60000"
proof -
  obtain out s' where e: "ngx_http_auth_webauthn_verify_done mem_hi ex_ossl (ex_js ex_docs) ex_ngx ex_jwx (Some ''j'') 100 ex_pool
     ex_conf ex_req http_out_fresh ex_login_store = (out, s')" by fastforce
  have "mem_clock s' \<le> mem_clock ex_login_store + 3"
    using ex_clock [where s = ex_login_store and r = ex_req and pool = ex_pool and out = http_out_fresh and ossl = ex_ossl
        and js = "ex_js ex_docs" and ngx = ex_ngx and jwx = ex_jwx and jti = "Some ''j''" and now = 100] unfolding e by simp
  then have clk: "mem_clock s' < 60000" by (simp add: ex_login_store_def mem_empty_def)
  have "out = verify_mint ex_ngx ex_jwx (Some ''j'') ex_pool ex_conf ex_req 100 (cred_user_id ex_rec) ''id'' http_out_fresh"
    by (rule mem_reliable.verify_done_complete [OF e _ _ _ _ _ _ _ ex_valid_login ex_login_inv ex_challenge_len _ clk])
      (simp_all add: ex_conf_def ex_login_store_def)
  moreover have "ho_headers (verify_mint ex_ngx ex_jwx (Some ''j'') ex_pool ex_conf ex_req 100 (cred_user_id ex_rec) ''id'' http_out_fresh)
      = [(''Set-Cookie'', cookie_text ex_conf ''T'')]"
    by (subst mint_total(1) [where jwt = "''T''"]) (simp_all add: session_token_def ex_jwx_def http_out_fresh_def)
  ultimately show ?thesis using e clk by simp
qed

theorem login_sound_witness:
  "\<exists>out s'. ngx_http_auth_webauthn_verify_done mem_hi ex_ossl (ex_js ex_docs) ex_ngx ex_jwx (Some ''j'') 100 ex_pool ex_conf ex_req
     http_out_fresh ex_login_store = (out, s')
     \<and> (\<exists>cid chal cred cnt. valid_login ex_ossl (ex_js ex_docs) ex_ngx ex_pool ex_conf ex_req
          (cred_abs ''w:'' (mem_dbs ex_login_store 0)) cid chal cred cnt \<and> mem_dbs s' 0 (''w:'' @ ''chal:'' @ chal) = None)"
proof -
  obtain out s' where e: "ngx_http_auth_webauthn_verify_done mem_hi ex_ossl (ex_js ex_docs) ex_ngx ex_jwx (Some ''j'') 100 ex_pool
     ex_conf ex_req http_out_fresh ex_login_store = (out, s')" "ho_headers out = [(''Set-Cookie'', cookie_text ex_conf ''T'')]"
    using ex_login_granted by blast
  have "ho_headers out \<noteq> []" "''w:'' = lc_redis_key_prefix ex_conf" "0 = lc_redis_db ex_conf"
    using e(2) by (simp_all add: ex_conf_def)
  from login_sound [OF mem.redis_server_axioms e(1) this ex_login_inv] obtain cid chal cred cnt where
    "valid_login ex_ossl (ex_js ex_docs) ex_ngx ex_pool ex_conf ex_req (cred_abs ''w:'' (mem_dbs ex_login_store 0)) cid chal cred cnt"
    "mem_dbs s' 0 (''w:'' @ ''chal:'' @ chal) = None" by (elim exE conjE) (rule that)
  with e(1) show ?thesis by (intro exI conjI)
qed

text \<open>C7: a valid login is accepted. With Redis up and memory available, a request that is a valid login
  for a stored, unexpired challenge gets a 200 with the session cookie; the challenge is consumed, the
  credential's record carries the new counter and time, and every other record is as before.\<close>

theorem login_complete:
  assumes "reliable_server hi dbs sel clock"
    and "ngx_http_auth_webauthn_verify_done hi ossl js ngx jwx (Some j) now pool wlcf r http_out_fresh s = (out, s')"
    and "\<And>site n. pool site n" and "lc_rp_id wlcf \<noteq> []" and "lc_redis_host wlcf \<noteq> []" and "lc_jwt_secret wlcf \<noteq> []"
    and "lc_redis_db wlcf < 10 ^ 31" and "prefix = lc_redis_key_prefix wlcf" and "n = lc_redis_db wlcf"
    and "valid_login ossl js ngx pool wlcf r (cred_abs prefix (dbs s n)) cid chal cred cnt" and "cred_inv prefix (dbs s n)"
    and "length chal = 32" and "dbs s n (prefix @ ''chal:'' @ chal) = Some (RString v, Some e)" and "clock s' < e"
    and "session_token ngx jwx wlcf j now (cred_user_id cred) cid = Some jwt"
  shows "ho_status out = NGX_HTTP_OK \<and> ho_headers out = [(''Set-Cookie'', cookie_text wlcf jwt)]
     \<and> dbs s' n (prefix @ ''chal:'' @ chal) = None
     \<and> cred_abs prefix (dbs s' n)
         = (cred_abs prefix (dbs s n))(cid \<mapsto> cred\<lparr> cred_sign_count := cnt, cred_last_used_at := now \<rparr>)"
proof -
  have out: "out = verify_mint ngx jwx (Some j) pool wlcf r now (cred_user_id cred) cid http_out_fresh"
    by (rule reliable_server.verify_done_complete [OF assms(1), OF assms(2) _ assms(4-14)]) (rule assms(3))
  have "\<And>site n. pool site n" by (rule assms(3))
  note m = mint_total [of pool, OF this assms(15), of r http_out_fresh, folded out]
  then have "ho_headers out \<noteq> ho_headers http_out_fresh" by simp
  then show ?thesis
  proof (rule reliable_server.verify_done_login_reliable [OF assms(1), OF assms(2) _ assms(11,8,9)])
    show "pool site n" for site n by (rule assms(3))
  next
    fix cid' chal' cred' cnt'
    assume v: "valid_login ossl js ngx pool wlcf r (cred_abs prefix (dbs s n)) cid' chal' cred' cnt'"
      and "dbs s' n (prefix @ ''chal:'' @ chal') = None"
      and "cred_abs prefix (dbs s' n)
         = (cred_abs prefix (dbs s n))(cid' \<mapsto> cred'\<lparr> cred_sign_count := cnt', cred_last_used_at := now \<rparr>)"
    with m valid_login_unique [OF assms(10) v] show ?thesis by (simp add: http_out_fresh_def)
  qed
qed

lemma ex_token: "session_token ex_ngx ex_jwx ex_conf ''j'' 100 (cred_user_id ex_rec) ''id'' = Some ''T''"
  by (simp add: session_token_def ex_jwx_def)

theorem login_complete_witness:
  "\<exists>out s'. ngx_http_auth_webauthn_verify_done mem_hi ex_ossl (ex_js ex_docs) ex_ngx ex_jwx (Some ''j'') 100 ex_pool ex_conf ex_req
     http_out_fresh ex_login_store = (out, s') \<and> ho_status out = NGX_HTTP_OK
     \<and> map_option cred_sign_count (cred_abs ''w:'' (mem_dbs s' 0) ''id'') = Some 9"
proof -
  obtain out s' where e: "ngx_http_auth_webauthn_verify_done mem_hi ex_ossl (ex_js ex_docs) ex_ngx ex_jwx (Some ''j'') 100 ex_pool
     ex_conf ex_req http_out_fresh ex_login_store = (out, s')" "mem_clock s' < 60000"
    using ex_login_granted by blast
  have "ho_status out = NGX_HTTP_OK \<and> ho_headers out = [(''Set-Cookie'', cookie_text ex_conf ''T'')]
     \<and> mem_dbs s' 0 (''w:'' @ ''chal:'' @ ex_challenge) = None
     \<and> cred_abs ''w:'' (mem_dbs s' 0) = (cred_abs ''w:'' (mem_dbs ex_login_store 0))
         (''id'' \<mapsto> ex_rec\<lparr> cred_sign_count := 9, cred_last_used_at := 100 \<rparr>)"
    by (rule login_complete [OF mem_reliable.reliable_server_axioms, OF e(1) _ _ _ _ _ _ _ ex_valid_login ex_login_inv
          ex_challenge_len _ e(2) ex_token])
      (simp_all add: ex_conf_def ex_login_store_def)
  with e(1) show ?thesis by simp
qed

text \<open>C13: refusals are uniform. Without a fault of Redis, of memory or of the token library, every request to a
  configured location either gets a session or the one refusal: a 401 without a cookie whose body is the
  same constant, whatever the reason (malformed body, unknown or used challenge, unknown credential,
  wrong origin, bad signature, stale counter).\<close>

theorem verify_uniform:
  assumes "reliable_server hi dbs sel clock"
    and "ngx_http_auth_webauthn_verify_done hi ossl js ngx jwx (Some j) now pool wlcf r http_out_fresh s = (out, s')"
    and "\<And>site n. pool site n" and "\<And>alg kid claims key. nxe_jwx_encode jwx alg kid claims key \<noteq> None"
    and "lc_rp_id wlcf \<noteq> []" and "lc_redis_host wlcf \<noteq> []" and "lc_jwt_secret wlcf \<noteq> []" and "lc_origins wlcf \<noteq> None"
    and "lc_redis_db wlcf < 10 ^ 31"
  shows "(\<exists>cookie. ho_status out = NGX_HTTP_OK \<and> ho_headers out = [(''Set-Cookie'', cookie)])
     \<or> out = reject ngx pool r http_out_fresh \<and> ho_status out = NGX_HTTP_UNAUTHORIZED \<and> ho_headers out = []
       \<and> (ho_body out = None \<or> ho_body out = Some ''{\"ok\":false,\"error\":\"E_ASSERTION\"}'')"
proof -
  have p: "\<And>site n. pool site n" by (rule assms(3))
  have rej: "ho_status (reject ngx pool r http_out_fresh) = NGX_HTTP_UNAUTHORIZED"
    "ho_body (reject ngx pool r http_out_fresh) \<in> {None, Some ''{\"ok\":false,\"error\":\"E_ASSERTION\"}''}"
    by (auto simp: reject_def ngx_http_auth_webauthn_verify_fail_def ngx_http_auth_webauthn_send_json_def Let_def
        http_out_fresh_def)
  from reliable_server.verify_done_decides [OF assms(1), OF assms(2) p assms(5-9)]
  consider "out = reject ngx pool r http_out_fresh"
    | uid cid where "out = verify_mint ngx jwx (Some j) pool wlcf r now uid cid http_out_fresh" by blast
  then show ?thesis
  proof cases
    case 2
    have "session_token ngx jwx wlcf j now uid cid \<noteq> None" unfolding session_token_def by (rule assms(4))
    then obtain jwt where "session_token ngx jwx wlcf j now uid cid = Some jwt" by blast
    from mint_total [of pool, OF p this, of r http_out_fresh] 2 show ?thesis by (simp add: http_out_fresh_def)
  qed (use rej in \<open>auto simp: http_out_fresh_def\<close>)
qed

theorem verify_uniform_witness:
  "\<exists>out s'. ngx_http_auth_webauthn_verify_done mem_hi ex_ossl (ex_js []) ex_ngx ex_jwx (Some ''j'') 100 ex_pool ex_conf ex_req
     http_out_fresh ex_login_store = (out, s') \<and> ho_status out \<in> {NGX_HTTP_OK, NGX_HTTP_UNAUTHORIZED}"
proof -
  obtain out s' where e: "ngx_http_auth_webauthn_verify_done mem_hi ex_ossl (ex_js []) ex_ngx ex_jwx (Some ''j'') 100 ex_pool
     ex_conf ex_req http_out_fresh ex_login_store = (out, s')" by fastforce
  from verify_uniform [OF mem_reliable.reliable_server_axioms, OF e] e show ?thesis by (auto simp: ex_jwx_def ex_conf_def)
qed

text \<open>C10: clone detection. Under the strict policy and a working Redis, the counters of the accepted logins of a
  credential, in the order they are accepted and whatever else happens in between, strictly increase
  from the stored one on, except that an authenticator without a counter may keep sending zero: a
  counter that was used once is never accepted again.\<close>

theorem login_counters_increase:
  assumes "reliable_server hi dbs sel clock" and "\<And>site n. pool site n"
    and "lc_clone_detection wlcf = NGX_AUTH_WEBAUTHN_CLONE_STRICT"
    and "cred_inv (lc_redis_key_prefix wlcf) (dbs s (lc_redis_db wlcf))"
    and "cred_abs (lc_redis_key_prefix wlcf) (dbs s (lc_redis_db wlcf)) cid = Some cred"
    and "evolves (login_step hi dbs ossl js ngx jwx pool wlcf cid) s es s'"
  shows "sorted_wrt newer (cred_sign_count cred # decisions es)"
  by (rule reliable_server.counters_sorted [OF assms(1), OF assms(6) _ assms(3-5)]) (rule assms(2))

theorem login_counters_increase_witness:
  "\<exists>s'. evolves (login_step mem_hi mem_dbs ex_ossl (ex_js ex_docs) ex_ngx ex_jwx ex_pool ex_conf ''id'') ex_login_store
     [Some (be32 (drop 33 ex_auth_data))] s' \<and> newer 8 (be32 (drop 33 ex_auth_data))"
proof -
  obtain out s' where e: "ngx_http_auth_webauthn_verify_done mem_hi ex_ossl (ex_js ex_docs) ex_ngx ex_jwx (Some ''j'') 100 ex_pool
     ex_conf ex_req http_out_fresh ex_login_store = (out, s')" "ho_headers out = [(''Set-Cookie'', cookie_text ex_conf ''T'')]"
    using ex_login_granted by blast
  have "ngx_http_auth_webauthn_read_body ex_pool ex_req = Some ''BODY''"
    by (simp add: ngx_http_auth_webauthn_read_body_def ex_req_def NGX_AUTH_WEBAUTHN_MAX_BODY_def)
  then have ev: "evolves (login_step mem_hi mem_dbs ex_ossl (ex_js ex_docs) ex_ngx ex_jwx ex_pool ex_conf ''id'') ex_login_store
     [Some (be32 (drop 33 ex_auth_data))] s'"
    by (intro evolves_cons [OF _ evolves_nil] login_step.login [OF e(1) _ _ ex_verify_parse]) (simp_all add: e(2))
  have c: "lc_redis_key_prefix ex_conf = ''w:''" "lc_redis_db ex_conf = 0"
    "lc_clone_detection ex_conf = NGX_AUTH_WEBAUTHN_CLONE_STRICT" by (simp_all add: ex_conf_def)
  have "cred_abs ''w:'' (mem_dbs ex_login_store 0) ''id'' = Some ex_rec"
    using ex_valid_login by (auto simp: valid_login_def)
  from login_counters_increase [OF mem_reliable.reliable_server_axioms, OF _ c(3) _ _ ev, unfolded c, OF _ ex_login_inv this] ev
  show ?thesis by (auto simp: ex_rec_def)
qed

text \<open>The body the verifier works on. With memory available, \<open>ngx_http_auth_webauthn_read_body\<close> returns
  exactly the concatenation of the buffers, provided all of them are in memory and the whole is
  between 1 byte and 64 KiB; everything else (no body, a body spilled to disk, an oversized one) is
  refused.\<close>

theorem read_body_exact:
  assumes "\<And>site n. pool site n"
  shows "ngx_http_auth_webauthn_read_body pool r = Some body \<longleftrightarrow>
     (\<exists>bufs. rq_bufs r = Some bufs \<and> (\<forall>b \<in> set bufs. \<not> snd b) \<and> body = concat (map fst bufs)
        \<and> 1 \<le> length body \<and> length body \<le> 65536)"
proof (cases "rq_bufs r")
  case (Some bufs)
  define whole where "whole = concat (map fst bufs)"
  have "body_len bufs 0 = (if \<exists>b \<in> set bufs. snd b then None else Some (length whole))" by (simp add: body_len_eq whole_def)
  with Some assms show ?thesis
    unfolding whole_def [symmetric]
    by (auto simp: ngx_http_auth_webauthn_read_body_def NGX_AUTH_WEBAUTHN_MAX_BODY_def Suc_le_eq whole_def [symmetric])
qed (simp add: ngx_http_auth_webauthn_read_body_def)

theorem read_body_exact_witness:
  "ngx_http_auth_webauthn_read_body ex_pool (ex_req\<lparr> rq_bufs := Some [(''ab'', False), (''c'', False)] \<rparr>) = Some ''abc''"
  using read_body_exact [of ex_pool "ex_req\<lparr> rq_bufs := Some [(''ab'', False), (''c'', False)] \<rparr>" "''abc''"] by simp

end
