(* ===== verification/Json.thy ===== *)
theory Json
  imports Http
begin

text \<open>
  A reference reader for the flat JSON objects the module writes (RFC 8259: string and integer members,
  no white space), and the printer it inverts. It is the specification against which the texts of the
  handlers are checked: the claims of a session token, the success body, the key documents.
\<close>

section \<open>Values\<close>

datatype json_value = JStr bytes | JNum int

text \<open>A member as it is written: the key, and the text between the quotes or the number.\<close>

definition print_value :: "json_value \<Rightarrow> bytes" where
  "print_value v = (case v of JStr raw \<Rightarrow> [CHR 0x22] @ raw @ [CHR 0x22] | JNum i \<Rightarrow> show_int i)"

fun print_members :: "(bytes \<times> json_value) list \<Rightarrow> bytes" where
  "print_members [] = []"
| "print_members [(k, v)] = [CHR 0x22] @ k @ [CHR 0x22, CHR '':''] @ print_value v"
| "print_members ((k, v) # m # ms) = [CHR 0x22] @ k @ [CHR 0x22, CHR '':''] @ print_value v @ [CHR '',''] @ print_members (m # ms)"

definition json_object :: "(bytes \<times> json_value) list \<Rightarrow> bytes" where
  "json_object ms = [CHR ''{''] @ print_members ms @ [CHR ''}'']"

section \<open>The reader\<close>

text \<open>The text up to the closing quote, and what follows it.\<close>

fun scan_string :: "bytes \<Rightarrow> (bytes \<times> bytes) option" where
  "scan_string [] = None"
| "scan_string (c # cs) =
     (if c = CHR 0x22 then Some ([], cs)
      else if c = CHR 0x5C then
        (case cs of
           [] \<Rightarrow> None
         | e # es \<Rightarrow> map_option (\<lambda>(raw, rest). (c # e # raw, rest)) (scan_string es))
      else map_option (\<lambda>(raw, rest). (c # raw, rest)) (scan_string cs))"

definition read_string :: "bytes \<Rightarrow> (bytes \<times> bytes) option" where
  "read_string s =
     (case s of
        [] \<Rightarrow> None
      | c # cs \<Rightarrow>
          if c \<noteq> CHR 0x22 then None
          else case scan_string cs of
                 None \<Rightarrow> None
               | Some (raw, rest) \<Rightarrow> map_option (\<lambda>v. (v, rest)) (json_chars raw))"

definition read_int :: "bytes \<Rightarrow> (int \<times> bytes) option" where
  "read_int s =
     (let neg = (s \<noteq> [] \<and> hd s = CHR ''-''); t = (if neg then tl s else s);
          ds = takeWhile is_digit t; n = int (read_nat 0 ds)
      in if ds = [] then None else Some (if neg then - n else n, dropWhile is_digit t))"

definition read_value :: "bytes \<Rightarrow> (json_value \<times> bytes) option" where
  "read_value s =
     (if s \<noteq> [] \<and> hd s = CHR 0x22 then map_option (\<lambda>(v, rest). (JStr v, rest)) (read_string s)
      else map_option (\<lambda>(i, rest). (JNum i, rest)) (read_int s))"

text \<open>The members up to the closing brace, which must end the text. Each round reads a member, so the
  length of the text is fuel enough.\<close>

fun read_members :: "nat \<Rightarrow> bytes \<Rightarrow> (bytes \<times> json_value) list option" where
  "read_members 0 s = None"
| "read_members (Suc n) s =
     (case read_string s of
        None \<Rightarrow> None
      | Some (k, rest) \<Rightarrow>
          if rest = [] \<or> hd rest \<noteq> CHR '':'' then None
          else case read_value (tl rest) of
                 None \<Rightarrow> None
               | Some (v, rest) \<Rightarrow>
                   if rest = ''}'' then Some [(k, v)]
                   else if rest \<noteq> [] \<and> hd rest = CHR '','' then map_option ((#) (k, v)) (read_members n (tl rest))
                   else None)"

definition json_read :: "bytes \<Rightarrow> (bytes \<times> json_value) list option" where
  "json_read s =
     (if s \<noteq> [] \<and> hd s = CHR ''{'' then read_members (length (tl s)) (tl s) else None)"

section \<open>The reader inverts the printer\<close>

definition read_back :: "json_value \<Rightarrow> json_value option" where
  "read_back v = (case v of JStr raw \<Rightarrow> map_option JStr (json_chars raw) | JNum i \<Rightarrow> Some (JNum i))"

text \<open>A text that stands for itself between quotes.\<close>

definition plain :: "bytes \<Rightarrow> bool" where
  "plain s \<longleftrightarrow> json_chars s = Some s"

lemma scan_string_closed: "json_chars raw = Some v \<Longrightarrow> scan_string (raw @ CHR 0x22 # rest) = Some (raw, rest)"
proof (induction raw arbitrary: v rule: scan_string.induct)
  case (2 c cs)
  show ?case
  proof (cases "c = CHR 0x5C")
    case True
    with 2(3) obtain e es where cs: "cs = e # es" by (auto simp: json_chars.simps(2) split: list.splits)
    show ?thesis
    proof (cases "e = CHR ''u''")
      case u: True
      from 2(3) True cs u obtain h1 h2 h3 h4 r w where h: "es = h1 # h2 # h3 # h4 # r" "unhex h1 \<noteq> None" "unhex h2 \<noteq> None"
        "unhex h3 \<noteq> None" "unhex h4 \<noteq> None" "json_chars r = Some w"
        by (auto simp: json_chars.simps(2) split: list.splits option.splits nat.splits)
      have hex: "x \<noteq> CHR 0x22 \<and> x \<noteq> CHR 0x5C \<and> 32 \<le> (of_char x :: nat)" if "unhex x \<noteq> None" for x
        using that by (auto simp: unhex_def is_digit_def split: if_splits)
      have "json_chars es = Some (h1 # h2 # h3 # h4 # w)"
        unfolding h(1) using hex [OF h(2)] hex [OF h(3)] hex [OF h(4)] hex [OF h(5)] h(6) by (simp add: json_chars_plain)
      with 2(1) True cs show ?thesis by simp
    next
      case False
      from 2(3) True cs False obtain w where "json_chars es = Some w"
        by (auto simp: json_chars.simps(2) split: option.splits)
      with 2(1) True cs show ?thesis by simp
    qed
  next
    case False
    with 2(3) obtain w where "json_chars cs = Some w" "c \<noteq> CHR 0x22"
      by (auto simp: json_chars.simps(2) split: if_splits)
    with 2(2) False show ?thesis by simp
  qed
qed simp

lemma read_string_printed:
  "json_chars raw = Some v \<Longrightarrow> read_string (CHR 0x22 # raw @ CHR 0x22 # rest) = Some (v, rest)"
  by (simp add: read_string_def scan_string_closed)

lemma read_int_show: "rest = [] \<or> \<not> is_digit (hd rest) \<Longrightarrow> read_int (show_int i @ rest) = Some (i, rest)"
proof -
  assume r: "rest = [] \<or> \<not> is_digit (hd rest)"
  have ds: "takeWhile is_digit (show_nat n @ rest) = show_nat n" "dropWhile is_digit (show_nat n @ rest) = rest" for n
    using show_nat_digits [of n] r by (auto simp: list_all_iff takeWhile_append dropWhile_append takeWhile_eq_Nil_iff) (cases rest; simp)
  have hd: "hd (show_nat n @ rest) \<noteq> CHR ''-''" for n
    using show_nat_digits [of n] by (cases "show_nat n") auto
  show ?thesis
    using ds hd by (auto simp: read_int_def show_int_def Let_def read_show_nat)
qed

lemma show_int_head: "\<exists>c cs. show_int i = c # cs \<and> c \<noteq> CHR 0x22"
proof -
  have "\<exists>c cs. show_nat n = c # cs \<and> c \<noteq> CHR 0x22" for n
    using show_nat_digits [of n] by (cases "show_nat n") (auto simp: is_digit_def)
  then show ?thesis by (simp add: show_int_def)
qed

lemma read_value_printed:
  assumes "read_back v = Some w" and "rest \<noteq> []" and "\<not> is_digit (hd rest)"
  shows "read_value (print_value v @ rest) = Some (w, rest)"
proof (cases v)
  case (JStr raw)
  with assms(1) show ?thesis by (auto simp: read_value_def print_value_def read_back_def read_string_printed)
next
  case (JNum i)
  with assms show_int_head [of i] read_int_show [of rest i] show ?thesis
    by (auto simp: read_value_def print_value_def read_back_def)
qed

lemma read_members_printed:
  assumes "list_all2 (\<lambda>(k, v) (k', v'). json_chars k = Some k' \<and> read_back v = Some v') ms ms'" and "ms \<noteq> []" and "length ms \<le> n"
  shows "read_members n (print_members ms @ ''}'') = Some ms'"
  using assms
proof (induction ms arbitrary: ms' n rule: print_members.induct)
  case (2 k v)
  then obtain k' v' m where "ms' = [(k', v')]" "json_chars k = Some k'" "read_back v = Some v'" "n = Suc m"
    by (cases n) (auto simp: list_all2_Cons1)
  then show ?case by (simp add: read_string_printed read_value_printed is_digit_def)
next
  case (3 k v m ms)
  then obtain k' v' ns j where n: "ms' = (k', v') # ns" "json_chars k = Some k'" "read_back v = Some v'" "n = Suc j"
    "list_all2 (\<lambda>(k, v) (k', v'). json_chars k = Some k' \<and> read_back v = Some v') (m # ms) ns"
    by (cases n) (auto simp: list_all2_Cons1)
  with 3 have "read_members j (print_members (m # ms) @ ''}'') = Some ns" by simp
  with n show ?case by (simp add: read_string_printed read_value_printed is_digit_def)
qed simp

lemma print_members_length: "length ms \<le> length (print_members ms)"
  by (induction ms rule: print_members.induct) auto

lemma json_read_object:
  assumes "list_all2 (\<lambda>(k, v) (k', v'). json_chars k = Some k' \<and> read_back v = Some v') ms ms'" and "ms \<noteq> []"
  shows "json_read (json_object ms) = Some ms'"
  using read_members_printed [OF assms, of "length (print_members ms @ ''}'')"] print_members_length [of ms]
  by (simp add: json_read_def json_object_def)

section \<open>Plain texts\<close>

lemma plainI: "(\<And>c. c \<in> set s \<Longrightarrow> c \<noteq> CHR 0x22 \<and> c \<noteq> CHR 0x5C \<and> 32 \<le> (of_char c :: nat)) \<Longrightarrow> plain s"
  by (induction s) (auto simp: plain_def json_chars_plain)

lemma plain_basis: "set s \<subseteq> set basis \<Longrightarrow> plain s"
proof -
  have "\<forall>c \<in> set basis. c \<noteq> CHR 0x22 \<and> c \<noteq> CHR 0x5C \<and> 32 \<le> (of_char c :: nat)" by code_simp
  then show "set s \<subseteq> set basis \<Longrightarrow> plain s" by (intro plainI) blast
qed

lemma json_chars_escape_loop [simp]: "json_chars (escape_loop s) = Some s"
  using json_chars_escape [of s "[]"] by simp

lemma plain_json [simp]: "plain s \<Longrightarrow> json_chars s = Some s"
  by (simp add: plain_def)

end
