(* ===== verification/Gate.thy ===== *)
theory Gate
  imports Verify_Handler Json
begin

text \<open>
  The access gate of \<open>src/ngx_http_auth_webauthn_module.c\<close>: the key set, the refusal, the injected headers,
  the access-phase handler, and the variables it sets. What the gate decides is the definition
  \<open>session_ok\<close>. Evaluating a complex value of nginx core is a parameter; it may read the request context
  and the headers set so far.
\<close>

section \<open>State\<close>

record webauthn_ctx =
  cx_user_id :: bytes
  cx_credential_id :: bytes
  cx_auth_status :: bytes
  cx_jwt_exp :: time_t
  cx_has_exp :: bool

definition ctx_zero :: webauthn_ctx where
  "ctx_zero = \<lparr> cx_user_id = [], cx_credential_id = [], cx_auth_status = [], cx_jwt_exp = 0, cx_has_exp = False \<rparr>"

text \<open>An element of \<open>r->headers_in.headers\<close>; the last two fields are \<open>None\<close> while they are not set.\<close>

record table_elt =
  te_key :: bytes
  te_value :: bytes
  te_lowcase_key :: "bytes option"
  te_hash :: "nat option"

section \<open>The handler\<close>

definition jwks_hmac :: "bytes \<Rightarrow> bytes \<Rightarrow> bytes" where
  "jwks_hmac k alg = ''{\"keys\":[{\"kty\":\"oct\",\"k\":\"'' @ k @ ''\",\"alg\":\"'' @ alg @ ''\"}]}''"

definition jwks_pem :: "bytes \<Rightarrow> bytes" where
  "jwks_pem pem = ''{\"webauthn\":\"'' @ pem @ ''\"}''"

definition ngx_http_auth_webauthn_build_jwks ::
    "ngx_core \<Rightarrow> ('t, 'ks, 'p) nxe_jwx \<Rightarrow> ngx_pool_t \<Rightarrow> 'v loc_conf \<Rightarrow> 'ks option" where
  "ngx_http_auth_webauthn_build_jwks ngx jwx pool wlcf =
     (if lc_jwt_alg_family wlcf = NGX_AUTH_WEBAUTHN_JWT_HMAC then
        (case ngx_http_auth_webauthn_b64url ngx pool (lc_jwt_secret wlcf) of
           None \<Rightarrow> None
         | Some k_b64 \<Rightarrow>
             if \<not> pool ''doc.data'' (64 + length k_b64 + length (lc_jwt_alg wlcf)) then None
             else nxe_jwx_jwks_parse jwx (jwks_hmac k_b64 (lc_jwt_alg wlcf)))
      else
        (case ngx_http_auth_webauthn_json_escape pool (lc_jwt_pub_pem wlcf) of
           None \<Rightarrow> None
         | Some pem_esc \<Rightarrow>
             if \<not> pool ''doc.data'' (24 + length pem_esc) then None
             else nxe_jwx_jwks_parse_keyval jwx (jwks_pem pem_esc)))"

definition ngx_http_auth_webauthn_unauthorized :: "ngx_pool_t \<Rightarrow> 'v loc_conf \<Rightarrow> http_out \<Rightarrow> int \<times> http_out" where
  "ngx_http_auth_webauthn_unauthorized pool wlcf out =
     (if length (lc_signin_url wlcf) = 0 then (int NGX_HTTP_UNAUTHORIZED, out)
      else if \<not> pool ''location'' 56 then (NGX_HTTP_INTERNAL_SERVER_ERROR, out)
      else
        let location = (''Location'', lc_signin_url wlcf) in
        (NGX_HTTP_MOVED_TEMPORARILY,
         out\<lparr> ho_headers := ho_headers out @ [location], ho_location := Some location \<rparr>))"

definition ngx_tolower :: "u_char \<Rightarrow> u_char" where
  "ngx_tolower c = (if byte (CHR ''A'') \<le> byte c \<and> byte c \<le> byte (CHR ''Z'') then of_byte (byte c OR 0x20) else c)"

definition ngx_strlow :: "bytes \<Rightarrow> bytes" where
  "ngx_strlow src = map ngx_tolower src"

fun apply_headers_loop ::
    "ngx_core \<Rightarrow> ngx_pool_t \<Rightarrow> (table_elt list \<Rightarrow> 'v \<Rightarrow> bytes option) \<Rightarrow> 'v header_t list \<Rightarrow> table_elt list
     \<Rightarrow> ngx_int_t \<times> table_elt list" where
  "apply_headers_loop ngx pool complex_value [] headers = (NGX_OK, headers)"
| "apply_headers_loop ngx pool complex_value (hdr # hdrs) headers =
     (case complex_value headers (hdr_value hdr) of
        None \<Rightarrow> (NGX_ERROR, headers)
      | Some value \<Rightarrow>
          if \<not> pool ''h'' 56 then (NGX_ERROR, headers)
          else
            let h = \<lparr> te_key = hdr_name hdr, te_value = value, te_lowcase_key = None, te_hash = None \<rparr> in
            if \<not> pool ''h->lowcase_key'' (length (te_key h)) then (NGX_ERROR, headers @ [h])
            else
              let low = ngx_strlow (te_key h);
                  h = h\<lparr> te_lowcase_key := Some low, te_hash := Some (ngx_hash_key ngx low) \<rparr>
              in apply_headers_loop ngx pool complex_value hdrs (headers @ [h]))"

definition ngx_http_auth_webauthn_apply_headers ::
    "ngx_core \<Rightarrow> ngx_pool_t \<Rightarrow> (table_elt list \<Rightarrow> 'v \<Rightarrow> bytes option) \<Rightarrow> 'v loc_conf \<Rightarrow> table_elt list
     \<Rightarrow> ngx_int_t \<times> table_elt list" where
  "ngx_http_auth_webauthn_apply_headers ngx pool complex_value wlcf headers =
     (case lc_set_headers wlcf of
        None \<Rightarrow> (NGX_OK, headers)
      | Some hdrs \<Rightarrow> apply_headers_loop ngx pool complex_value hdrs headers)"

text \<open>The copy of an optional string claim into the context.\<close>

definition copy_claim :: "ngx_pool_t \<Rightarrow> string \<Rightarrow> bytes option \<Rightarrow> bytes option" where
  "copy_claim pool site claim =
     (case claim of
        None \<Rightarrow> Some []
      | Some x \<Rightarrow> if \<not> pool site (length x) then None else Some x)"

text \<open>The decision on the cookie: refuse with a status, fail with a 500, or go on with the payload and expiry of
  the session.\<close>

datatype 'p verdict = Refuse bytes | Fail | Session 'p time_t

definition check_session ::
    "ngx_core \<Rightarrow> ('t, 'ks, 'p) nxe_jwx \<Rightarrow> time_t \<Rightarrow> ngx_pool_t \<Rightarrow> 'v loc_conf \<Rightarrow> http_req \<Rightarrow> 'p verdict" where
  "check_session ngx jwx now pool wlcf r =
     (if length (lc_jwt_secret wlcf) = 0 then Fail
      else
      case Option.bind (rq_cookie r) (\<lambda>c. ngx_http_parse_cookie ngx c (lc_cookie_name wlcf)) of
        None \<Rightarrow> Refuse ''unauthenticated''
      | Some cookie_val \<Rightarrow>
      (case nxe_jwx_decode jwx cookie_val of
        None \<Rightarrow> Refuse ''invalid''
      | Some token \<Rightarrow>
      (case ngx_http_auth_webauthn_build_jwks ngx jwx pool wlcf of
        None \<Rightarrow> Fail
      | Some jwks \<Rightarrow>
      if nxe_jwx_jws_verify jwx token jwks \<noteq> NGX_OK then Refuse ''invalid''
      else
      (case nxe_jwx_token_payload jwx token of
        None \<Rightarrow> Refuse ''invalid''
      | Some payload \<Rightarrow>
      if (case nxe_jwx_claims_get_string jwx payload ''aud'' of
            None \<Rightarrow> True
          | Some aud \<Rightarrow> length aud \<noteq> length (lc_rp_id wlcf) \<or> take (length aud) aud \<noteq> take (length aud) (lc_rp_id wlcf))
      then Refuse ''invalid''
      else if (case nxe_jwx_claims_get_string jwx payload ''iss'' of
            None \<Rightarrow> True
          | Some iss \<Rightarrow> length iss \<noteq> 14 \<or> take (length iss) iss \<noteq> take (length iss) ''nginx-webauthn'')
      then Refuse ''invalid''
      else
      (case nxe_jwx_claims_get_integer jwx payload ''exp'' of
        None \<Rightarrow> Refuse ''expired''
      | Some exp \<Rightarrow> if exp \<le>s now then Refuse ''expired'' else Session payload exp)))))"

definition ngx_http_auth_webauthn_access_handler ::
    "ngx_core \<Rightarrow> ('t, 'ks, 'p) nxe_jwx \<Rightarrow> (webauthn_ctx \<Rightarrow> table_elt list \<Rightarrow> 'v \<Rightarrow> bytes option) \<Rightarrow> time_t \<Rightarrow> ngx_pool_t
     \<Rightarrow> 'v loc_conf \<Rightarrow> http_req \<Rightarrow> webauthn_ctx option \<Rightarrow> table_elt list \<Rightarrow> http_out
     \<Rightarrow> int \<times> webauthn_ctx option \<times> table_elt list \<times> http_out" where
  "ngx_http_auth_webauthn_access_handler ngx jwx complex_value now pool wlcf r ctx0 headers out =
     (if \<not> lc_auth wlcf then (rc_code NGX_DECLINED, ctx0, headers, out)
      else if \<not> pool ''ctx'' 64 then (NGX_HTTP_INTERNAL_SERVER_ERROR, ctx0, headers, out)
      else
      let ctx = ctx_zero\<lparr> cx_auth_status := ''unauthenticated'' \<rparr> in
      (case check_session ngx jwx now pool wlcf r of
        Fail \<Rightarrow> (NGX_HTTP_INTERNAL_SERVER_ERROR, Some ctx, headers, out)
      | Refuse status \<Rightarrow>
          let (rc, out) = ngx_http_auth_webauthn_unauthorized pool wlcf out in
          (rc, Some (ctx\<lparr> cx_auth_status := status \<rparr>), headers, out)
      | Session payload exp \<Rightarrow>
      let ctx = ctx\<lparr> cx_jwt_exp := exp, cx_has_exp := True \<rparr> in
      (case copy_claim pool ''ctx->user_id.data'' (nxe_jwx_claims_get_string jwx payload ''sub'') of
        None \<Rightarrow> (NGX_HTTP_INTERNAL_SERVER_ERROR, Some ctx, headers, out)
      | Some user_id \<Rightarrow>
      let ctx = ctx\<lparr> cx_user_id := user_id \<rparr> in
      (case copy_claim pool ''ctx->credential_id.data'' (nxe_jwx_claims_get_string jwx payload ''cid'') of
        None \<Rightarrow> (NGX_HTTP_INTERNAL_SERVER_ERROR, Some ctx, headers, out)
      | Some credential_id \<Rightarrow>
      let ctx = ctx\<lparr> cx_credential_id := credential_id, cx_auth_status := ''authenticated'' \<rparr>;
          (rc, headers) = ngx_http_auth_webauthn_apply_headers ngx pool (complex_value ctx) wlcf headers
      in
      if rc \<noteq> NGX_OK then (NGX_HTTP_INTERNAL_SERVER_ERROR, Some ctx, headers, out)
      else (rc_code NGX_OK, Some ctx, headers, out)))))"

section \<open>Variables and registration\<close>

text \<open>The value of a variable, \<open>None\<close> if it is \<open>not_found\<close>.\<close>

definition ngx_http_auth_webauthn_variable ::
    "ngx_pool_t \<Rightarrow> webauthn_ctx option \<Rightarrow> nat \<Rightarrow> bytes option \<Rightarrow> ngx_int_t \<times> bytes option" where
  "ngx_http_auth_webauthn_variable pool ctx data v =
     (let found = (\<lambda>value. (NGX_OK, if length value = 0 then None else Some value)) in
      case ctx of
        None \<Rightarrow> if data = 2 then (NGX_OK, Some ''unauthenticated'') else (NGX_OK, None)
      | Some ctx \<Rightarrow>
          if data = 0 then found (cx_user_id ctx)
          else if data = 1 then found (cx_credential_id ctx)
          else if data = 2 then found (cx_auth_status ctx)
          else if data = 3 then
            if \<not> cx_has_exp ctx then (NGX_OK, None)
            else if \<not> pool ''p'' 20 then (NGX_ERROR, v)
            else found (show_int (sint (cx_jwt_exp ctx)))
          else (NGX_OK, None))"

definition ngx_http_auth_webauthn_vars :: "(bytes \<times> nat) list" where
  "ngx_http_auth_webauthn_vars =
     [(''webauthn_user_id'', 0), (''webauthn_credential_id'', 1), (''webauthn_auth_status'', 2), (''webauthn_jwt_exp'', 3)]"

text \<open>\<open>add_variable\<close> says whether nginx core can add the variable; the result maps a name to the data its
  handler is called with.\<close>

fun add_variables :: "(bytes \<Rightarrow> bool) \<Rightarrow> (bytes \<times> nat) list \<Rightarrow> (bytes \<rightharpoonup> nat) \<Rightarrow> ngx_int_t \<times> (bytes \<rightharpoonup> nat)" where
  "add_variables add_variable [] vars = (NGX_OK, vars)"
| "add_variables add_variable ((name, data) # vs) vars =
     (if \<not> add_variable name then (NGX_ERROR, vars)
      else add_variables add_variable vs (vars(name \<mapsto> data)))"

definition ngx_http_auth_webauthn_preconfiguration ::
    "(bytes \<Rightarrow> bool) \<Rightarrow> (bytes \<rightharpoonup> nat) \<Rightarrow> ngx_int_t \<times> (bytes \<rightharpoonup> nat)" where
  "ngx_http_auth_webauthn_preconfiguration add_variable vars =
     add_variables add_variable ngx_http_auth_webauthn_vars vars"

text \<open>\<open>nxe_phase_add_handler\<close> is the \<open>nxe-phase\<close> submodule's: its return code for the access handler.\<close>

definition ngx_http_auth_webauthn_postconfiguration :: "ngx_int_t \<Rightarrow> ngx_int_t" where
  "ngx_http_auth_webauthn_postconfiguration add_handler = (if add_handler \<noteq> NGX_OK then NGX_ERROR else NGX_OK)"

section \<open>Specification\<close>

definition jwks_of :: "ngx_core \<Rightarrow> ('t, 'ks, 'p) nxe_jwx \<Rightarrow> 'v loc_conf \<Rightarrow> 'ks option" where
  "jwks_of ngx jwx wlcf =
     (if lc_jwt_alg_family wlcf = NGX_AUTH_WEBAUTHN_JWT_HMAC
      then nxe_jwx_jwks_parse jwx (jwks_hmac (core_encode_base64url ngx (lc_jwt_secret wlcf)) (lc_jwt_alg wlcf))
      else nxe_jwx_jwks_parse_keyval jwx (jwks_pem (escape_loop (lc_jwt_pub_pem wlcf))))"

text \<open>The request carries a session of this location: a token signed with its key, for its RP id, issued by
  this module and not expired.\<close>

definition session_ok ::
    "ngx_core \<Rightarrow> ('t, 'ks, 'p) nxe_jwx \<Rightarrow> 'v loc_conf \<Rightarrow> http_req \<Rightarrow> time_t \<Rightarrow> 'p \<Rightarrow> time_t \<Rightarrow> bool" where
  "session_ok ngx jwx wlcf r now p exp \<longleftrightarrow>
     (\<exists>cookies t tok ks. rq_cookie r = Some cookies \<and> ngx_http_parse_cookie ngx cookies (lc_cookie_name wlcf) = Some t
        \<and> nxe_jwx_decode jwx t = Some tok \<and> jwks_of ngx jwx wlcf = Some ks \<and> nxe_jwx_jws_verify jwx tok ks = NGX_OK
        \<and> nxe_jwx_token_payload jwx tok = Some p)
     \<and> nxe_jwx_claims_get_string jwx p ''aud'' = Some (lc_rp_id wlcf)
     \<and> nxe_jwx_claims_get_string jwx p ''iss'' = Some ''nginx-webauthn''
     \<and> nxe_jwx_claims_get_integer jwx p ''exp'' = Some exp \<and> now <s exp"

definition claim_text :: "bytes option \<Rightarrow> bytes" where
  "claim_text c = (case c of None \<Rightarrow> [] | Some x \<Rightarrow> x)"

definition ctx_of :: "('t, 'ks, 'p) nxe_jwx \<Rightarrow> 'p \<Rightarrow> time_t \<Rightarrow> webauthn_ctx" where
  "ctx_of jwx p exp =
     \<lparr> cx_user_id = claim_text (nxe_jwx_claims_get_string jwx p ''sub''),
       cx_credential_id = claim_text (nxe_jwx_claims_get_string jwx p ''cid''),
       cx_auth_status = ''authenticated'', cx_jwt_exp = exp, cx_has_exp = True \<rparr>"

section \<open>Lemmas\<close>

lemma build_jwks_total: "(\<And>site n. pool site n) \<Longrightarrow> ngx_http_auth_webauthn_build_jwks ngx jwx pool wlcf = jwks_of ngx jwx wlcf"
  by (simp add: ngx_http_auth_webauthn_build_jwks_def jwks_of_def ngx_http_auth_webauthn_b64url_def json_escape_total)

lemma copy_claim_total: "(\<And>site n. pool site n) \<Longrightarrow> copy_claim pool site c = Some (claim_text c)"
  by (simp add: copy_claim_def claim_text_def split: option.splits)

lemma unauthorized_rc:
  "fst (ngx_http_auth_webauthn_unauthorized pool wlcf out) \<in> {401, 302, 500}"
  by (simp add: ngx_http_auth_webauthn_unauthorized_def NGX_HTTP_UNAUTHORIZED_def NGX_HTTP_MOVED_TEMPORARILY_def
      NGX_HTTP_INTERNAL_SERVER_ERROR_def Let_def)

lemma memcmp_differs: "length a \<noteq> length b \<or> take (length a) a \<noteq> take (length a) b \<longleftrightarrow> a \<noteq> b"
  by auto

lemma iss_differs: "length a \<noteq> 14 \<or> take (length a) a \<noteq> take (length a) ''nginx-webauthn'' \<longleftrightarrow> a \<noteq> ''nginx-webauthn''"
  by auto

lemma claim_test: "(case c of None \<Rightarrow> True | Some a \<Rightarrow> a \<noteq> b) \<longleftrightarrow> c \<noteq> Some b"
  by (cases c) auto

lemma check_session_iff:
  assumes "\<And>site n. pool site n" and "lc_jwt_secret wlcf \<noteq> []"
  shows "check_session ngx jwx now pool wlcf r = Session p exp \<longleftrightarrow> session_ok ngx jwx wlcf r now p exp"
proof -
  have sl: "exp \<le>s now \<longleftrightarrow> \<not> now <s exp" for exp :: time_t by (auto simp: word_sless_alt word_sle_eq)
  show ?thesis
    unfolding check_session_def memcmp_differs iss_differs claim_test session_ok_def
    using assms by (simp add: build_jwks_total sl split: option.splits) (auto simp: Option.bind_eq_Some_conv bind_eq_None_conv)
qed

lemma check_session_status:
  "check_session ngx jwx now pool wlcf r = Refuse st \<Longrightarrow> st \<in> {''unauthenticated'', ''invalid'', ''expired''}"
  by (auto simp: check_session_def split: option.splits if_splits)

text \<open>The handler with the gate on and memory available, as its specification reads it.\<close>

lemma access_eq:
  assumes "\<And>site n. pool site n" and "lc_auth wlcf" and "lc_jwt_secret wlcf \<noteq> []"
  shows "ngx_http_auth_webauthn_access_handler ngx jwx cv now pool wlcf r ctx0 hs out = (rc, ctx, hs', out') \<and> rc = 0
    \<longleftrightarrow> rc = 0 \<and> out' = out \<and> (\<exists>p exp. session_ok ngx jwx wlcf r now p exp \<and> ctx = Some (ctx_of jwx p exp)
          \<and> ngx_http_auth_webauthn_apply_headers ngx pool (cv (ctx_of jwx p exp)) wlcf hs = (NGX_OK, hs'))"
proof -
  have "fst (ngx_http_auth_webauthn_unauthorized pool wlcf out) \<noteq> 0" using unauthorized_rc [of pool wlcf out] by auto
  moreover have "NGX_HTTP_INTERNAL_SERVER_ERROR \<noteq> 0" by (simp add: NGX_HTTP_INTERNAL_SERVER_ERROR_def)
  ultimately show ?thesis
    using assms unfolding check_session_iff [of pool, OF assms(1,3), symmetric] ngx_http_auth_webauthn_access_handler_def
    by (cases "check_session ngx jwx now pool wlcf r")
      (auto simp: copy_claim_total Let_def ctx_of_def ctx_zero_def split_beta prod_eq_iff)
qed

lemma apply_headers_loop_OK:
  assumes "apply_headers_loop ngx pool cv hdrs hs = (NGX_OK, hs')"
  shows "\<exists>new. hs' = hs @ new \<and> map te_key new = map hdr_name hdrs
     \<and> (\<forall>h \<in> set new. te_lowcase_key h = Some (ngx_strlow (te_key h)) \<and> te_hash h = Some (ngx_hash_key ngx (ngx_strlow (te_key h))))"
  using assms
proof (induction ngx pool cv hdrs hs rule: apply_headers_loop.induct)
  case (2 ngx pool cv hdr hdrs hs)
  from 2(2) obtain v where v: "cv hs (hdr_value hdr) = Some v" "pool ''h'' 56" "pool ''h->lowcase_key'' (length (hdr_name hdr))"
    by (auto simp: Let_def split: option.splits if_splits)
  with 2(2) have "apply_headers_loop ngx pool cv hdrs
      (hs @ [\<lparr> te_key = hdr_name hdr, te_value = v, te_lowcase_key = Some (ngx_strlow (hdr_name hdr)),
               te_hash = Some (ngx_hash_key ngx (ngx_strlow (hdr_name hdr))) \<rparr>]) = (NGX_OK, hs')" by (simp add: Let_def)
  from 2(1) [OF v(1) _ refl _ refl refl] v(2,3) this obtain new where
    "hs' = (hs @ [\<lparr> te_key = hdr_name hdr, te_value = v, te_lowcase_key = Some (ngx_strlow (hdr_name hdr)),
       te_hash = Some (ngx_hash_key ngx (ngx_strlow (hdr_name hdr))) \<rparr>]) @ new" "map te_key new = map hdr_name hdrs"
    "\<forall>h \<in> set new. te_lowcase_key h = Some (ngx_strlow (te_key h)) \<and> te_hash h = Some (ngx_hash_key ngx (ngx_strlow (te_key h)))"
    by auto
  then show ?case by (intro exI [of _ "_ # new"]) auto
qed simp

lemma strlow_lower: "c \<in> set (ngx_strlow s) \<Longrightarrow> \<not> (65 \<le> (of_char c :: nat) \<and> (of_char c :: nat) \<le> 90)"
proof -
  have all: "\<forall>n \<in> set [65 ..< 91]. 90 < unat (of_nat n OR 0x20 :: 8 word)" by code_simp
  have up: "90 < unat (byte c OR 0x20)" if "65 \<le> (of_char c :: nat)" "(of_char c :: nat) \<le> 90" for c
  proof -
    have "(of_char c :: nat) \<in> set [65 ..< 91]" unfolding set_upt atLeastLessThan_iff using that by linarith
    then show ?thesis unfolding byte_def by (rule bspec [OF all])
  qed
  have "\<not> (65 \<le> (of_char (ngx_tolower c) :: nat) \<and> (of_char (ngx_tolower c) :: nat) \<le> 90)" for c
    using up [of c] unat_byte [of "of_byte (byte c OR 0x20)", unfolded byte_of_byte] by (auto simp: ngx_tolower_def word_le_nat_alt split: if_splits)
  then show "c \<in> set (ngx_strlow s) \<Longrightarrow> \<not> (65 \<le> (of_char c :: nat) \<and> (of_char c :: nat) \<le> 90)"
    by (auto simp: ngx_strlow_def)
qed

lemma add_variables_OK:
  "distinct (map fst vs) \<Longrightarrow> add_variables ok vs vars = (rc, vars') \<Longrightarrow>
   rc \<noteq> NGX_DECLINED \<and> (rc = NGX_OK \<longrightarrow> vars' = vars ++ map_of vs \<and> (\<forall>v \<in> set vs. ok (fst v)))"
proof (induction vs arbitrary: vars)
  case (Cons v vs)
  obtain a b where v: "v = (a, b)" by fastforce
  with Cons.prems(1) have "map_of vs a = None" by (auto simp: map_of_eq_None_iff)
  then have "vars(a \<mapsto> b) ++ map_of vs = vars ++ map_of (v # vs)" by (auto simp: v fun_eq_iff map_add_def split: option.splits)
  with Cons v show ?case by (auto split: if_splits simp del: map_of.simps)
qed auto

section \<open>Properties\<close>

text \<open>C6: the gate opens exactly for a session. With memory available, \<open>ngx_http_auth_webauthn_access_handler\<close> of a
  location with the gate on returns \<open>NGX_OK\<close> exactly when the request's cookie holds a token that decodes,
  verifies under the location's key set, has this RP id as audience, this module as issuer and an
  expiry in the future, and the configured headers could be set; the context then says
  \<open>authenticated\<close> with the token's user, credential and expiry.\<close>

theorem gate_correct:
  assumes "\<And>site n. pool site n" and "lc_auth wlcf" and "lc_jwt_secret wlcf \<noteq> []"
  shows "ngx_http_auth_webauthn_access_handler ngx jwx cv now pool wlcf r ctx0 hs out = (rc_code NGX_OK, ctx, hs', out')
    \<longleftrightarrow> out' = out \<and> (\<exists>p exp. session_ok ngx jwx wlcf r now p exp \<and> ctx = Some (ctx_of jwx p exp)
          \<and> ngx_http_auth_webauthn_apply_headers ngx pool (cv (ctx_of jwx p exp)) wlcf hs = (NGX_OK, hs'))"
  using access_eq [of pool, OF assms, of ngx jwx cv now r ctx0 hs out "rc_code NGX_OK" ctx hs' out'] by simp

text \<open>A token library that knows one token.\<close>

definition gate_jwx :: "(unit, bytes, unit) nxe_jwx" where
  "gate_jwx = \<lparr> nxe_jwx_encode = (\<lambda>_ _ _ _. Some ''T''), nxe_jwx_decode = (\<lambda>t. if t = ''T'' then Some () else None),
     nxe_jwx_jwks_parse = Some, nxe_jwx_jwks_parse_keyval = Some, nxe_jwx_jws_verify = (\<lambda>_ _. NGX_OK),
     nxe_jwx_token_payload = Some,
     nxe_jwx_claims_get_string = (\<lambda>_. map_of [(''aud'', ''rp''), (''iss'', ''nginx-webauthn''), (''sub'', ''u''), (''cid'', ''id'')]),
     nxe_jwx_claims_get_integer = (\<lambda>_. map_of [(''exp'', 3700)]) \<rparr>"

lemma ex_session: "session_ok ex_ngx gate_jwx ex_conf ex_req 100 () 3700"
proof -
  have "(100 :: time_t) <s 3700" by code_simp
  then show ?thesis
    by (simp add: session_ok_def gate_jwx_def ex_conf_def ex_req_def ex_ngx_def jwks_of_def)
qed

theorem gate_correct_witness:
  "\<exists>ctx hs' out'. ngx_http_auth_webauthn_access_handler ex_ngx gate_jwx (\<lambda>_ _ v. Some v) 100 ex_pool ex_conf ex_req None []
     http_out_fresh = (rc_code NGX_OK, ctx, hs', out') \<and> map te_key hs' = [''X-User'']"
proof -
  define h where "h = \<lparr> te_key = ''X-User'', te_value = ''u'', te_lowcase_key = Some (ngx_strlow ''X-User''),
    te_hash = Some (ngx_hash_key ex_ngx (ngx_strlow ''X-User'')) \<rparr>"
  have "ngx_http_auth_webauthn_apply_headers ex_ngx ex_pool (\<lambda>_ v. Some v) ex_conf [] = (NGX_OK, [h])"
    by (simp add: ngx_http_auth_webauthn_apply_headers_def ex_conf_def h_def Let_def)
  with gate_correct [of ex_pool ex_conf ex_ngx gate_jwx "\<lambda>_ _ v. Some v" 100 ex_req None "[]" http_out_fresh
      "Some (ctx_of gate_jwx () 3700)" "[h]" http_out_fresh] ex_session
  have "ngx_http_auth_webauthn_access_handler ex_ngx gate_jwx (\<lambda>_ _ v. Some v) 100 ex_pool ex_conf ex_req None []
     http_out_fresh = (rc_code NGX_OK, Some (ctx_of gate_jwx () 3700), [h], http_out_fresh)"
    by (auto simp: ex_conf_def)
  then show ?thesis by (simp add: h_def)
qed

text \<open>C11: the gate fails closed. With the gate on, and whatever memory or the token library do, the handler
  never declines to decide: it answers \<open>NGX_OK\<close> or one of 401, 302 and 500, and on a 401 or 302 the
  request's headers are untouched and its context names no user and no credential and does not say
  \<open>authenticated\<close>.\<close>

theorem gate_fails_closed:
  assumes "lc_auth wlcf" and "ngx_http_auth_webauthn_access_handler ngx jwx cv now pool wlcf r ctx0 hs out = (rc, ctx, hs', out')"
    and "rc \<noteq> rc_code NGX_OK"
  shows "rc \<in> {401, 302, 500}
     \<and> (rc \<noteq> 500 \<longrightarrow> hs' = hs \<and> (\<exists>c. ctx = Some c \<and> cx_auth_status c \<in> {''unauthenticated'', ''invalid'', ''expired''}
           \<and> cx_user_id c = [] \<and> cx_credential_id c = []))"
proof -
  obtain urc uout where u: "ngx_http_auth_webauthn_unauthorized pool wlcf out = (urc, uout)" by fastforce
  then have urc: "urc \<in> {401, 302, 500}" using unauthorized_rc [of pool wlcf out] by simp
  have 500: "NGX_HTTP_INTERNAL_SERVER_ERROR = 500" by (simp add: NGX_HTTP_INTERNAL_SERVER_ERROR_def)
  show ?thesis
    using assms(2,3) urc check_session_status [of ngx jwx now pool wlcf r] unfolding ngx_http_auth_webauthn_access_handler_def
    by (cases "check_session ngx jwx now pool wlcf r")
      (auto simp: u 500 assms(1) Let_def ctx_zero_def split: option.splits prod.splits if_splits)
qed

theorem gate_fails_closed_witness:
  "\<exists>rc ctx hs' out'. ngx_http_auth_webauthn_access_handler ex_ngx gate_jwx (\<lambda>_ _ v. Some v) 4000 ex_pool ex_conf ex_req None []
     http_out_fresh = (rc, ctx, hs', out') \<and> rc \<in> {401, 302, 500}"
proof -
  obtain rc ctx hs' out' where a: "ngx_http_auth_webauthn_access_handler ex_ngx gate_jwx (\<lambda>_ _ v. Some v) 4000 ex_pool ex_conf ex_req
     None [] http_out_fresh = (rc, ctx, hs', out')" by (metis surj_pair)
  have "\<not> (4000 :: time_t) <s 3700" by code_simp
  then have "\<not> session_ok ex_ngx gate_jwx ex_conf ex_req 4000 p exp" for p exp by (auto simp: session_ok_def gate_jwx_def)
  then have "rc \<noteq> rc_code NGX_OK"
    using a access_eq [of ex_pool ex_conf ex_ngx gate_jwx "\<lambda>_ _ v. Some v" 4000 ex_req None "[]" http_out_fresh rc ctx hs' out']
    by (auto simp: ex_conf_def)
  from gate_fails_closed [OF _ a this] a show ?thesis by (simp add: ex_conf_def)
qed

text \<open>C35: injected headers. When the gate opens, the headers of the upstream request are the client's, in
  their order, followed by the configured ones, each with the lower-case key and hash by which nginx
  finds it. In particular a header the client sent under the same name is neither removed nor replaced.\<close>

theorem gate_appends_headers:
  assumes "lc_auth wlcf" and "lc_set_headers wlcf = Some hdrs"
    and "ngx_http_auth_webauthn_access_handler ngx jwx cv now pool wlcf r ctx0 hs out = (rc_code NGX_OK, ctx, hs', out')"
  shows "\<exists>new. hs' = hs @ new \<and> map te_key new = map hdr_name hdrs
     \<and> (\<forall>h \<in> set new. te_lowcase_key h = Some (ngx_strlow (te_key h)) \<and> te_hash h = Some (ngx_hash_key ngx (ngx_strlow (te_key h)))
          \<and> (\<forall>c \<in> set (ngx_strlow (te_key h)). \<not> (65 \<le> (of_char c :: nat) \<and> (of_char c :: nat) \<le> 90)))"
proof -
  obtain urc uout where u: "ngx_http_auth_webauthn_unauthorized pool wlcf out = (urc, uout)" by fastforce
  then have urc: "urc \<noteq> 0" using unauthorized_rc [of pool wlcf out] by auto
  have "NGX_HTTP_INTERNAL_SERVER_ERROR \<noteq> 0" by (simp add: NGX_HTTP_INTERNAL_SERVER_ERROR_def)
  then have "\<exists>c. apply_headers_loop ngx pool (cv c) hdrs hs = (NGX_OK, hs')"
    using assms urc unfolding ngx_http_auth_webauthn_access_handler_def
    by (cases "check_session ngx jwx now pool wlcf r")
      (auto simp: u Let_def ngx_http_auth_webauthn_apply_headers_def split: option.splits prod.splits if_splits)
  with apply_headers_loop_OK strlow_lower show ?thesis by meson
qed

theorem gate_appends_headers_witness:
  "\<exists>ctx hs' out'. ngx_http_auth_webauthn_access_handler ex_ngx gate_jwx (\<lambda>_ _ v. Some v) 100 ex_pool ex_conf ex_req None
     [\<lparr> te_key = ''x-user'', te_value = ''forged'', te_lowcase_key = Some ''x-user'', te_hash = Some 6 \<rparr>] http_out_fresh
       = (rc_code NGX_OK, ctx, hs', out') \<and> map te_key hs' = [''x-user'', ''X-User'']"
proof -
  let ?hs = "[\<lparr> te_key = ''x-user'', te_value = ''forged'', te_lowcase_key = Some ''x-user'', te_hash = Some 6 \<rparr>]"
  obtain hs' where "ngx_http_auth_webauthn_apply_headers ex_ngx ex_pool (\<lambda>_ v. Some v) ex_conf ?hs = (NGX_OK, hs')"
    by (simp add: ngx_http_auth_webauthn_apply_headers_def ex_conf_def Let_def)
  with access_eq [of ex_pool ex_conf ex_ngx gate_jwx "\<lambda>_ _ v. Some v" 100 ex_req None ?hs http_out_fresh "rc_code NGX_OK"
      "Some (ctx_of gate_jwx () 3700)" hs' http_out_fresh] ex_session
  have a: "ngx_http_auth_webauthn_access_handler ex_ngx gate_jwx (\<lambda>_ _ v. Some v) 100 ex_pool ex_conf ex_req None ?hs
     http_out_fresh = (rc_code NGX_OK, Some (ctx_of gate_jwx () 3700), hs', http_out_fresh)"
    by (auto simp: ex_conf_def)
  from gate_appends_headers [OF _ _ a, of "[\<lparr> hdr_name = ''X-User'', hdr_value = ''u'' \<rparr>]"] a show ?thesis
    by (auto simp: ex_conf_def)
qed

end
