(* ===== verification/Session.thy ===== *)
theory Session
  imports Gate
begin

text \<open>
  The session as a whole: the token the verify endpoint mints is the one the gate admits. The claims text
  is read with the reference reader of theory \<open>Json\<close>; what is relied on of \<open>nxe-jwx\<close> is the predicate
  \<open>jwx_law\<close>. The sizes of all buffers the texts are printed into are here too.
\<close>

section \<open>What nxe-jwx promises\<close>

text \<open>The getters read the members of the claims text.\<close>

definition reads_claims :: "('t, 'ks, 'p) nxe_jwx \<Rightarrow> 'p \<Rightarrow> bytes \<Rightarrow> bool" where
  "reads_claims jwx p claims \<longleftrightarrow>
     (\<forall>ms. json_read claims = Some ms \<longrightarrow>
        (\<forall>k v. map_of ms k = Some (JStr v) \<longrightarrow> nxe_jwx_claims_get_string jwx p k = Some v)
        \<and> (\<forall>k i. map_of ms k = Some (JNum i) \<longrightarrow> - (2 ^ 63) \<le> i \<longrightarrow> i < 2 ^ 63 \<longrightarrow>
             nxe_jwx_claims_get_integer jwx p k = Some (word_of_int i)))"

text \<open>A token signed with \<open>secret\<close> decodes, verifies under the key set and carries its claims.\<close>

definition signs :: "('t, 'ks, 'p) nxe_jwx \<Rightarrow> bytes \<Rightarrow> bytes \<Rightarrow> 'ks \<Rightarrow> bool" where
  "signs jwx alg secret ks \<longleftrightarrow>
     (\<forall>claims t. nxe_jwx_encode jwx alg None claims secret = Some t \<longrightarrow>
        (\<exists>tok p. nxe_jwx_decode jwx t = Some tok \<and> nxe_jwx_jws_verify jwx tok ks = NGX_OK
           \<and> nxe_jwx_token_payload jwx tok = Some p \<and> reads_claims jwx p claims))"

text \<open>A JWK set with one octet key (RFC 7517) verifies what was signed with that key; a key document of
  one PEM public key verifies what was signed with its private key.\<close>

definition jwx_law :: "ngx_core \<Rightarrow> ('t, 'ks, 'p) nxe_jwx \<Rightarrow> (bytes \<Rightarrow> bytes \<Rightarrow> bool) \<Rightarrow> bool" where
  "jwx_law ngx jwx key_pair \<longleftrightarrow>
     (\<forall>alg secret. alg \<in> {''HS256'', ''HS384'', ''HS512''} \<longrightarrow>
        (\<exists>ks. nxe_jwx_jwks_parse jwx
                (''{\"keys\":[{\"kty\":\"oct\",\"k\":\"'' @ core_encode_base64url ngx secret @ ''\",\"alg\":\"'' @ alg @ ''\"}]}'') = Some ks
              \<and> signs jwx alg secret ks))
     \<and> (\<forall>alg secret pub name doc. key_pair secret pub \<longrightarrow> json_read doc = Some [(name, JStr pub)] \<longrightarrow>
        (\<exists>ks. nxe_jwx_jwks_parse_keyval jwx doc = Some ks \<and> signs jwx alg secret ks))"

text \<open>The key material of a location, as the configuration loads it.\<close>

definition key_ok :: "(bytes \<Rightarrow> bytes \<Rightarrow> bool) \<Rightarrow> 'v loc_conf \<Rightarrow> bool" where
  "key_ok key_pair wlcf \<longleftrightarrow>
     (if lc_jwt_alg_family wlcf = NGX_AUTH_WEBAUTHN_JWT_HMAC then lc_jwt_alg wlcf \<in> {''HS256'', ''HS384'', ''HS512''}
      else key_pair (lc_jwt_secret wlcf) (lc_jwt_pub_pem wlcf))"

section \<open>Lemmas\<close>

lemma claims_json_object:
  "claims_json aud sub cid iat exp jti =
     json_object [(''iss'', JStr ''nginx-webauthn''), (''aud'', JStr aud), (''sub'', JStr sub), (''cid'', JStr cid),
       (''iat'', JNum (sint iat)), (''exp'', JNum (sint exp)), (''jti'', JStr jti)]"
  by (simp add: claims_json_def json_object_def print_value_def)

lemma plain_literals [simp]: "plain ''iss''" "plain ''aud''" "plain ''sub''" "plain ''cid''" "plain ''iat''" "plain ''exp''"
  "plain ''jti''" "plain ''nginx-webauthn''" "plain ''webauthn''" "plain ''ok''" "plain ''user_id''"
  by (rule plainI; fastforce)+

lemma json_read_claims:
  assumes "plain aud" and "plain cid" and "plain jti"
  shows "json_read (claims_json aud (escape_loop uid) cid iat exp jti) =
     Some [(''iss'', JStr ''nginx-webauthn''), (''aud'', JStr aud), (''sub'', JStr uid), (''cid'', JStr cid),
       (''iat'', JNum (sint iat)), (''exp'', JNum (sint exp)), (''jti'', JStr jti)]"
  unfolding claims_json_object by (rule json_read_object) (use assms in \<open>simp_all add: read_back_def\<close>)

lemma jwks_pem_read: "json_read (jwks_pem (escape_loop pem)) = Some [(''webauthn'', JStr pem)]"
proof -
  have "jwks_pem (escape_loop pem) = json_object [(''webauthn'', JStr (escape_loop pem))]"
    by (simp add: jwks_pem_def json_object_def print_value_def)
  then show ?thesis by (simp add: json_read_object read_back_def)
qed

lemma sint64_bounds: "- (2 ^ 63) \<le> sint (w :: 64 word)" "sint (w :: 64 word) < 2 ^ 63"
  using sint_ge [of w] sint_lt [of w] by simp_all

text \<open>The location's key set verifies the location's tokens.\<close>

lemma key_set_signs:
  assumes "jwx_law ngx jwx key_pair" and "key_ok key_pair wlcf"
  obtains ks where "jwks_of ngx jwx wlcf = Some ks" "signs jwx (lc_jwt_alg wlcf) (lc_jwt_secret wlcf) ks"
proof (cases "lc_jwt_alg_family wlcf = NGX_AUTH_WEBAUTHN_JWT_HMAC")
  case True
  with assms have "\<exists>ks. nxe_jwx_jwks_parse jwx (jwks_hmac (core_encode_base64url ngx (lc_jwt_secret wlcf)) (lc_jwt_alg wlcf)) = Some ks
      \<and> signs jwx (lc_jwt_alg wlcf) (lc_jwt_secret wlcf) ks"
    unfolding jwx_law_def jwks_hmac_def by (elim conjE allE [of _ "lc_jwt_alg wlcf"] allE [of _ "lc_jwt_secret wlcf"])
      (simp add: key_ok_def)
  with True that show thesis by (auto simp: jwks_of_def)
next
  case False
  with assms have "key_pair (lc_jwt_secret wlcf) (lc_jwt_pub_pem wlcf)" by (simp add: key_ok_def)
  from assms(1) [unfolded jwx_law_def, THEN conjunct2, rule_format, OF this jwks_pem_read]
  have "\<exists>ks. nxe_jwx_jwks_parse_keyval jwx (jwks_pem (escape_loop (lc_jwt_pub_pem wlcf))) = Some ks
      \<and> signs jwx (lc_jwt_alg wlcf) (lc_jwt_secret wlcf) ks" .
  with False that show thesis by (auto simp: jwks_of_def)
qed

text \<open>The payload of a session token.\<close>

definition session_payload :: "('t, 'ks, 'p) nxe_jwx \<Rightarrow> 'p \<Rightarrow> bytes \<Rightarrow> bytes \<Rightarrow> bytes \<Rightarrow> time_t \<Rightarrow> bool" where
  "session_payload jwx p aud sub cid exp \<longleftrightarrow>
     nxe_jwx_claims_get_string jwx p ''iss'' = Some ''nginx-webauthn'' \<and> nxe_jwx_claims_get_string jwx p ''aud'' = Some aud
     \<and> nxe_jwx_claims_get_string jwx p ''sub'' = Some sub \<and> nxe_jwx_claims_get_string jwx p ''cid'' = Some cid
     \<and> nxe_jwx_claims_get_integer jwx p ''exp'' = Some exp"

lemma session_token_payload:
  assumes "signs jwx (lc_jwt_alg wlcf) (lc_jwt_secret wlcf) ks"
    and "session_token ngx jwx wlcf j now user_id cid = Some t"
    and "plain (lc_rp_id wlcf)" and "plain cid" and "plain (core_encode_base64url ngx j)"
  obtains tok p where "nxe_jwx_decode jwx t = Some tok" "nxe_jwx_jws_verify jwx tok ks = NGX_OK"
    "nxe_jwx_token_payload jwx tok = Some p" "session_payload jwx p (lc_rp_id wlcf) user_id cid (now + lc_jwt_ttl wlcf)"
proof -
  from assms(1,2) obtain tok p where t: "nxe_jwx_decode jwx t = Some tok" "nxe_jwx_jws_verify jwx tok ks = NGX_OK"
    "nxe_jwx_token_payload jwx tok = Some p"
    "reads_claims jwx p (claims_json (lc_rp_id wlcf) (escape_loop user_id) cid now (now + lc_jwt_ttl wlcf) (core_encode_base64url ngx j))"
    unfolding signs_def session_token_def by blast
  from t(4) have "session_payload jwx p (lc_rp_id wlcf) user_id cid (now + lc_jwt_ttl wlcf)"
    unfolding reads_claims_def json_read_claims [OF assms(3-5)] session_payload_def
    using sint64_bounds [of "now + lc_jwt_ttl wlcf"] by simp
  with t that show thesis by blast
qed

text \<open>What a gate decides on a request that carries a session token of some location.\<close>

lemma check_session_payload:
  assumes "\<And>site n. pool site n" and "lc_jwt_secret wlcf \<noteq> []"
    and "rq_cookie r = Some cookies" and "ngx_http_parse_cookie ngx cookies (lc_cookie_name wlcf) = Some t"
    and "nxe_jwx_decode jwx t = Some tok" and "jwks_of ngx jwx wlcf = Some ks" and "nxe_jwx_jws_verify jwx tok ks = NGX_OK"
    and "nxe_jwx_token_payload jwx tok = Some p" and "session_payload jwx p aud sub cid exp"
  shows "check_session ngx jwx now pool wlcf r =
     (if aud \<noteq> lc_rp_id wlcf then Refuse ''invalid''
      else if exp \<le>s now then Refuse ''expired'' else Session p exp)"
  using assms unfolding check_session_def memcmp_differs iss_differs claim_test session_payload_def
  by (simp add: build_jwks_total)

lemma apply_headers_total:
  assumes "\<And>site n. pool site n" and "\<And>h v. cv h v \<noteq> None"
  shows "fst (ngx_http_auth_webauthn_apply_headers ngx pool cv wlcf hs) = NGX_OK"
proof -
  have "fst (apply_headers_loop ngx pool cv hdrs hs) = NGX_OK" for hdrs hs
    by (induction hdrs arbitrary: hs) (use assms in \<open>auto simp: Let_def split: option.splits\<close>)
  then show ?thesis by (simp add: ngx_http_auth_webauthn_apply_headers_def split: option.splits)
qed

text \<open>The gate on a token the location minted.\<close>

lemma gate_on_session:
  assumes "jwx_law ngx jwx key_pair" and "key_ok key_pair wlcf"
    and "session_token ngx jwx wlcf j now user_id cid = Some t"
    and "plain (lc_rp_id wlcf)" and "plain cid" and "\<And>x. set (core_encode_base64url ngx x) \<subseteq> set basis"
    and "\<And>site n. pool site n" and "lc_auth wlcf" and "lc_jwt_secret wlcf \<noteq> []" and "\<And>c h v. cv c h v \<noteq> None"
    and "rq_cookie r = Some cookies" and "ngx_http_parse_cookie ngx cookies (lc_cookie_name wlcf) = Some t"
    and "ngx_http_auth_webauthn_access_handler ngx jwx cv now' pool wlcf r ctx0 hs out = (rc, ctx, hs', out')"
  shows "if now' <s now + lc_jwt_ttl wlcf
     then rc = rc_code NGX_OK
       \<and> ctx = Some \<lparr> cx_user_id = user_id, cx_credential_id = cid, cx_auth_status = ''authenticated'',
                      cx_jwt_exp = now + lc_jwt_ttl wlcf, cx_has_exp = True \<rparr>
     else rc \<noteq> rc_code NGX_OK \<and> map_option cx_auth_status ctx = Some ''expired''"
proof -
  have pool: "\<And>site n. pool site n" by (rule assms(7))
  obtain ks where ks: "jwks_of ngx jwx wlcf = Some ks" "signs jwx (lc_jwt_alg wlcf) (lc_jwt_secret wlcf) ks"
    by (rule key_set_signs [OF assms(1,2)])
  obtain tok p where t: "nxe_jwx_decode jwx t = Some tok" "nxe_jwx_jws_verify jwx tok ks = NGX_OK"
    "nxe_jwx_token_payload jwx tok = Some p" and p: "session_payload jwx p (lc_rp_id wlcf) user_id cid (now + lc_jwt_ttl wlcf)"
    by (rule session_token_payload [OF ks(2) assms(3-5)]) (simp add: plain_basis assms(6))
  note check = check_session_payload [of pool, OF pool assms(9,11,12) t(1) ks(1) t(2,3) p]
  have sl: "e \<le>s now' \<longleftrightarrow> \<not> now' <s e" for e :: time_t by (auto simp: word_sless_alt word_sle_eq)
  have urc: "fst (ngx_http_auth_webauthn_unauthorized pool wlcf out) \<noteq> 0" using unauthorized_rc [of pool wlcf out] by auto
  have hd: "fst (ngx_http_auth_webauthn_apply_headers ngx pool (cv c) wlcf hs) = NGX_OK" for c
    by (rule apply_headers_total [of pool, OF pool]) (rule assms(10))
  from assms(13) p show ?thesis
    unfolding ngx_http_auth_webauthn_access_handler_def check session_payload_def using assms(8) pool urc hd sl
    by (auto simp: Let_def split_beta copy_claim_total claim_text_def ctx_zero_def)
qed

section \<open>Properties\<close>

text \<open>C5: a session survives the round trip. If the verify endpoint sets a cookie, then the request was a valid
  login of some user and credential, and a gate of the same location that gets the cookie back admits
  the client, as exactly that user and credential and with exactly the minted expiry, at every time
  before the expiry, and answers \<open>expired\<close> at every time from it on. This rests on the laws of the token
  library, on base64url for the random identifier, and on RP id and stored credential ids being plain
  JSON text (they are printed unescaped); the user id is arbitrary.\<close>

theorem session_roundtrip:
  assumes "redis_server hi dbs sel clock"
    and "ngx_http_auth_webauthn_verify_done hi ossl js ngx jwx jti now pool wlcf r http_out_fresh s = (out, s')"
    and "ho_headers out \<noteq> []" and "prefix = lc_redis_key_prefix wlcf" and "n = lc_redis_db wlcf" and "cred_inv prefix (dbs s n)"
    and "\<And>cid cred. cred_abs prefix (dbs s n) cid = Some cred \<Longrightarrow> plain cid"
    and "plain (lc_rp_id wlcf)" and "\<And>x. set (core_encode_base64url ngx x) \<subseteq> set basis"
    and "jwx_law ngx jwx key_pair" and "key_ok key_pair wlcf" and "lc_jwt_secret wlcf \<noteq> []"
    and "\<And>site n. pool' site n" and "lc_auth wlcf" and "\<And>c h v. cv c h v \<noteq> None"
    and "rq_cookie r' = Some cookies"
    and "\<And>t. ho_headers out = [(''Set-Cookie'', cookie_text wlcf t)] \<Longrightarrow>
           ngx_http_parse_cookie ngx cookies (lc_cookie_name wlcf) = Some t"
    and "ngx_http_auth_webauthn_access_handler ngx jwx cv now' pool' wlcf r' ctx0 hs out1 = (rc, ctx, hs', out')"
  shows "\<exists>cid chal cred cnt. valid_login ossl js ngx pool wlcf r (cred_abs prefix (dbs s n)) cid chal cred cnt
     \<and> (if now' <s now + lc_jwt_ttl wlcf
        then rc = rc_code NGX_OK
          \<and> ctx = Some \<lparr> cx_user_id = cred_user_id cred, cx_credential_id = cid, cx_auth_status = ''authenticated'',
                         cx_jwt_exp = now + lc_jwt_ttl wlcf, cx_has_exp = True \<rparr>
        else rc \<noteq> rc_code NGX_OK \<and> map_option cx_auth_status ctx = Some ''expired'')"
proof -
  have "ho_headers out \<noteq> ho_headers http_out_fresh" using assms(3) by (simp add: http_out_fresh_def)
  then show ?thesis
  proof (rule redis_server.verify_done_login [OF assms(1,2) _ assms(6,4,5), of True])
    fix cid chal cred cnt j jwt
    assume v: "valid_login ossl js ngx pool wlcf r (cred_abs prefix (dbs s n)) cid chal cred cnt"
      and t: "session_token ngx jwx wlcf j now (cred_user_id cred) cid = Some jwt"
      and "ho_headers out = ho_headers http_out_fresh @ [(''Set-Cookie'', cookie_text wlcf jwt)]"
    then have "ngx_http_parse_cookie ngx cookies (lc_cookie_name wlcf) = Some jwt" using assms(17) by (simp add: http_out_fresh_def)
    moreover have "plain cid" using v assms(7) by (auto simp: valid_login_def)
    moreover have "\<And>x. set (core_encode_base64url ngx x) \<subseteq> set basis" by (rule assms(9))
    ultimately have "if now' <s now + lc_jwt_ttl wlcf
        then rc = rc_code NGX_OK
          \<and> ctx = Some \<lparr> cx_user_id = cred_user_id cred, cx_credential_id = cid, cx_auth_status = ''authenticated'',
                         cx_jwt_exp = now + lc_jwt_ttl wlcf, cx_has_exp = True \<rparr>
        else rc \<noteq> rc_code NGX_OK \<and> map_option cx_auth_status ctx = Some ''expired''"
      by (intro gate_on_session [where pool = pool', OF assms(10,11) t assms(8) _ _ _ assms(14,12) _ assms(16) _ assms(18)])
        (rule assms(13,15) | assumption)+
    with v show ?thesis by blast
  qed simp
qed

text \<open>A token library for HMAC whose token is the claims text and whose key set is the key document.\<close>

definition toy_jwx :: "(bytes, bytes, bytes) nxe_jwx" where
  "toy_jwx = \<lparr> nxe_jwx_encode = (\<lambda>alg kid claims secret. if alg = ''HS256'' \<and> secret = ''secret'' then Some claims else None),
     nxe_jwx_decode = Some, nxe_jwx_jwks_parse = Some, nxe_jwx_jwks_parse_keyval = Some,
     nxe_jwx_jws_verify = (\<lambda>tok ks. if ks = jwks_hmac (ngx_encode_base64url ''secret'') ''HS256'' then NGX_OK else NGX_DECLINED),
     nxe_jwx_token_payload = Some,
     nxe_jwx_claims_get_string = (\<lambda>p k. case map_of (the (json_read p)) k of Some (JStr v) \<Rightarrow> Some v | _ \<Rightarrow> None),
     nxe_jwx_claims_get_integer = (\<lambda>p k. case map_of (the (json_read p)) k of Some (JNum i) \<Rightarrow> Some (word_of_int i) | _ \<Rightarrow> None) \<rparr>"

definition toy_ngx :: ngx_core where
  "toy_ngx = ex_ngx\<lparr> ngx_http_parse_cookie := (\<lambda>cs name. Some (drop 3 (hd cs))) \<rparr>"

lemma toy_law: "jwx_law toy_ngx toy_jwx (\<lambda>_ _. False)"
  by (auto simp: jwx_law_def signs_def reads_claims_def toy_jwx_def toy_ngx_def ex_ngx_def jwks_hmac_def
      simp del: ngx_encode_base64url.simps)

lemma toy_valid_login:
  "valid_login ex_ossl (ex_js ex_docs) toy_ngx ex_pool ex_conf ex_req (cred_abs ''w:'' (mem_dbs ex_login_store 0)) ''id''
     ex_challenge ex_rec 9"
proof -
  have d: "core_decode_base64url toy_ngx = core_decode_base64url ex_ngx" by (simp add: toy_ngx_def)
  have "verify_parse toy_ngx (ex_js ex_docs) ex_pool body = verify_parse ex_ngx (ex_js ex_docs) ex_pool body" for body
    unfolding verify_parse_def ngx_http_auth_webauthn_b64url_field_def d ..
  with ex_valid_login d show ?thesis by (simp add: valid_login_def)
qed

definition toy_token :: bytes where
  "toy_token = claims_json ''rp'' (escape_loop (cred_user_id ex_rec)) ''id'' 100 3700 (ngx_encode_base64url ''j'')"

lemma toy_session: "session_token toy_ngx toy_jwx ex_conf ''j'' 100 (cred_user_id ex_rec) ''id'' = Some toy_token"
  by (simp add: session_token_def toy_jwx_def toy_ngx_def ex_ngx_def ex_conf_def toy_token_def del: ngx_encode_base64url.simps)

lemma toy_login:
  "\<exists>out s'. ngx_http_auth_webauthn_verify_done mem_hi ex_ossl (ex_js ex_docs) toy_ngx toy_jwx (Some ''j'') 100 ex_pool ex_conf ex_req
     http_out_fresh ex_login_store = (out, s') \<and> ho_headers out = [(''Set-Cookie'', cookie_text ex_conf toy_token)]"
proof -
  obtain out s' where e: "ngx_http_auth_webauthn_verify_done mem_hi ex_ossl (ex_js ex_docs) toy_ngx toy_jwx (Some ''j'') 100 ex_pool
     ex_conf ex_req http_out_fresh ex_login_store = (out, s')" by fastforce
  have "mem_clock s' \<le> mem_clock ex_login_store + 3"
    using ex_clock [where s = ex_login_store and r = ex_req and pool = ex_pool and out = http_out_fresh and ossl = ex_ossl
        and js = "ex_js ex_docs" and ngx = toy_ngx and jwx = toy_jwx and jti = "Some ''j''" and now = 100] unfolding e by simp
  then have clk: "mem_clock s' < 60000" by (simp add: ex_login_store_def mem_empty_def)
  have "out = verify_mint toy_ngx toy_jwx (Some ''j'') ex_pool ex_conf ex_req 100 (cred_user_id ex_rec) ''id'' http_out_fresh"
    by (rule mem_reliable.verify_done_complete [OF e _ _ _ _ _ _ _ toy_valid_login ex_login_inv ex_challenge_len _ clk])
      (simp_all add: ex_conf_def ex_login_store_def)
  with mint_total(1) [OF _ toy_session, of ex_pool ex_req http_out_fresh] e show ?thesis by (simp add: http_out_fresh_def)
qed

lemma ex_stored_ids: "cred_abs ''w:'' (mem_dbs ex_login_store 0) cid = Some cred \<Longrightarrow> cid = ''id''"
  by (auto simp: cred_abs_def ex_login_store_def ex_db_def cred_key_def index_key_def split: if_splits)

lemma toy_encode_basis: "set (core_encode_base64url toy_ngx x) \<subseteq> set basis"
  using encode_alphabet [of x] by (simp add: toy_ngx_def ex_ngx_def)

theorem session_roundtrip_witness:
  "\<exists>rc ctx hs' out'. ngx_http_auth_webauthn_access_handler toy_ngx toy_jwx (\<lambda>_ _ v. Some v) 200 ex_pool ex_conf
     (ex_req\<lparr> rq_cookie := Some [''wa='' @ toy_token] \<rparr>) None [] http_out_fresh = (rc, ctx, hs', out')
     \<and> rc = rc_code NGX_OK \<and> map_option cx_jwt_exp ctx = Some 3700"
proof -
  obtain out s' where e: "ngx_http_auth_webauthn_verify_done mem_hi ex_ossl (ex_js ex_docs) toy_ngx toy_jwx (Some ''j'') 100 ex_pool
     ex_conf ex_req http_out_fresh ex_login_store = (out, s')" and h: "ho_headers out = [(''Set-Cookie'', cookie_text ex_conf toy_token)]"
    using toy_login by blast
  obtain rc ctx hs' out' where a: "ngx_http_auth_webauthn_access_handler toy_ngx toy_jwx (\<lambda>_ _ v. Some v) 200 ex_pool ex_conf
     (ex_req\<lparr> rq_cookie := Some [''wa='' @ toy_token] \<rparr>) None [] http_out_fresh = (rc, ctx, hs', out')" by (metis surj_pair)
  have "(200 :: time_t) <s 100 + lc_jwt_ttl ex_conf" by code_simp
  moreover have "\<exists>cid chal cred cnt. valid_login ex_ossl (ex_js ex_docs) toy_ngx ex_pool ex_conf ex_req
       (cred_abs ''w:'' (mem_dbs ex_login_store 0)) cid chal cred cnt
     \<and> (if 200 <s 100 + lc_jwt_ttl ex_conf
        then rc = rc_code NGX_OK
          \<and> ctx = Some \<lparr> cx_user_id = cred_user_id cred, cx_credential_id = cid, cx_auth_status = ''authenticated'',
                         cx_jwt_exp = 100 + lc_jwt_ttl ex_conf, cx_has_exp = True \<rparr>
        else rc \<noteq> rc_code NGX_OK \<and> map_option cx_auth_status ctx = Some ''expired'')"
  proof (rule session_roundtrip [OF mem.redis_server_axioms e _ _ _ ex_login_inv _ _ toy_encode_basis toy_law _ _ _ _ _ _ _ a])
    show "plain (lc_rp_id ex_conf)" by (rule plainI) (auto simp: ex_conf_def)
    show "plain cid" if "cred_abs ''w:'' (mem_dbs ex_login_store 0) cid = Some cred" for cid cred
      unfolding ex_stored_ids [OF that] by (rule plainI) auto
    show "ngx_http_parse_cookie toy_ngx [''wa='' @ toy_token] (lc_cookie_name ex_conf) = Some t"
      if "ho_headers out = [(''Set-Cookie'', cookie_text ex_conf t)]" for t
      using that h by (simp add: toy_ngx_def cookie_text_def)
  qed (simp_all add: h ex_conf_def key_ok_def)
  ultimately show ?thesis using a by (auto simp: ex_conf_def)
qed

text \<open>C12: a session is bound to its relying party. A gate of a location that shares the signing key but has
  another RP id refuses the token as \<open>invalid\<close>, names no user and sets no header, however fresh the
  token is.\<close>

theorem session_bound_to_rp:
  assumes "jwx_law ngx jwx key_pair" and "key_ok key_pair wlcf"
    and "session_token ngx jwx wlcf j now user_id cid = Some t"
    and "plain (lc_rp_id wlcf)" and "plain cid" and "plain (core_encode_base64url ngx j)"
    and "jwks_of ngx jwx other = jwks_of ngx jwx wlcf" and "lc_jwt_secret other \<noteq> []" and "lc_auth other"
    and "lc_rp_id other \<noteq> lc_rp_id wlcf" and "\<And>site n. pool site n"
    and "rq_cookie r = Some cookies" and "ngx_http_parse_cookie ngx cookies (lc_cookie_name other) = Some t"
    and "ngx_http_auth_webauthn_access_handler ngx jwx cv now' pool other r ctx0 hs out = (rc, ctx, hs', out')"
  shows "rc \<noteq> rc_code NGX_OK \<and> hs' = hs \<and> ctx = Some (ctx_zero\<lparr> cx_auth_status := ''invalid'' \<rparr>)"
proof -
  have pool: "\<And>site n. pool site n" by (rule assms(11))
  obtain ks where ks: "jwks_of ngx jwx wlcf = Some ks" "signs jwx (lc_jwt_alg wlcf) (lc_jwt_secret wlcf) ks"
    by (rule key_set_signs [OF assms(1,2)])
  obtain tok p where t: "nxe_jwx_decode jwx t = Some tok" "nxe_jwx_jws_verify jwx tok ks = NGX_OK"
    "nxe_jwx_token_payload jwx tok = Some p" and p: "session_payload jwx p (lc_rp_id wlcf) user_id cid (now + lc_jwt_ttl wlcf)"
    by (rule session_token_payload [OF ks(2) assms(3-6)])
  note check = check_session_payload [of pool, OF pool assms(8,12,13) t(1) ks(1) [folded assms(7)] t(2,3) p]
  have "fst (ngx_http_auth_webauthn_unauthorized pool other out) \<noteq> 0" using unauthorized_rc [of pool other out] by auto
  with assms(9,10,14) pool show ?thesis
    unfolding ngx_http_auth_webauthn_access_handler_def check by (auto simp: Let_def split_beta ctx_zero_def)
qed

theorem session_bound_to_rp_witness:
  "\<exists>rc ctx hs' out'. ngx_http_auth_webauthn_access_handler toy_ngx toy_jwx (\<lambda>_ _ v. Some v) 200 ex_pool
     (ex_conf\<lparr> lc_rp_id := ''other'' \<rparr>) (ex_req\<lparr> rq_cookie := Some [''wa='' @ toy_token] \<rparr>) None [] http_out_fresh
     = (rc, ctx, hs', out') \<and> rc \<noteq> rc_code NGX_OK \<and> hs' = []"
proof -
  obtain rc ctx hs' out' where a: "ngx_http_auth_webauthn_access_handler toy_ngx toy_jwx (\<lambda>_ _ v. Some v) 200 ex_pool
     (ex_conf\<lparr> lc_rp_id := ''other'' \<rparr>) (ex_req\<lparr> rq_cookie := Some [''wa='' @ toy_token] \<rparr>) None [] http_out_fresh
     = (rc, ctx, hs', out')" by (metis surj_pair)
  have "plain ''rp''" "plain ''id''" by (rule plainI; auto)+
  moreover have "plain (core_encode_base64url toy_ngx ''j'')" by (rule plain_basis) (rule toy_encode_basis)
  moreover have "ngx_http_parse_cookie toy_ngx [''wa='' @ toy_token] name = Some toy_token" for name by (simp add: toy_ngx_def)
  ultimately have "rc \<noteq> rc_code NGX_OK \<and> hs' = [] \<and> ctx = Some (ctx_zero\<lparr> cx_auth_status := ''invalid'' \<rparr>)"
    by (intro session_bound_to_rp [OF toy_law _ toy_session _ _ _ _ _ _ _ _ _ _ a])
      (simp_all add: ex_conf_def key_ok_def jwks_of_def)
  with a show ?thesis by simp
qed

text \<open>The claims text. For every user id, the text signed into a session token reads back as exactly the
  seven claims with the intended values: a user id cannot add, hide or change a claim.\<close>

theorem claims_exact:
  assumes "plain aud" and "plain cid" and "plain jti" and "ngx_http_auth_webauthn_json_escape pool user_id = Some sub"
  shows "json_read (claims_json aud sub cid iat exp jti) =
     Some [(''iss'', JStr ''nginx-webauthn''), (''aud'', JStr aud), (''sub'', JStr user_id), (''cid'', JStr cid),
       (''iat'', JNum (sint iat)), (''exp'', JNum (sint exp)), (''jti'', JStr jti)]"
  using json_read_claims [OF assms(1-3)] json_escape_Some [OF assms(4)] by simp

theorem claims_exact_witness:
  "\<exists>sub. ngx_http_auth_webauthn_json_escape ex_pool ''\",\"sub\":\"root'' = Some sub
     \<and> map_of (the (json_read (claims_json ''rp'' sub ''id'' 1 2 ''j''))) ''sub'' = Some (JStr ''\",\"sub\":\"root'')"
proof -
  have p: "plain ''rp''" "plain ''id''" "plain ''j''" by (rule plainI; auto)+
  obtain sub where "ngx_http_auth_webauthn_json_escape ex_pool ''\",\"sub\":\"root'' = Some sub"
    by (simp add: ngx_http_auth_webauthn_json_escape_def)
  with claims_exact [OF p this] show ?thesis by auto
qed


end
