(* ===== verification/Directives.thy ===== *)
theory Directives
  imports Session
begin

text \<open>
  The directive table and the module descriptor of \<open>src/ngx_http_auth_webauthn_module.c\<close>, and the configurations they
  let an administrator write. nginx core (its slot setters, the check of a directive's number of arguments) is the
  record \<open>conf_core\<close>; what is relied on of it is \<open>core_law\<close>. A block of the configuration file is a sequence of
  directives the table accepts, and nested blocks are merged as the descriptor says.
\<close>

section \<open>nginx core\<close>

text \<open>The \<open>type\<close> word of a command: the blocks it may stand in and the arguments it takes.\<close>

datatype conf_block = NGX_HTTP_MAIN_CONF | NGX_HTTP_SRV_CONF | NGX_HTTP_LOC_CONF

datatype conf_args = NGX_CONF_TAKE1 | NGX_CONF_TAKE2 | NGX_CONF_TAKE12 | NGX_CONF_1MORE | NGX_CONF_FLAG

text \<open>A slot setter takes the argument and the field's old value. The enumeration setter takes the table (without its
  terminating null entry) first.\<close>

record ('fd, 'pk, 'v) conf_core =
  core_env :: "('fd, 'pk) conf_env"
  ngx_conf_set_str_slot :: "bytes \<Rightarrow> bytes option \<Rightarrow> conf_rv \<times> bytes option"
  ngx_conf_set_sec_slot :: "bytes \<Rightarrow> time_t option \<Rightarrow> conf_rv \<times> time_t option"
  ngx_conf_set_num_slot :: "bytes \<Rightarrow> nat option \<Rightarrow> conf_rv \<times> nat option"
  ngx_conf_set_msec_slot :: "bytes \<Rightarrow> nat option \<Rightarrow> conf_rv \<times> nat option"
  ngx_conf_set_enum_slot :: "(bytes \<times> nat) list \<Rightarrow> bytes \<Rightarrow> nat option \<Rightarrow> conf_rv \<times> nat option"
  ngx_http_compile_complex_value :: "bytes \<Rightarrow> 'v option"
  ngx_conf_args_ok :: "conf_args \<Rightarrow> nat \<Rightarrow> bool"

text \<open>A slot setter accepts a field once, and stores what its argument says.\<close>

definition slot_law :: "('a \<Rightarrow> 'b option \<Rightarrow> conf_rv \<times> 'b option) \<Rightarrow> ('a \<Rightarrow> 'b \<Rightarrow> bool) \<Rightarrow> bool" where
  "slot_law slot means \<longleftrightarrow> (\<forall>v old new. slot v old = (NGX_CONF_OK, new) \<longrightarrow> old = None \<and> (\<exists>x. new = Some x \<and> means v x))"

definition flag_means :: "bytes \<Rightarrow> bool \<Rightarrow> bool" where
  "flag_means v b \<longleftrightarrow> ngx_strlow v = (if b then ''on'' else ''off'')"

definition enum_means :: "(bytes \<times> nat) list \<Rightarrow> bytes \<Rightarrow> nat \<Rightarrow> bool" where
  "enum_means e v x \<longleftrightarrow> (\<exists>name. (name, x) \<in> set e \<and> ngx_strlow name = ngx_strlow v)"

definition core_law :: "('fd, 'pk, 'v) conf_core \<Rightarrow> bool" where
  "core_law core \<longleftrightarrow>
     slot_law (ngx_conf_set_str_slot core) (=)
     \<and> slot_law (ngx_conf_set_sec_slot core) (\<lambda>v t. 0 \<le>s t)
     \<and> slot_law (ngx_conf_set_num_slot core) (\<lambda>v n. n < 2 ^ 63)
     \<and> slot_law (ngx_conf_set_msec_slot core) (\<lambda>v n. n < 2 ^ 63)
     \<and> (\<forall>e. slot_law (ngx_conf_set_enum_slot core e) (enum_means e))
     \<and> slot_law (ngx_conf_set_flag_slot (core_env core)) flag_means
     \<and> (\<forall>v. ngx_atoi (core_env core) v < 2 ^ 63)
     \<and> PEM_read_bio_PrivateKey (core_env core) [] = None
     \<and> (\<forall>n. (ngx_conf_args_ok core NGX_CONF_TAKE1 n \<longrightarrow> n = 1) \<and> (ngx_conf_args_ok core NGX_CONF_FLAG n \<longrightarrow> n = 1)
          \<and> (ngx_conf_args_ok core NGX_CONF_TAKE2 n \<longrightarrow> n = 2) \<and> (ngx_conf_args_ok core NGX_CONF_TAKE12 n \<longrightarrow> n = 1 \<or> n = 2)
          \<and> (ngx_conf_args_ok core NGX_CONF_1MORE n \<longrightarrow> 1 \<le> n))"

section \<open>Enumerations\<close>

text \<open>The numbers of the enumerated settings, in both directions.\<close>

fun clone_code :: "clone_detection \<Rightarrow> nat" where
  "clone_code NGX_AUTH_WEBAUTHN_CLONE_STRICT = 0"
| "clone_code NGX_AUTH_WEBAUTHN_CLONE_LAX = 1"
| "clone_code NGX_AUTH_WEBAUTHN_CLONE_OFF = 2"

fun uv_code :: "user_verification \<Rightarrow> nat" where
  "uv_code NGX_AUTH_WEBAUTHN_UV_REQUIRED = 0"
| "uv_code NGX_AUTH_WEBAUTHN_UV_PREFERRED = 1"
| "uv_code NGX_AUTH_WEBAUTHN_UV_DISCOURAGED = 2"

fun samesite_code :: "samesite \<Rightarrow> nat" where
  "samesite_code Samesite_strict = 0"
| "samesite_code Samesite_lax = 1"
| "samesite_code Samesite_none = 2"

definition decode_code :: "('a \<Rightarrow> nat) \<Rightarrow> 'a list \<Rightarrow> nat option \<Rightarrow> 'a option" where
  "decode_code code xs n = (case n of None \<Rightarrow> None | Some n \<Rightarrow> find (\<lambda>x. code x = n) xs)"

abbreviation clone_of :: "nat option \<Rightarrow> clone_detection option" where
  "clone_of \<equiv> decode_code clone_code
     [NGX_AUTH_WEBAUTHN_CLONE_STRICT, NGX_AUTH_WEBAUTHN_CLONE_LAX, NGX_AUTH_WEBAUTHN_CLONE_OFF]"

abbreviation uv_of :: "nat option \<Rightarrow> user_verification option" where
  "uv_of \<equiv> decode_code uv_code
     [NGX_AUTH_WEBAUTHN_UV_REQUIRED, NGX_AUTH_WEBAUTHN_UV_PREFERRED, NGX_AUTH_WEBAUTHN_UV_DISCOURAGED]"

abbreviation samesite_of :: "nat option \<Rightarrow> samesite option" where
  "samesite_of \<equiv> decode_code samesite_code [Samesite_strict, Samesite_lax, Samesite_none]"

definition ngx_http_auth_webauthn_clone_enum :: "(bytes \<times> nat) list" where
  "ngx_http_auth_webauthn_clone_enum =
     [(''strict'', clone_code NGX_AUTH_WEBAUTHN_CLONE_STRICT), (''lax'', clone_code NGX_AUTH_WEBAUTHN_CLONE_LAX),
      (''off'', clone_code NGX_AUTH_WEBAUTHN_CLONE_OFF)]"

definition ngx_http_auth_webauthn_samesite_enum :: "(bytes \<times> nat) list" where
  "ngx_http_auth_webauthn_samesite_enum = [(''strict'', 0), (''lax'', 1), (''none'', 2)]"

definition ngx_http_auth_webauthn_uv_enum :: "(bytes \<times> nat) list" where
  "ngx_http_auth_webauthn_uv_enum =
     [(''required'', uv_code NGX_AUTH_WEBAUTHN_UV_REQUIRED), (''preferred'', uv_code NGX_AUTH_WEBAUTHN_UV_PREFERRED),
      (''discouraged'', uv_code NGX_AUTH_WEBAUTHN_UV_DISCOURAGED)]"

section \<open>The table\<close>

text \<open>What a directive works on: the location configuration and the content handler of the location.\<close>

type_synonym 'v block = "'v raw_conf \<times> content_handler option"

record 'v ngx_command =
  cmd_name :: bytes
  cmd_blocks :: "conf_block list"
  cmd_args :: conf_args
  cmd_set :: "bytes list \<Rightarrow> 'v block \<Rightarrow> conf_rv \<times> 'v block"

text \<open>A slot setter on the field at an offset, read with \<open>get\<close> and written with \<open>put\<close>.\<close>

definition slot_at ::
    "(bytes \<Rightarrow> 'a option \<Rightarrow> conf_rv \<times> 'a option) \<Rightarrow> ('v raw_conf \<Rightarrow> 'a option) \<Rightarrow> ('a option \<Rightarrow> 'v raw_conf \<Rightarrow> 'v raw_conf)
     \<Rightarrow> bytes list \<Rightarrow> 'v block \<Rightarrow> conf_rv \<times> 'v block" where
  "slot_at slot get put args blk =
     (let (conf, h) = blk; (rv, x) = slot (hd args) (get conf) in (rv, (put x conf, h)))"

text \<open>A directive parser of the module that works on the configuration alone.\<close>

definition on_conf :: "('v raw_conf \<Rightarrow> conf_rv \<times> 'v raw_conf) \<Rightarrow> 'v block \<Rightarrow> conf_rv \<times> 'v block" where
  "on_conf f blk = (let (conf, h) = blk; (rv, conf) = f conf in (rv, (conf, h)))"

abbreviation any_block :: "conf_block list" where
  "any_block \<equiv> [NGX_HTTP_MAIN_CONF, NGX_HTTP_SRV_CONF, NGX_HTTP_LOC_CONF]"

definition ngx_http_auth_webauthn_commands :: "('fd, 'pk, 'v) conf_core \<Rightarrow> ngx_pool_t \<Rightarrow> 'v ngx_command list" where
  "ngx_http_auth_webauthn_commands core pool =
     (let env = core_env core; str = ngx_conf_set_str_slot core; sec = ngx_conf_set_sec_slot core;
          num = ngx_conf_set_num_slot core; msec = ngx_conf_set_msec_slot core; enum = ngx_conf_set_enum_slot core;
          flag = ngx_conf_set_flag_slot env
      in
     [\<lparr> cmd_name = ''auth_webauthn_rp_id'', cmd_blocks = any_block, cmd_args = NGX_CONF_TAKE1,
        cmd_set = slot_at str rw_rp_id (\<lambda>x. rw_rp_id_update (\<lambda>_. x)) \<rparr>,
      \<lparr> cmd_name = ''auth_webauthn_rp_name'', cmd_blocks = any_block, cmd_args = NGX_CONF_TAKE1,
        cmd_set = slot_at str rw_rp_name (\<lambda>x. rw_rp_name_update (\<lambda>_. x)) \<rparr>,
      \<lparr> cmd_name = ''auth_webauthn_origin'', cmd_blocks = any_block, cmd_args = NGX_CONF_1MORE,
        cmd_set = (\<lambda>args. on_conf (ngx_http_auth_webauthn_conf_set_origin pool args)) \<rparr>,
      \<lparr> cmd_name = ''auth_webauthn_challenge_ttl'', cmd_blocks = any_block, cmd_args = NGX_CONF_TAKE1,
        cmd_set = slot_at sec rw_challenge_ttl (\<lambda>x. rw_challenge_ttl_update (\<lambda>_. x)) \<rparr>,
      \<lparr> cmd_name = ''auth_webauthn_user_verification'', cmd_blocks = any_block, cmd_args = NGX_CONF_TAKE1,
        cmd_set = slot_at (enum ngx_http_auth_webauthn_uv_enum) (map_option uv_code \<circ> rw_user_verification)
          (\<lambda>x. rw_user_verification_update (\<lambda>_. uv_of x)) \<rparr>,
      \<lparr> cmd_name = ''auth_webauthn_challenge_rate_limit'', cmd_blocks = any_block, cmd_args = NGX_CONF_TAKE12,
        cmd_set = (\<lambda>args. on_conf (ngx_http_auth_webauthn_conf_set_rate_limit env (hd args)
          (if length args = 1 then None else Some (args ! 1)))) \<rparr>,
      \<lparr> cmd_name = ''auth_webauthn_redis'', cmd_blocks = any_block, cmd_args = NGX_CONF_TAKE1,
        cmd_set = (\<lambda>args. on_conf (ngx_http_auth_webauthn_conf_set_redis env (hd args))) \<rparr>,
      \<lparr> cmd_name = ''auth_webauthn_redis_password'', cmd_blocks = any_block, cmd_args = NGX_CONF_TAKE1,
        cmd_set = (\<lambda>args. on_conf (ngx_http_auth_webauthn_conf_set_redis_password env pool (hd args))) \<rparr>,
      \<lparr> cmd_name = ''auth_webauthn_redis_db'', cmd_blocks = any_block, cmd_args = NGX_CONF_TAKE1,
        cmd_set = slot_at num rw_redis_db (\<lambda>x. rw_redis_db_update (\<lambda>_. x)) \<rparr>,
      \<lparr> cmd_name = ''auth_webauthn_redis_timeout'', cmd_blocks = any_block, cmd_args = NGX_CONF_TAKE1,
        cmd_set = slot_at msec rw_redis_timeout (\<lambda>x. rw_redis_timeout_update (\<lambda>_. x)) \<rparr>,
      \<lparr> cmd_name = ''auth_webauthn_redis_key_prefix'', cmd_blocks = any_block, cmd_args = NGX_CONF_TAKE1,
        cmd_set = slot_at str rw_redis_key_prefix (\<lambda>x. rw_redis_key_prefix_update (\<lambda>_. x)) \<rparr>,
      \<lparr> cmd_name = ''auth_webauthn_jwt_secret_file'', cmd_blocks = any_block, cmd_args = NGX_CONF_TAKE1,
        cmd_set = slot_at str rw_jwt_secret_file (\<lambda>x. rw_jwt_secret_file_update (\<lambda>_. x)) \<rparr>,
      \<lparr> cmd_name = ''auth_webauthn_jwt_alg'', cmd_blocks = any_block, cmd_args = NGX_CONF_TAKE1,
        cmd_set = (\<lambda>args. on_conf (ngx_http_auth_webauthn_conf_set_jwt_alg (hd args))) \<rparr>,
      \<lparr> cmd_name = ''auth_webauthn_jwt_ttl'', cmd_blocks = any_block, cmd_args = NGX_CONF_TAKE1,
        cmd_set = slot_at sec rw_jwt_ttl (\<lambda>x. rw_jwt_ttl_update (\<lambda>_. x)) \<rparr>,
      \<lparr> cmd_name = ''auth_webauthn_jwt_cookie_name'', cmd_blocks = any_block, cmd_args = NGX_CONF_TAKE1,
        cmd_set = slot_at str rw_cookie_name (\<lambda>x. rw_cookie_name_update (\<lambda>_. x)) \<rparr>,
      \<lparr> cmd_name = ''auth_webauthn_jwt_cookie_domain'', cmd_blocks = any_block, cmd_args = NGX_CONF_TAKE1,
        cmd_set = slot_at str rw_cookie_domain (\<lambda>x. rw_cookie_domain_update (\<lambda>_. x)) \<rparr>,
      \<lparr> cmd_name = ''auth_webauthn_jwt_cookie_path'', cmd_blocks = any_block, cmd_args = NGX_CONF_TAKE1,
        cmd_set = slot_at str rw_cookie_path (\<lambda>x. rw_cookie_path_update (\<lambda>_. x)) \<rparr>,
      \<lparr> cmd_name = ''auth_webauthn_jwt_cookie_secure'', cmd_blocks = any_block, cmd_args = NGX_CONF_FLAG,
        cmd_set = slot_at flag rw_cookie_secure (\<lambda>x. rw_cookie_secure_update (\<lambda>_. x)) \<rparr>,
      \<lparr> cmd_name = ''auth_webauthn_jwt_cookie_samesite'', cmd_blocks = any_block, cmd_args = NGX_CONF_TAKE1,
        cmd_set = slot_at (enum ngx_http_auth_webauthn_samesite_enum) (map_option samesite_code \<circ> rw_cookie_samesite)
          (\<lambda>x. rw_cookie_samesite_update (\<lambda>_. samesite_of x)) \<rparr>,
      \<lparr> cmd_name = ''auth_webauthn_clone_detection'', cmd_blocks = any_block, cmd_args = NGX_CONF_TAKE1,
        cmd_set = slot_at (enum ngx_http_auth_webauthn_clone_enum) (map_option clone_code \<circ> rw_clone_detection)
          (\<lambda>x. rw_clone_detection_update (\<lambda>_. clone_of x)) \<rparr>,
      \<lparr> cmd_name = ''auth_webauthn'', cmd_blocks = [NGX_HTTP_SRV_CONF, NGX_HTTP_LOC_CONF], cmd_args = NGX_CONF_FLAG,
        cmd_set = slot_at flag rw_auth (\<lambda>x. rw_auth_update (\<lambda>_. x)) \<rparr>,
      \<lparr> cmd_name = ''auth_webauthn_signin_url'', cmd_blocks = [NGX_HTTP_SRV_CONF, NGX_HTTP_LOC_CONF], cmd_args = NGX_CONF_TAKE1,
        cmd_set = slot_at str rw_signin_url (\<lambda>x. rw_signin_url_update (\<lambda>_. x)) \<rparr>,
      \<lparr> cmd_name = ''auth_webauthn_set_header'', cmd_blocks = [NGX_HTTP_SRV_CONF, NGX_HTTP_LOC_CONF], cmd_args = NGX_CONF_TAKE2,
        cmd_set = (\<lambda>args. on_conf (ngx_http_auth_webauthn_conf_set_set_header (ngx_http_compile_complex_value core) pool
          (hd args) (args ! 1))) \<rparr>,
      \<lparr> cmd_name = ''auth_webauthn_challenge_handler'', cmd_blocks = [NGX_HTTP_LOC_CONF], cmd_args = NGX_CONF_FLAG,
        cmd_set = (\<lambda>args (conf, h). ngx_http_auth_webauthn_conf_set_challenge_handler env (hd args) conf h) \<rparr>,
      \<lparr> cmd_name = ''auth_webauthn_verify_handler'', cmd_blocks = [NGX_HTTP_LOC_CONF], cmd_args = NGX_CONF_FLAG,
        cmd_set = (\<lambda>args (conf, h). ngx_http_auth_webauthn_conf_set_verify_handler env (hd args) conf h) \<rparr>])"

text \<open>The module descriptor: the functions nginx core calls, \<open>None\<close> where the structure holds \<open>NULL\<close>.\<close>

record ('fd, 'pk, 'v) http_module =
  hm_preconfiguration :: "((bytes \<Rightarrow> bool) \<Rightarrow> (bytes \<rightharpoonup> nat) \<Rightarrow> ngx_int_t \<times> (bytes \<rightharpoonup> nat)) option"
  hm_postconfiguration :: "(ngx_int_t \<Rightarrow> ngx_int_t) option"
  hm_create_main_conf :: "unit option"
  hm_init_main_conf :: "unit option"
  hm_create_srv_conf :: "unit option"
  hm_merge_srv_conf :: "unit option"
  hm_create_loc_conf :: "(ngx_pool_t \<Rightarrow> 'v raw_conf option) option"
  hm_merge_loc_conf :: "(('fd, 'pk) conf_env \<Rightarrow> ngx_pool_t \<Rightarrow> 'v raw_conf \<Rightarrow> 'v raw_conf \<Rightarrow> conf_rv \<times> 'v raw_conf) option"

definition ngx_http_auth_webauthn_module_ctx :: "('fd, 'pk, 'v) http_module" where
  "ngx_http_auth_webauthn_module_ctx =
     \<lparr> hm_preconfiguration = Some ngx_http_auth_webauthn_preconfiguration,
       hm_postconfiguration = Some ngx_http_auth_webauthn_postconfiguration,
       hm_create_main_conf = None, hm_init_main_conf = None, hm_create_srv_conf = None, hm_merge_srv_conf = None,
       hm_create_loc_conf = Some ngx_http_auth_webauthn_create_loc_conf,
       hm_merge_loc_conf = Some ngx_http_auth_webauthn_merge_loc_conf \<rparr>"

section \<open>Configurations\<close>

text \<open>The blocks of a configuration file: \<open>parsed core b ds blk\<close> says that a block of kind \<open>b\<close> with the directives
  \<open>ds\<close> of this module is accepted and gives \<open>blk\<close>. Memory may fail at each directive.\<close>

inductive parsed :: "('fd, 'pk, 'v) conf_core \<Rightarrow> conf_block \<Rightarrow> (bytes \<times> bytes list) list \<Rightarrow> 'v block \<Rightarrow> bool" for core b where
  opened: "the (hm_create_loc_conf (ngx_http_auth_webauthn_module_ctx :: ('fd, 'pk, 'v) http_module)) pool = Some conf \<Longrightarrow> parsed core b [] (conf, None)"
| directive: "parsed core b ds blk \<Longrightarrow> cmd \<in> set (ngx_http_auth_webauthn_commands core pool) \<Longrightarrow> b \<in> set (cmd_blocks cmd) \<Longrightarrow>
     ngx_conf_args_ok core (cmd_args cmd) (length args) \<Longrightarrow> cmd_set cmd args blk = (NGX_CONF_OK, blk') \<Longrightarrow>
     parsed core b (ds @ [(cmd_name cmd, args)]) blk'"

text \<open>The configuration in force in a block: that of the \<open>http\<close> block is as parsed, that of a server or a (nested)
  location is merged into the one around it. \<open>ok\<close> restricts which merges are considered.\<close>

inductive in_force :: "('v raw_conf \<Rightarrow> 'v raw_conf \<Rightarrow> bool) \<Rightarrow> ('fd, 'pk, 'v) conf_core \<Rightarrow> conf_block \<Rightarrow> 'v block \<Rightarrow> bool" for ok core where
  http: "parsed core NGX_HTTP_MAIN_CONF ds blk \<Longrightarrow> in_force ok core NGX_HTTP_MAIN_CONF blk"
| server: "in_force ok core NGX_HTTP_MAIN_CONF (prev, h0) \<Longrightarrow> parsed core NGX_HTTP_SRV_CONF ds (conf, h) \<Longrightarrow> ok prev conf \<Longrightarrow>
     the (hm_merge_loc_conf ngx_http_auth_webauthn_module_ctx) (core_env core) pool prev conf = (NGX_CONF_OK, c) \<Longrightarrow>
     in_force ok core NGX_HTTP_SRV_CONF (c, h)"
| location: "in_force ok core b (prev, h0) \<Longrightarrow> b \<noteq> NGX_HTTP_MAIN_CONF \<Longrightarrow> parsed core NGX_HTTP_LOC_CONF ds (conf, h) \<Longrightarrow> ok prev conf \<Longrightarrow>
     the (hm_merge_loc_conf ngx_http_auth_webauthn_module_ctx) (core_env core) pool prev conf = (NGX_CONF_OK, c) \<Longrightarrow>
     in_force ok core NGX_HTTP_LOC_CONF (c, h)"

section \<open>What the directives mean\<close>

text \<open>The meaning of each directive, as its documentation gives it: what an accepted directive looks like and what it
  stores. Most settings are accepted once in a block; \<open>origin\<close> and \<open>set_header\<close> accumulate, and of a repeated \<open>jwt_alg\<close>, \<open>redis_password\<close>
  or \<open>challenge_rate_limit\<close> the last one counts.\<close>

inductive effect :: "('fd, 'pk, 'v) conf_core \<Rightarrow> bytes \<Rightarrow> bytes list \<Rightarrow> 'v block \<Rightarrow> 'v block \<Rightarrow> bool" for core where
  rp_id: "rw_rp_id c = None \<Longrightarrow> effect core ''auth_webauthn_rp_id'' [v] (c, h) (c\<lparr> rw_rp_id := Some v \<rparr>, h)"
| rp_name: "rw_rp_name c = None \<Longrightarrow> effect core ''auth_webauthn_rp_name'' [v] (c, h) (c\<lparr> rw_rp_name := Some v \<rparr>, h)"
| origin: "args \<noteq> [] \<Longrightarrow> os = (case rw_origins c of None \<Rightarrow> [] | Some os \<Rightarrow> the os) \<Longrightarrow>
     effect core ''auth_webauthn_origin'' args (c, h) (c\<lparr> rw_origins := Some (Some (os @ args)) \<rparr>, h)"
| challenge_ttl: "rw_challenge_ttl c = None \<Longrightarrow> 0 \<le>s t \<Longrightarrow>
     effect core ''auth_webauthn_challenge_ttl'' [v] (c, h) (c\<lparr> rw_challenge_ttl := Some t \<rparr>, h)"
| user_verification: "rw_user_verification c = None \<Longrightarrow> ngx_strlow v = uv_name uv \<Longrightarrow>
     effect core ''auth_webauthn_user_verification'' [v] (c, h) (c\<lparr> rw_user_verification := Some uv \<rparr>, h)"
| rate_off: "effect core ''auth_webauthn_challenge_rate_limit'' [''off''] (c, h) (c\<lparr> rw_rate_limit_max := Some 0 \<rparr>, h)"
| rate_max: "0 < m \<Longrightarrow> m < 2 ^ 63 \<Longrightarrow>
     effect core ''auth_webauthn_challenge_rate_limit'' [v] (c, h) (c\<lparr> rw_rate_limit_max := Some m \<rparr>, h)"
| rate_window: "0 < m \<Longrightarrow> m < 2 ^ 63 \<Longrightarrow> 0 <s w \<Longrightarrow> effect core ''auth_webauthn_challenge_rate_limit'' [v, v2] (c, h)
     (c\<lparr> rw_rate_limit_max := Some m, rw_rate_limit_window := Some w \<rparr>, h)"
| redis: "str_value (rw_redis_host c) = [] \<Longrightarrow> host \<noteq> [] \<Longrightarrow> CHR '':'' \<notin> set host \<Longrightarrow> p = ngx_atoi (core_env core) port \<Longrightarrow> 1 \<le> p \<Longrightarrow> p \<le> 65535 \<Longrightarrow>
     effect core ''auth_webauthn_redis'' [host @ '':'' @ port] (c, h)
       (c\<lparr> rw_redis_url := Some (host @ '':'' @ port), rw_redis_host := Some host, rw_redis_port := Some p \<rparr>, h)"
| redis_password: "effect core ''auth_webauthn_redis_password'' [v] (c, h) (c\<lparr> rw_redis_password := Some pw \<rparr>, h)"
| redis_db: "rw_redis_db c = None \<Longrightarrow> n < 2 ^ 63 \<Longrightarrow> effect core ''auth_webauthn_redis_db'' [v] (c, h) (c\<lparr> rw_redis_db := Some n \<rparr>, h)"
| redis_timeout: "rw_redis_timeout c = None \<Longrightarrow> n < 2 ^ 63 \<Longrightarrow>
     effect core ''auth_webauthn_redis_timeout'' [v] (c, h) (c\<lparr> rw_redis_timeout := Some n \<rparr>, h)"
| key_prefix: "rw_redis_key_prefix c = None \<Longrightarrow>
     effect core ''auth_webauthn_redis_key_prefix'' [v] (c, h) (c\<lparr> rw_redis_key_prefix := Some v \<rparr>, h)"
| secret_file: "rw_jwt_secret_file c = None \<Longrightarrow>
     effect core ''auth_webauthn_jwt_secret_file'' [v] (c, h) (c\<lparr> rw_jwt_secret_file := Some v \<rparr>, h)"
| jwt_alg: "v \<in> {''HS256'', ''RS256'', ''ES256''} \<Longrightarrow> effect core ''auth_webauthn_jwt_alg'' [v] (c, h)
     (c\<lparr> rw_jwt_alg_family := Some (if v = ''HS256'' then NGX_AUTH_WEBAUTHN_JWT_HMAC else NGX_AUTH_WEBAUTHN_JWT_ASYM), rw_jwt_alg := Some v \<rparr>, h)"
| jwt_ttl: "rw_jwt_ttl c = None \<Longrightarrow> 0 \<le>s t \<Longrightarrow> effect core ''auth_webauthn_jwt_ttl'' [v] (c, h) (c\<lparr> rw_jwt_ttl := Some t \<rparr>, h)"
| cookie_name: "rw_cookie_name c = None \<Longrightarrow> effect core ''auth_webauthn_jwt_cookie_name'' [v] (c, h) (c\<lparr> rw_cookie_name := Some v \<rparr>, h)"
| cookie_domain: "rw_cookie_domain c = None \<Longrightarrow>
     effect core ''auth_webauthn_jwt_cookie_domain'' [v] (c, h) (c\<lparr> rw_cookie_domain := Some v \<rparr>, h)"
| cookie_path: "rw_cookie_path c = None \<Longrightarrow> effect core ''auth_webauthn_jwt_cookie_path'' [v] (c, h) (c\<lparr> rw_cookie_path := Some v \<rparr>, h)"
| cookie_secure: "rw_cookie_secure c = None \<Longrightarrow> flag_means v b \<Longrightarrow>
     effect core ''auth_webauthn_jwt_cookie_secure'' [v] (c, h) (c\<lparr> rw_cookie_secure := Some b \<rparr>, h)"
| cookie_samesite: "rw_cookie_samesite c = None \<Longrightarrow> ngx_strlow v = ngx_strlow (samesite_name x) \<Longrightarrow>
     effect core ''auth_webauthn_jwt_cookie_samesite'' [v] (c, h) (c\<lparr> rw_cookie_samesite := Some x \<rparr>, h)"
| clone_detection: "rw_clone_detection c = None \<Longrightarrow>
     (ngx_strlow v, x) \<in> {(''strict'', NGX_AUTH_WEBAUTHN_CLONE_STRICT), (''lax'', NGX_AUTH_WEBAUTHN_CLONE_LAX), (''off'', NGX_AUTH_WEBAUTHN_CLONE_OFF)} \<Longrightarrow>
     effect core ''auth_webauthn_clone_detection'' [v] (c, h) (c\<lparr> rw_clone_detection := Some x \<rparr>, h)"
| auth: "rw_auth c = None \<Longrightarrow> flag_means v b \<Longrightarrow> effect core ''auth_webauthn'' [v] (c, h) (c\<lparr> rw_auth := Some b \<rparr>, h)"
| signin_url: "rw_signin_url c = None \<Longrightarrow> effect core ''auth_webauthn_signin_url'' [v] (c, h) (c\<lparr> rw_signin_url := Some v \<rparr>, h)"
| set_header: "hs = (case rw_set_headers c of None \<Rightarrow> [] | Some hs \<Rightarrow> the hs) \<Longrightarrow> ngx_http_compile_complex_value core v = Some cv \<Longrightarrow>
     effect core ''auth_webauthn_set_header'' [name, v] (c, h)
       (c\<lparr> rw_set_headers := Some (Some (hs @ [\<lparr> hdr_name = name, hdr_value = cv \<rparr>])) \<rparr>, h)"
| challenge_handler: "rw_challenge_handler c = None \<Longrightarrow> flag_means v b \<Longrightarrow> effect core ''auth_webauthn_challenge_handler'' [v] (c, h)
     (c\<lparr> rw_challenge_handler := Some b \<rparr>, if b then Some Challenge_content else h)"
| verify_handler: "rw_verify_handler c = None \<Longrightarrow> flag_means v b \<Longrightarrow> effect core ''auth_webauthn_verify_handler'' [v] (c, h)
     (c\<lparr> rw_verify_handler := Some b \<rparr>, if b then Some Verify_content else h)"

text \<open>The arguments a block gives to a directive, in order.\<close>

definition given :: "bytes \<Rightarrow> (bytes \<times> bytes list) list \<Rightarrow> bytes list list" where
  "given name ds = map snd (filter (\<lambda>d. fst d = name) ds)"

definition string_fields :: "(bytes \<times> ('v raw_conf \<Rightarrow> bytes option)) list" where
  "string_fields = [(''auth_webauthn_rp_id'', rw_rp_id), (''auth_webauthn_rp_name'', rw_rp_name),
     (''auth_webauthn_redis_key_prefix'', rw_redis_key_prefix), (''auth_webauthn_jwt_secret_file'', rw_jwt_secret_file),
     (''auth_webauthn_jwt_cookie_name'', rw_cookie_name), (''auth_webauthn_jwt_cookie_domain'', rw_cookie_domain),
     (''auth_webauthn_jwt_cookie_path'', rw_cookie_path), (''auth_webauthn_signin_url'', rw_signin_url)]"

definition flag_fields :: "(bytes \<times> ('v raw_conf \<Rightarrow> bool option)) list" where
  "flag_fields = [(''auth_webauthn'', rw_auth), (''auth_webauthn_jwt_cookie_secure'', rw_cookie_secure),
     (''auth_webauthn_challenge_handler'', rw_challenge_handler), (''auth_webauthn_verify_handler'', rw_verify_handler)]"

text \<open>A field reflects the directives given for it.\<close>

definition reflects :: "('b \<Rightarrow> bytes \<Rightarrow> bool) \<Rightarrow> 'b option \<Rightarrow> bytes list list \<Rightarrow> bool" where
  "reflects means x args \<longleftrightarrow> (case x of None \<Rightarrow> args = [] | Some y \<Rightarrow> \<exists>v. args = [[v]] \<and> means y v)"

definition list_reflects :: "('a list \<Rightarrow> bytes list) \<Rightarrow> 'a list option option \<Rightarrow> bytes list \<Rightarrow> bool" where
  "list_reflects f x args \<longleftrightarrow> (case x of None \<Rightarrow> args = [] | Some y \<Rightarrow> \<exists>os. y = Some os \<and> f os = args \<and> args \<noteq> [])"

section \<open>Well-formed configurations\<close>

fun alg_family :: "bytes \<Rightarrow> jwt_family" where
  "alg_family alg = (if alg = ''HS256'' then NGX_AUTH_WEBAUTHN_JWT_HMAC else NGX_AUTH_WEBAUTHN_JWT_ASYM)"

definition endpoint_wf :: "bytes option \<Rightarrow> int option \<Rightarrow> bool" where
  "endpoint_wf host port \<longleftrightarrow>
     (case host of None \<Rightarrow> port = None
      | Some h \<Rightarrow> (\<exists>p. port = Some p \<and> (if h = [] then p = 0 else 1 \<le> p \<and> p \<le> 65535)))"

definition alg_wf :: "bytes option \<Rightarrow> jwt_family option \<Rightarrow> bool" where
  "alg_wf alg family \<longleftrightarrow> family = map_option alg_family alg \<and> alg \<in> {None, Some ''HS256'', Some ''RS256'', Some ''ES256''}"

text \<open>The values a field can take.\<close>

definition raw_wf :: "('fd, 'pk) conf_env \<Rightarrow> 'v raw_conf \<Rightarrow> bool" where
  "raw_wf env c \<longleftrightarrow>
     endpoint_wf (rw_redis_host c) (rw_redis_port c) \<and> alg_wf (rw_jwt_alg c) (rw_jwt_alg_family c)
     \<and> pred_option (\<lambda>w. 0 <s w) (rw_rate_limit_window c) \<and> pred_option (\<lambda>t. 0 \<le>s t) (rw_challenge_ttl c)
     \<and> pred_option (\<lambda>t. 0 \<le>s t) (rw_jwt_ttl c) \<and> pred_option (\<lambda>n. n < 2 ^ 63) (rw_rate_limit_max c)
     \<and> pred_option (\<lambda>n. n < 2 ^ 63) (rw_redis_db c) \<and> pred_option (\<lambda>n. n < 2 ^ 63) (rw_redis_timeout c)
     \<and> pred_option (pred_option (\<lambda>os. os \<noteq> [])) (rw_origins c) \<and> pred_option (pred_option (\<lambda>hs. hs \<noteq> [])) (rw_set_headers c)
     \<and> pred_option (\<lambda>s. s = [] \<or> 32 \<le> length s \<or> PEM_read_bio_PrivateKey env s \<noteq> None) (rw_jwt_secret c)"

text \<open>A block before its merge: no key is loaded yet, no array is \<open>NULL\<close>, and a content handler is installed only
  where its flag is on.\<close>

definition block_wf :: "('fd, 'pk) conf_env \<Rightarrow> 'v block \<Rightarrow> bool" where
  "block_wf env blk \<longleftrightarrow> (case blk of (c, h) \<Rightarrow>
     raw_wf env c \<and> rw_jwt_secret c = None \<and> rw_jwt_pub_pem c = None \<and> rw_origins c \<noteq> Some None \<and> rw_set_headers c \<noteq> Some None
     \<and> (h = Some Challenge_content \<longrightarrow> rw_challenge_handler c = Some True) \<and> (h = Some Verify_content \<longrightarrow> rw_verify_handler c = Some True))"

text \<open>After a merge no field is unset.\<close>

definition all_set :: "'v raw_conf \<Rightarrow> bool" where
  "all_set c \<longleftrightarrow> rw_rp_id c \<noteq> None \<and> rw_rp_name c \<noteq> None \<and> rw_origins c \<noteq> None \<and> rw_challenge_ttl c \<noteq> None
     \<and> rw_user_verification c \<noteq> None \<and> rw_rate_limit_max c \<noteq> None \<and> rw_rate_limit_window c \<noteq> None \<and> rw_redis_url c \<noteq> None
     \<and> rw_redis_host c \<noteq> None \<and> rw_redis_port c \<noteq> None \<and> rw_redis_password c \<noteq> None \<and> rw_redis_db c \<noteq> None
     \<and> rw_redis_timeout c \<noteq> None \<and> rw_redis_key_prefix c \<noteq> None \<and> rw_jwt_secret_file c \<noteq> None \<and> rw_jwt_secret c \<noteq> None
     \<and> rw_jwt_pub_pem c \<noteq> None \<and> rw_jwt_alg c \<noteq> None \<and> rw_jwt_alg_family c \<noteq> None \<and> rw_jwt_ttl c \<noteq> None
     \<and> rw_cookie_name c \<noteq> None \<and> rw_cookie_domain c \<noteq> None \<and> rw_cookie_path c \<noteq> None \<and> rw_cookie_secure c \<noteq> None
     \<and> rw_cookie_samesite c \<noteq> None \<and> rw_clone_detection c \<noteq> None \<and> rw_auth c \<noteq> None \<and> rw_signin_url c \<noteq> None
     \<and> rw_set_headers c \<noteq> None \<and> rw_challenge_handler c \<noteq> None \<and> rw_verify_handler c \<noteq> None"

text \<open>A key that was loaded for an algorithm family: with HMAC a secret of at least 32 bytes, otherwise a private key whose
  public key is at hand.\<close>

definition pem_pair :: "('fd, 'pk) conf_env \<Rightarrow> bytes \<Rightarrow> bytes \<Rightarrow> bool" where
  "pem_pair env priv pub \<longleftrightarrow> (\<exists>k. PEM_read_bio_PrivateKey env priv = Some k \<and> PEM_write_bio_PUBKEY env k = Some pub)"

definition key_loaded :: "('fd, 'pk) conf_env \<Rightarrow> jwt_family \<Rightarrow> bytes \<Rightarrow> bytes \<Rightarrow> bool" where
  "key_loaded env family secret pub \<longleftrightarrow>
     (if family = NGX_AUTH_WEBAUTHN_JWT_HMAC then 32 \<le> length secret else pem_pair env secret pub)"

text \<open>The block does not change the algorithm of a key that is already loaded around it.\<close>

definition alg_kept :: "'v raw_conf \<Rightarrow> 'v raw_conf \<Rightarrow> bool" where
  "alg_kept prev conf \<longleftrightarrow> rw_jwt_alg conf = None \<or> rw_jwt_secret prev = None \<or> rw_jwt_secret prev = Some []"

definition key_fits :: "('fd, 'pk) conf_env \<Rightarrow> 'v raw_conf \<Rightarrow> bool" where
  "key_fits env c \<longleftrightarrow> rw_jwt_secret c = None
     \<or> rw_jwt_alg_family c \<noteq> None \<and> rw_jwt_pub_pem c \<noteq> None
       \<and> (rw_jwt_secret c = Some [] \<or> key_loaded env (the (rw_jwt_alg_family c)) (the (rw_jwt_secret c)) (the (rw_jwt_pub_pem c)))"

section \<open>Lemmas\<close>

lemma slot_at_OK:
  assumes "slot_at slot get put args (c, h) = (NGX_CONF_OK, blk)" and "slot_law slot means" and "length args = 1"
  obtains v x where "args = [v]" "get c = None" "means v x" "blk = (put (Some x) c, h)"
proof -
  obtain v where v: "args = [v]" using assms(3) by (cases args) auto
  obtain rv y where y: "slot v (get c) = (rv, y)" by fastforce
  with assms(1) v have "rv = NGX_CONF_OK" "blk = (put y c, h)" by (simp_all add: slot_at_def)
  moreover from this(1) y assms(2) have "get c = None \<and> (\<exists>x. y = Some x \<and> means v x)" unfolding slot_law_def by blast
  ultimately show thesis using v that by blast
qed

lemma on_conf_OK:
  assumes "on_conf f (c, h) = (NGX_CONF_OK, blk)"
  obtains c' where "f c = (NGX_CONF_OK, c')" "blk = (c', h)"
proof -
  obtain rv c' where f: "f c = (rv, c')" by fastforce
  with assms that show thesis by (simp add: on_conf_def)
qed

lemma on_conf_effect:
  assumes "on_conf f (c, h) = (NGX_CONF_OK, blk)" and "args = args'"
    and "\<And>c'. f c = (NGX_CONF_OK, c') \<Longrightarrow> effect core name args' (c, h) (c', h)"
  shows "effect core name args (c, h) blk"
  by (rule on_conf_OK [OF assms(1)]) (use assms(2,3) in simp)

lemma push_all_OK: "push_all pool vs os = (NGX_CONF_OK, os') \<Longrightarrow> os' = os @ vs"
  by (induction pool vs os rule: push_all.induct) (auto split: if_splits)

lemma set_origin_effect:
  assumes "ngx_http_auth_webauthn_conf_set_origin pool args c = (NGX_CONF_OK, c')" and "args \<noteq> []"
  shows "effect core ''auth_webauthn_origin'' args (c, h) (c', h)"
proof -
  obtain os where "push_all pool args (case rw_origins c of None \<Rightarrow> [] | Some os \<Rightarrow> the os) = (NGX_CONF_OK, os)"
    "c' = c\<lparr> rw_origins := Some (Some os) \<rparr>"
    using assms(1) by (auto simp: ngx_http_auth_webauthn_conf_set_origin_def Let_def split: if_splits prod.splits)
  with assms(2) show ?thesis by (auto dest!: push_all_OK intro: effect.origin)
qed

lemma set_header_effect:
  assumes "ngx_http_auth_webauthn_conf_set_set_header (ngx_http_compile_complex_value core) pool name v c = (NGX_CONF_OK, c')"
  shows "effect core ''auth_webauthn_set_header'' [name, v] (c, h) (c', h)"
proof -
  define hs where "hs = (case rw_set_headers c of None \<Rightarrow> [] | Some hs \<Rightarrow> the hs)"
  obtain cv where "ngx_http_compile_complex_value core v = Some cv"
    and "c' = c\<lparr> rw_set_headers := Some (Some (hs @ [\<lparr> hdr_name = name, hdr_value = cv \<rparr>])) \<rparr>"
    using assms unfolding ngx_http_auth_webauthn_conf_set_set_header_def Let_def hs_def [symmetric]
    by (simp split: if_splits option.splits)
  with hs_def show ?thesis by (auto intro: effect.set_header)
qed

lemma set_redis_effect:
  assumes "ngx_http_auth_webauthn_conf_set_redis (core_env core) v c = (NGX_CONF_OK, c')"
  shows "effect core ''auth_webauthn_redis'' [v] (c, h) (c', h)"
proof -
  let ?host = "takeWhile (\<lambda>c. c \<noteq> CHR '':'') v"
  let ?port = "drop (length ?host + 1) v" let ?p = "ngx_atoi (core_env core) ?port"
  have *: "str_value (rw_redis_host c) = []" "CHR '':'' \<in> set v" "?host \<noteq> []" "1 \<le> ?p" "?p \<le> 65535"
    and c': "c' = c\<lparr> rw_redis_url := Some v, rw_redis_host := Some ?host, rw_redis_port := Some ?p \<rparr>"
    using assms unfolding ngx_http_auth_webauthn_conf_set_redis_def Let_def by (simp_all split: if_splits)
  have "v = ?host @ dropWhile (\<lambda>c. c \<noteq> CHR '':'') v" by simp
  moreover have "dropWhile (\<lambda>c. c \<noteq> CHR '':'') v = CHR '':'' # ?port"
  proof -
    have "dropWhile (\<lambda>c. c \<noteq> CHR '':'') v \<noteq> []" using *(2) by simp
    with hd_dropWhile [OF this] show ?thesis
      by (metis drop_Suc dropWhile_eq_drop hd_Cons_tl list.sel(3) Suc_eq_plus1 tl_drop)
  qed
  ultimately have v: "v = ?host @ '':'' @ ?port" by simp
  have "CHR '':'' \<notin> set ?host" by (auto dest: set_takeWhileD)
  from effect.redis [OF *(1,3) this refl *(4,5), where h = h] show ?thesis unfolding c' using v by simp
qed

lemma set_redis_password_effect:
  assumes "ngx_http_auth_webauthn_conf_set_redis_password env pool v c = (NGX_CONF_OK, c')"
  shows "effect core ''auth_webauthn_redis_password'' [v] (c, h) (c', h)"
proof -
  have "\<exists>pw. c' = c\<lparr> rw_redis_password := Some pw \<rparr>"
    using assms by (simp add: ngx_http_auth_webauthn_conf_set_redis_password_def split: if_splits option.splits) blast+
  then show ?thesis by (auto intro: effect.redis_password)
qed

lemma set_jwt_alg_effect:
  assumes "ngx_http_auth_webauthn_conf_set_jwt_alg v c = (NGX_CONF_OK, c')"
  shows "effect core ''auth_webauthn_jwt_alg'' [v] (c, h) (c', h)"
proof -
  have v: "v \<in> {''HS256'', ''RS256'', ''ES256''}"
    using assms by (simp add: ngx_http_auth_webauthn_conf_set_jwt_alg_def split: if_splits)
  from effect.jwt_alg [OF this, of core c h] assms v show ?thesis
    by (simp add: ngx_http_auth_webauthn_conf_set_jwt_alg_def split: if_splits)
qed

lemma set_rate_limit_effect:
  assumes "ngx_http_auth_webauthn_conf_set_rate_limit (core_env core) (hd args) (if length args = 1 then None else Some (args ! 1)) c
      = (NGX_CONF_OK, c')" and "\<And>v. ngx_atoi (core_env core) v < 2 ^ 63" and "length args = 1 \<or> length args = 2"
  shows "effect core ''auth_webauthn_challenge_rate_limit'' args (c, h) (c', h)"
proof -
  define m where "m = nat (ngx_atoi (core_env core) (hd args))"
  have m: "m < 2 ^ 63" using assms(2) [of "hd args"] by (simp add: m_def)
  have sl: "\<not> w \<le>s 0 \<Longrightarrow> 0 <s w" for w :: time_t by (simp add: word_sless_alt word_sle_eq)
  from assms(3) show ?thesis
  proof
    assume "length args = 1"
    then obtain v where v: "args = [v]" by (cases args) auto
    with assms(1) consider "v = ''off''" "c' = c\<lparr> rw_rate_limit_max := Some 0 \<rparr>" | "0 < m" "c' = c\<lparr> rw_rate_limit_max := Some m \<rparr>"
      unfolding m_def by (simp add: ngx_http_auth_webauthn_conf_set_rate_limit_def Let_def split: if_splits)
    then show ?thesis by cases (simp_all add: v effect.rate_off effect.rate_max [OF _ m])
  next
    assume "length args = 2"
    then obtain v w where v: "args = [v, w]" by (cases args; cases "tl args") auto
    with assms(1) have "0 < m" "\<not> ngx_parse_time (core_env core) w \<le>s 0"
      "c' = c\<lparr> rw_rate_limit_max := Some m, rw_rate_limit_window := Some (ngx_parse_time (core_env core) w) \<rparr>"
      unfolding m_def by (simp_all add: ngx_http_auth_webauthn_conf_set_rate_limit_def Let_def split: if_splits)
    with sl show ?thesis by (simp add: v effect.rate_window [OF _ m])
  qed
qed

lemma set_handler_effect:
  assumes "slot_law (ngx_conf_set_flag_slot (core_env core)) flag_means"
  shows "ngx_http_auth_webauthn_conf_set_challenge_handler (core_env core) v c h = (NGX_CONF_OK, blk) \<Longrightarrow>
      effect core ''auth_webauthn_challenge_handler'' [v] (c, h) blk"
    and "ngx_http_auth_webauthn_conf_set_verify_handler (core_env core) v c h = (NGX_CONF_OK, blk) \<Longrightarrow>
      effect core ''auth_webauthn_verify_handler'' [v] (c, h) blk"
proof -
  have flag: "old = None \<and> (\<exists>b. f = Some b \<and> flag_means v b)"
    if "ngx_conf_set_flag_slot (core_env core) v old = (NGX_CONF_OK, f)" for old f
    using assms that unfolding slot_law_def by blast
  obtain rv f where f: "ngx_conf_set_flag_slot (core_env core) v (rw_challenge_handler c) = (rv, f)" by fastforce
  show "effect core ''auth_webauthn_challenge_handler'' [v] (c, h) blk"
    if "ngx_http_auth_webauthn_conf_set_challenge_handler (core_env core) v c h = (NGX_CONF_OK, blk)"
  proof -
    have rv: "rv = NGX_CONF_OK" and blk: "blk = (c\<lparr> rw_challenge_handler := f \<rparr>, if f \<noteq> Some False then Some Challenge_content else h)"
      using that by (simp_all add: ngx_http_auth_webauthn_conf_set_challenge_handler_def f Let_def split: if_splits)
    from flag f rv obtain b where b: "rw_challenge_handler c = None" "f = Some b" "flag_means v b" by blast
    from effect.challenge_handler [OF b(1,3), of core h] show ?thesis unfolding blk b(2) by (cases b) simp_all
  qed
  obtain rv f where f: "ngx_conf_set_flag_slot (core_env core) v (rw_verify_handler c) = (rv, f)" by fastforce
  show "effect core ''auth_webauthn_verify_handler'' [v] (c, h) blk"
    if "ngx_http_auth_webauthn_conf_set_verify_handler (core_env core) v c h = (NGX_CONF_OK, blk)"
  proof -
    have rv: "rv = NGX_CONF_OK" and blk: "blk = (c\<lparr> rw_verify_handler := f \<rparr>, if f \<noteq> Some False then Some Verify_content else h)"
      using that by (simp_all add: ngx_http_auth_webauthn_conf_set_verify_handler_def f Let_def split: if_splits)
    from flag f rv obtain b where b: "rw_verify_handler c = None" "f = Some b" "flag_means v b" by blast
    from effect.verify_handler [OF b(1,3), of core h] show ?thesis unfolding blk b(2) by (cases b) simp_all
  qed
qed

lemma enum_effect:
  "enum_means ngx_http_auth_webauthn_uv_enum v x \<Longrightarrow> \<exists>uv. uv_of (Some x) = Some uv \<and> ngx_strlow v = uv_name uv"
  "enum_means ngx_http_auth_webauthn_samesite_enum v x \<Longrightarrow> \<exists>y. samesite_of (Some x) = Some y \<and> ngx_strlow v = ngx_strlow (samesite_name y)"
  "enum_means ngx_http_auth_webauthn_clone_enum v x \<Longrightarrow> \<exists>y. clone_of (Some x) = Some y \<and> (ngx_strlow v, y) \<in> {(''strict'', NGX_AUTH_WEBAUTHN_CLONE_STRICT),
     (''lax'', NGX_AUTH_WEBAUTHN_CLONE_LAX), (''off'', NGX_AUTH_WEBAUTHN_CLONE_OFF)}"
proof -
  have lower: "map ngx_strlow [''required'', ''preferred'', ''discouraged'', ''strict'', ''lax'', ''none'', ''off'', ''Strict'', ''Lax'', ''None'']
     = [''required'', ''preferred'', ''discouraged'', ''strict'', ''lax'', ''none'', ''off'', ''strict'', ''lax'', ''none'']" by code_simp
  show "enum_means ngx_http_auth_webauthn_uv_enum v x \<Longrightarrow> \<exists>uv. uv_of (Some x) = Some uv \<and> ngx_strlow v = uv_name uv"
    using lower by (auto simp: enum_means_def ngx_http_auth_webauthn_uv_enum_def decode_code_def)
  show "enum_means ngx_http_auth_webauthn_samesite_enum v x \<Longrightarrow> \<exists>y. samesite_of (Some x) = Some y \<and> ngx_strlow v = ngx_strlow (samesite_name y)"
    using lower by (auto simp: enum_means_def ngx_http_auth_webauthn_samesite_enum_def decode_code_def)
  show "enum_means ngx_http_auth_webauthn_clone_enum v x \<Longrightarrow> \<exists>y. clone_of (Some x) = Some y \<and> (ngx_strlow v, y) \<in> {(''strict'', NGX_AUTH_WEBAUTHN_CLONE_STRICT),
     (''lax'', NGX_AUTH_WEBAUTHN_CLONE_LAX), (''off'', NGX_AUTH_WEBAUTHN_CLONE_OFF)}"
    using lower by (auto simp: enum_means_def ngx_http_auth_webauthn_clone_enum_def decode_code_def)
qed

lemma slot_effect:
  assumes "slot_at slot get put args (c, h) = (NGX_CONF_OK, blk)" and "ngx_conf_args_ok core t (length args)"
    and "core_law core" and "slot_law slot means" and "t \<in> {NGX_CONF_TAKE1, NGX_CONF_FLAG}"
    and "\<And>v x. get c = None \<Longrightarrow> means v x \<Longrightarrow> effect core name [v] (c, h) (put (Some x) c, h)"
  shows "effect core name args (c, h) blk"
proof -
  have "length args = 1" using assms(2,3,5) by (auto simp: core_law_def)
  with assms(1,4,6) show ?thesis by (auto elim!: slot_at_OK)
qed

lemma parser_effect:
  assumes "core_law core"
  shows "on_conf (ngx_http_auth_webauthn_conf_set_origin pool args) (c, h) = (NGX_CONF_OK, blk) \<Longrightarrow>
      ngx_conf_args_ok core NGX_CONF_1MORE (length args) \<Longrightarrow> effect core ''auth_webauthn_origin'' args (c, h) blk"
    and "on_conf (ngx_http_auth_webauthn_conf_set_rate_limit (core_env core) (hd args) (if length args = 1 then None else Some (args ! 1)))
        (c, h) = (NGX_CONF_OK, blk) \<Longrightarrow>
      ngx_conf_args_ok core NGX_CONF_TAKE12 (length args) \<Longrightarrow> effect core ''auth_webauthn_challenge_rate_limit'' args (c, h) blk"
    and "on_conf (ngx_http_auth_webauthn_conf_set_redis (core_env core) (hd args)) (c, h) = (NGX_CONF_OK, blk) \<Longrightarrow>
      ngx_conf_args_ok core NGX_CONF_TAKE1 (length args) \<Longrightarrow> effect core ''auth_webauthn_redis'' args (c, h) blk"
    and "on_conf (ngx_http_auth_webauthn_conf_set_redis_password (core_env core) pool (hd args)) (c, h) = (NGX_CONF_OK, blk) \<Longrightarrow>
      ngx_conf_args_ok core NGX_CONF_TAKE1 (length args) \<Longrightarrow> effect core ''auth_webauthn_redis_password'' args (c, h) blk"
    and "on_conf (ngx_http_auth_webauthn_conf_set_jwt_alg (hd args)) (c, h) = (NGX_CONF_OK, blk) \<Longrightarrow>
      ngx_conf_args_ok core NGX_CONF_TAKE1 (length args) \<Longrightarrow> effect core ''auth_webauthn_jwt_alg'' args (c, h) blk"
    and "on_conf (ngx_http_auth_webauthn_conf_set_set_header (ngx_http_compile_complex_value core) pool (hd args) (args ! 1)) (c, h)
        = (NGX_CONF_OK, blk) \<Longrightarrow>
      ngx_conf_args_ok core NGX_CONF_TAKE2 (length args) \<Longrightarrow> effect core ''auth_webauthn_set_header'' args (c, h) blk"
    and "ngx_http_auth_webauthn_conf_set_challenge_handler (core_env core) (hd args) c h = (NGX_CONF_OK, blk) \<Longrightarrow>
      ngx_conf_args_ok core NGX_CONF_FLAG (length args) \<Longrightarrow> effect core ''auth_webauthn_challenge_handler'' args (c, h) blk"
    and "ngx_http_auth_webauthn_conf_set_verify_handler (core_env core) (hd args) c h = (NGX_CONF_OK, blk) \<Longrightarrow>
      ngx_conf_args_ok core NGX_CONF_FLAG (length args) \<Longrightarrow> effect core ''auth_webauthn_verify_handler'' args (c, h) blk"
proof -
  note law = assms [unfolded core_law_def]
  have one: "args = [hd args]" if "ngx_conf_args_ok core t (length args)" "t \<in> {NGX_CONF_TAKE1, NGX_CONF_FLAG}" for t
    using law that by (cases args) auto
  have two: "args = [hd args, args ! 1]" if "ngx_conf_args_ok core NGX_CONF_TAKE2 (length args)"
    using law that by (cases args; cases "tl args") auto
  have fl: "slot_law (ngx_conf_set_flag_slot (core_env core)) flag_means" using law by blast
  have more: "args \<noteq> []" if "ngx_conf_args_ok core NGX_CONF_1MORE (length args)" using law that by fastforce
  have atoi: "ngx_atoi (core_env core) v < 2 ^ 63" for v using law by blast
  have take12: "length args = 1 \<or> length args = 2" if "ngx_conf_args_ok core NGX_CONF_TAKE12 (length args)" using law that by blast
  show "ngx_conf_args_ok core NGX_CONF_1MORE (length args) \<Longrightarrow> effect core ''auth_webauthn_origin'' args (c, h) blk"
    if "on_conf (ngx_http_auth_webauthn_conf_set_origin pool args) (c, h) = (NGX_CONF_OK, blk)"
    by (rule on_conf_effect [OF that refl]) (erule set_origin_effect, erule more)
  show "ngx_conf_args_ok core NGX_CONF_TAKE12 (length args) \<Longrightarrow> effect core ''auth_webauthn_challenge_rate_limit'' args (c, h) blk"
    if "on_conf (ngx_http_auth_webauthn_conf_set_rate_limit (core_env core) (hd args) (if length args = 1 then None else Some (args ! 1)))
        (c, h) = (NGX_CONF_OK, blk)"
    by (rule on_conf_effect [OF that refl]) (erule set_rate_limit_effect, rule atoi, erule take12)
  show "ngx_conf_args_ok core NGX_CONF_TAKE1 (length args) \<Longrightarrow> effect core ''auth_webauthn_redis'' args (c, h) blk"
    if "on_conf (ngx_http_auth_webauthn_conf_set_redis (core_env core) (hd args)) (c, h) = (NGX_CONF_OK, blk)"
    by (rule on_conf_effect [OF that]) (erule one, simp, erule set_redis_effect)
  show "ngx_conf_args_ok core NGX_CONF_TAKE1 (length args) \<Longrightarrow> effect core ''auth_webauthn_redis_password'' args (c, h) blk"
    if "on_conf (ngx_http_auth_webauthn_conf_set_redis_password (core_env core) pool (hd args)) (c, h) = (NGX_CONF_OK, blk)"
    by (rule on_conf_effect [OF that]) (erule one, simp, erule set_redis_password_effect)
  show "ngx_conf_args_ok core NGX_CONF_TAKE1 (length args) \<Longrightarrow> effect core ''auth_webauthn_jwt_alg'' args (c, h) blk"
    if "on_conf (ngx_http_auth_webauthn_conf_set_jwt_alg (hd args)) (c, h) = (NGX_CONF_OK, blk)"
    by (rule on_conf_effect [OF that]) (erule one, simp, erule set_jwt_alg_effect)
  show "ngx_conf_args_ok core NGX_CONF_TAKE2 (length args) \<Longrightarrow> effect core ''auth_webauthn_set_header'' args (c, h) blk"
    if "on_conf (ngx_http_auth_webauthn_conf_set_set_header (ngx_http_compile_complex_value core) pool (hd args) (args ! 1)) (c, h)
        = (NGX_CONF_OK, blk)"
    by (rule on_conf_effect [OF that]) (erule two, erule set_header_effect)
  show "ngx_conf_args_ok core NGX_CONF_FLAG (length args) \<Longrightarrow> effect core ''auth_webauthn_challenge_handler'' args (c, h) blk"
    if "ngx_http_auth_webauthn_conf_set_challenge_handler (core_env core) (hd args) c h = (NGX_CONF_OK, blk)"
    using set_handler_effect(1) [OF fl that] one [of NGX_CONF_FLAG] by simp
  show "ngx_conf_args_ok core NGX_CONF_FLAG (length args) \<Longrightarrow> effect core ''auth_webauthn_verify_handler'' args (c, h) blk"
    if "ngx_http_auth_webauthn_conf_set_verify_handler (core_env core) (hd args) c h = (NGX_CONF_OK, blk)"
    using set_handler_effect(2) [OF fl that] one [of NGX_CONF_FLAG] by simp
qed

text \<open>The table implements the meaning of the directives.\<close>

lemma command_effect:
  assumes "core_law core" and "cmd \<in> set (ngx_http_auth_webauthn_commands core pool)"
    and "ngx_conf_args_ok core (cmd_args cmd) (length args)" and "cmd_set cmd args (c, h) = (NGX_CONF_OK, blk)"
  shows "effect core (cmd_name cmd) args (c, h) blk"
proof -
  have sl: "slot_law (ngx_conf_set_str_slot core) (=)" "slot_law (ngx_conf_set_sec_slot core) (\<lambda>v t. 0 \<le>s t)"
    "slot_law (ngx_conf_set_num_slot core) (\<lambda>v n. n < 2 ^ 63)" "slot_law (ngx_conf_set_msec_slot core) (\<lambda>v n. n < 2 ^ 63)"
    "slot_law (ngx_conf_set_flag_slot (core_env core)) flag_means" "slot_law (ngx_conf_set_enum_slot core e) (enum_means e)" for e
    using assms(1) unfolding core_law_def by blast+
  note slots = slot_effect [OF _ _ assms(1) sl(1)] slot_effect [OF _ _ assms(1) sl(2)] slot_effect [OF _ _ assms(1) sl(3)]
    slot_effect [OF _ _ assms(1) sl(4)] slot_effect [OF _ _ assms(1) sl(5)] slot_effect [OF _ _ assms(1) sl(6)]
  have "list_all (\<lambda>cmd. ngx_conf_args_ok core (cmd_args cmd) (length args) \<longrightarrow> cmd_set cmd args (c, h) = (NGX_CONF_OK, blk)
      \<longrightarrow> effect core (cmd_name cmd) args (c, h) blk) (ngx_http_auth_webauthn_commands core pool)"
    unfolding ngx_http_auth_webauthn_commands_def Let_def list.pred_inject simp_thms ngx_command.simps prod.case
    by (intro conjI impI; (erule (1) parser_effect [OF assms(1)]
        | (erule (1) slots, simp, force intro: effect.intros dest: enum_effect) | simp))
  then show ?thesis using assms(2-4) unfolding list_all_iff by blast
qed

lemma parsed_effect:
  assumes "parsed core b ds blk" and "core_law core"
    and "P [] (raw_conf_unset, None)"
    and "\<And>ds name args blk blk'. parsed core b ds blk \<Longrightarrow> P ds blk \<Longrightarrow> effect core name args blk blk' \<Longrightarrow> P (ds @ [(name, args)]) blk'"
  shows "P ds blk"
  using assms(1)
proof induction
  case (opened pool conf)
  then have "conf = raw_conf_unset"
    by (simp add: ngx_http_auth_webauthn_module_ctx_def ngx_http_auth_webauthn_create_loc_conf_def split: if_splits)
  with assms(3) show ?case by simp
next
  case (directive ds blk cmd pool args blk')
  obtain c h where blk: "blk = (c, h)" by fastforce
  from command_effect [OF assms(2) directive.hyps(2,4,5) [unfolded blk]] directive.hyps(1) directive.IH
  show ?case unfolding blk by (rule assms(4) [rotated 2])
qed

lemma endpoint_wf_simps [simp]: "endpoint_wf None None" "h \<noteq> [] \<Longrightarrow> 1 \<le> p \<Longrightarrow> p \<le> 65535 \<Longrightarrow> endpoint_wf (Some h) (Some p)"
  by (simp_all add: endpoint_wf_def)

lemma alg_wf_simps [simp]: "alg_wf None None"
  "v = ''HS256'' \<or> v = ''RS256'' \<or> v = ''ES256'' \<Longrightarrow>
   alg_wf (Some v) (Some (if v = ''HS256'' then NGX_AUTH_WEBAUTHN_JWT_HMAC else NGX_AUTH_WEBAUTHN_JWT_ASYM))"
  by (auto simp: alg_wf_def)

lemma effect_wf: "effect core name args blk blk' \<Longrightarrow> block_wf (core_env core) blk \<Longrightarrow> block_wf (core_env core) blk'"
  by (induction rule: effect.induct) (simp_all add: block_wf_def raw_wf_def)

lemma parsed_wf:
  assumes "parsed core b ds blk" and "core_law core"
  shows "block_wf (core_env core) blk"
  using assms
proof (rule parsed_effect)
  show "block_wf (core_env core) (raw_conf_unset, None)" by (simp add: block_wf_def raw_wf_def raw_conf_unset_def)
qed (rule effect_wf)

lemma given_simps [simp]: "given name [] = []"
  "given name (ds @ [(n, args)]) = given name ds @ (if n = name then [args] else [])"
  by (simp_all add: given_def)

lemma reflects_simps [simp]: "reflects means None args \<longleftrightarrow> args = []" "reflects means (Some y) args \<longleftrightarrow> (\<exists>v. args = [[v]] \<and> means y v)"
  by (simp_all add: reflects_def)

lemma effect_strings:
  "effect core name args blk blk' \<Longrightarrow> \<forall>(n, get) \<in> set string_fields. reflects (=) (get (fst blk)) (given n ds) \<Longrightarrow>
   \<forall>(n, get) \<in> set string_fields. reflects (=) (get (fst blk')) (given n (ds @ [(name, args)]))"
  by (induction rule: effect.induct) (simp_all add: string_fields_def)

lemma effect_flags:
  "effect core name args blk blk' \<Longrightarrow> \<forall>(n, get) \<in> set flag_fields. reflects (\<lambda>b v. flag_means v b) (get (fst blk)) (given n ds) \<Longrightarrow>
   \<forall>(n, get) \<in> set flag_fields. reflects (\<lambda>b v. flag_means v b) (get (fst blk')) (given n (ds @ [(name, args)]))"
  by (induction rule: effect.induct) (simp_all add: flag_fields_def)

lemma effect_lists:
  "effect core name args blk blk' \<Longrightarrow>
   list_reflects (\<lambda>os. os) (rw_origins (fst blk)) (concat (given ''auth_webauthn_origin'' ds))
     \<and> list_reflects (map hdr_name) (rw_set_headers (fst blk)) (map hd (given ''auth_webauthn_set_header'' ds)) \<Longrightarrow>
   list_reflects (\<lambda>os. os) (rw_origins (fst blk')) (concat (given ''auth_webauthn_origin'' (ds @ [(name, args)])))
     \<and> list_reflects (map hdr_name) (rw_set_headers (fst blk')) (map hd (given ''auth_webauthn_set_header'' (ds @ [(name, args)])))"
  by (induction rule: effect.induct) (simp_all add: list_reflects_def, auto split: option.splits)

text \<open>A merge that succeeds: the fields are merged, and at most the key is added to them.\<close>

lemma merge_OK:
  assumes "ngx_http_auth_webauthn_merge_loc_conf env pool prev conf = (NGX_CONF_OK, c)"
  obtains (kept) "c = merge_fields prev conf"
      "\<not> ((the (rw_auth c) \<or> the (rw_verify_handler c)) \<and> the (rw_jwt_secret c) = [] \<and> the (rw_jwt_secret_file c) \<noteq> [])"
    | (loaded) secret pub where "c = (merge_fields prev conf)\<lparr> rw_jwt_secret := Some secret, rw_jwt_pub_pem := Some pub \<rparr>"
      "key_loaded env (the (rw_jwt_alg_family c)) secret pub" "the (rw_jwt_secret (merge_fields prev conf)) = []"
proof -
  define m where "m = merge_fields prev conf"
  have "rw_jwt_pub_pem m \<noteq> None" by (simp add: m_def merge_fields_def)
  then obtain p where p: "rw_jwt_pub_pem m = Some p" by blast
  have pub: "m\<lparr> rw_jwt_secret := s \<rparr> = m\<lparr> rw_jwt_secret := s, rw_jwt_pub_pem := Some p \<rparr>" for s using p by (cases m) simp
  let ?load = "(the (rw_auth m) \<or> the (rw_verify_handler m)) \<and> the (rw_jwt_secret m) = [] \<and> the (rw_jwt_secret_file m) \<noteq> []"
  show thesis
  proof (cases ?load)
    case False
    with assms have "c = m" by (simp add: ngx_http_auth_webauthn_merge_loc_conf_def m_def [symmetric] split: if_splits)
    with False m_def show thesis by (intro kept) simp_all
  next
    case True
    obtain f where "ngx_http_auth_webauthn_read_file env pool (the (rw_jwt_secret_file m)) = Some f"
      using assms True by (auto simp: ngx_http_auth_webauthn_merge_loc_conf_def m_def [symmetric] split: option.splits)
    note e = assms [unfolded ngx_http_auth_webauthn_merge_loc_conf_def Let_def m_def [symmetric]]
    show thesis
    proof (cases "the (rw_jwt_alg_family m) = NGX_AUTH_WEBAUTHN_JWT_HMAC")
      case hmac: True
      with e True \<open>_ = Some f\<close> have "c = m\<lparr> rw_jwt_secret := Some (ngx_http_auth_webauthn_chomp f) \<rparr>" "32 \<le> length (ngx_http_auth_webauthn_chomp f)"
        by (simp_all split: if_splits)
      with hmac True m_def pub show thesis by (intro loaded [where secret = "ngx_http_auth_webauthn_chomp f" and pub = p]) (simp_all add: key_loaded_def)
    next
      case asym: False
      with e True \<open>_ = Some f\<close> obtain pem where "ngx_http_auth_webauthn_derive_pub_pem env pool f = Some pem"
        "c = m\<lparr> rw_jwt_secret := Some f, rw_jwt_pub_pem := Some pem \<rparr>" by (auto split: option.splits)
      with asym True m_def show thesis
        by (intro loaded [where secret = f and pub = pem]) (auto simp: key_loaded_def pem_pair_def ngx_http_auth_webauthn_derive_pub_pem_def split: option.splits if_splits)
    qed
  qed
qed

lemma merge_value_pred [simp]: "pred_option P a \<Longrightarrow> pred_option P b \<Longrightarrow> P d \<Longrightarrow> pred_option P (merge_value a b d)"
  by (cases a; cases b) (simp_all add: merge_value_def)

lemma merge_endpoint_wf: "endpoint_wf h p \<Longrightarrow> endpoint_wf h' p' \<Longrightarrow> endpoint_wf (merge_value h h' []) (merge_value p p' 0)"
  by (auto simp: merge_value_def endpoint_wf_def split: option.splits)

lemma merge_alg_wf:
  "alg_wf a f \<Longrightarrow> alg_wf a' f' \<Longrightarrow> alg_wf (merge_value a a' ''HS256'') (merge_value f f' NGX_AUTH_WEBAUTHN_JWT_HMAC)"
  by (auto simp: merge_value_def alg_wf_def split: option.splits)

lemma merge_fields_wf: "raw_wf env prev \<Longrightarrow> raw_wf env conf \<Longrightarrow> raw_wf env (merge_fields prev conf)"
proof -
  have w: "(0 :: time_t) <s 60" "(0 :: time_t) \<le>s 60" "(0 :: time_t) \<le>s 3600" by code_simp+
  show "raw_wf env prev \<Longrightarrow> raw_wf env conf \<Longrightarrow> raw_wf env (merge_fields prev conf)"
    unfolding raw_wf_def merge_fields_def by (simp add: w merge_endpoint_wf merge_alg_wf)
qed

lemma merge_wf:
  assumes "ngx_http_auth_webauthn_merge_loc_conf env pool prev conf = (NGX_CONF_OK, c)" and "raw_wf env prev" and "raw_wf env conf"
  shows "raw_wf env c \<and> all_set c"
  using assms(1)
proof (cases rule: merge_OK)
  case kept
  then show ?thesis using merge_fields_wf [OF assms(2,3)] by (simp add: all_set_def merge_fields_def)
next
  case (loaded secret pub)
  from loaded(2) have "32 \<le> length secret \<or> PEM_read_bio_PrivateKey env secret \<noteq> None"
    by (auto simp: key_loaded_def pem_pair_def split: if_splits)
  with loaded(1) merge_fields_wf [OF assms(2,3)] show ?thesis by (simp add: raw_wf_def) (simp add: all_set_def merge_fields_def)
qed

lemma in_force_induct:
  assumes "in_force ok core b (c, h)" and "core_law core"
    and "\<And>c h. block_wf (core_env core) (c, h) \<Longrightarrow> P NGX_HTTP_MAIN_CONF c h"
    and "\<And>b0 b pool prev h0 conf c h. P b0 prev h0 \<Longrightarrow> block_wf (core_env core) (conf, h) \<Longrightarrow> ok prev conf \<Longrightarrow>
      ngx_http_auth_webauthn_merge_loc_conf (core_env core) pool prev conf = (NGX_CONF_OK, c) \<Longrightarrow> b \<noteq> NGX_HTTP_MAIN_CONF \<Longrightarrow> P b c h"
  shows "P b c h"
  using assms(1)
proof (induction b "(c, h)" arbitrary: c h rule: in_force.induct)
  case (http ds)
  then show ?case using parsed_wf [OF _ assms(2)] assms(3) by blast
next
  case (server prev h0 ds conf h pool c)
  then show ?case using parsed_wf [OF server.hyps(3) assms(2)]
    by (intro assms(4) [OF server.hyps(2)]) (simp_all add: ngx_http_auth_webauthn_module_ctx_def)
next
  case (location b prev h0 ds conf h pool c)
  then show ?case using parsed_wf [OF location.hyps(4) assms(2)]
    by (intro assms(4) [OF location.hyps(2)]) (simp_all add: ngx_http_auth_webauthn_module_ctx_def)
qed

lemma in_force_wf:
  assumes "in_force ok core b (c, h)" and "core_law core"
  shows "raw_wf (core_env core) c \<and> (b \<noteq> NGX_HTTP_MAIN_CONF \<longrightarrow> all_set c)
     \<and> (h = Some Challenge_content \<longrightarrow> rw_challenge_handler c = Some True) \<and> (h = Some Verify_content \<longrightarrow> rw_verify_handler c = Some True)"
  using assms
proof (rule in_force_induct)
  fix b0 b pool h0 h and prev conf c :: "'a raw_conf"
  assume "raw_wf (core_env core) prev \<and> (b0 \<noteq> NGX_HTTP_MAIN_CONF \<longrightarrow> all_set prev)
     \<and> (h0 = Some Challenge_content \<longrightarrow> rw_challenge_handler prev = Some True) \<and> (h0 = Some Verify_content \<longrightarrow> rw_verify_handler prev = Some True)"
    and blk: "block_wf (core_env core) (conf, h)"
    and m: "ngx_http_auth_webauthn_merge_loc_conf (core_env core) pool prev conf = (NGX_CONF_OK, c)"
  with merge_wf [OF m] have "raw_wf (core_env core) c \<and> all_set c" by (simp add: block_wf_def)
  moreover have "rw_challenge_handler c = merge_value (rw_challenge_handler conf) (rw_challenge_handler prev) False"
    "rw_verify_handler c = merge_value (rw_verify_handler conf) (rw_verify_handler prev) False"
    using m by (cases rule: merge_OK; simp add: merge_fields_def)+
  ultimately show "raw_wf (core_env core) c \<and> (b \<noteq> NGX_HTTP_MAIN_CONF \<longrightarrow> all_set c)
     \<and> (h = Some Challenge_content \<longrightarrow> rw_challenge_handler c = Some True) \<and> (h = Some Verify_content \<longrightarrow> rw_verify_handler c = Some True)"
    using blk by (auto simp: block_wf_def)
qed (simp add: block_wf_def)

text \<open>While the algorithm is kept, a loaded key fits the algorithm in force.\<close>

lemma in_force_key:
  assumes "in_force alg_kept core b (c, h)" and "core_law core"
  shows "key_fits (core_env core) c"
  using assms
proof (rule in_force_induct)
  fix pool and prev conf c :: "'a raw_conf" and h
  assume IH: "key_fits (core_env core) prev" and blk: "block_wf (core_env core) (conf, h)" and kept: "alg_kept prev conf"
    and m: "ngx_http_auth_webauthn_merge_loc_conf (core_env core) pool prev conf = (NGX_CONF_OK, c)"
  from blk have c: "rw_jwt_secret conf = None" "rw_jwt_pub_pem conf = None" "rw_jwt_alg_family conf = map_option alg_family (rw_jwt_alg conf)"
    by (simp_all add: block_wf_def raw_wf_def alg_wf_def)
  from m show "key_fits (core_env core) c"
  proof (cases rule: merge_OK)
    case kept': kept
    have e: "rw_jwt_secret c = merge_value None (rw_jwt_secret prev) []" "rw_jwt_pub_pem c = merge_value None (rw_jwt_pub_pem prev) []"
      "rw_jwt_alg_family c = merge_value (map_option alg_family (rw_jwt_alg conf)) (rw_jwt_alg_family prev) NGX_AUTH_WEBAUTHN_JWT_HMAC"
      unfolding kept'(1) by (simp_all add: merge_fields_def c)
    show ?thesis
    proof (cases "rw_jwt_secret prev = None \<or> rw_jwt_secret prev = Some []")
      case True
      then have "rw_jwt_secret c = Some []" by (auto simp: e(1) merge_value_def)
      then show ?thesis by (simp add: key_fits_def e(2,3))
    next
      case False
      with kept IH show ?thesis by (auto simp: alg_kept_def key_fits_def e merge_value_def)
    qed
  next
    case (loaded secret pub)
    have "rw_jwt_alg_family (merge_fields prev conf) \<noteq> None" by (simp add: merge_fields_def)
    with loaded show ?thesis by (simp add: key_fits_def)
  qed
qed (simp add: block_wf_def key_fits_def)

lemma in_force_secret:
  assumes "in_force ok core b (c, h)" and "core_law core" and "b \<noteq> NGX_HTTP_MAIN_CONF"
    and "rw_auth c = Some True \<or> rw_verify_handler c = Some True" and "the (rw_jwt_secret_file c) \<noteq> []"
  shows "the (rw_jwt_secret c) \<noteq> [] \<or> (\<exists>f pub. key_loaded (core_env core) f (the (rw_jwt_secret c)) pub)"
proof -
  obtain pool prev conf where "ngx_http_auth_webauthn_merge_loc_conf (core_env core) pool prev conf = (NGX_CONF_OK, c)"
    using assms(1,3) by (cases rule: in_force.cases) (simp_all add: ngx_http_auth_webauthn_module_ctx_def)
  then show ?thesis
  proof (cases rule: merge_OK)
    case kept
    with assms(4,5) show ?thesis by auto
  next
    case (loaded secret pub)
    then show ?thesis by auto
  qed
qed

section \<open>Properties\<close>

text \<open>C17: every accepted configuration is well typed. Whatever directives stand in the \<open>http\<close>, server and (nested) location
  blocks, if nginx accepts the file then the configuration a request handler sees has no unset field, and its fields
  have usable values: Redis is either not configured or a non-empty host with a port from 1 to 65535, the token algorithm is one of
  the three supported ones and its family is the matching one, the rate-limit window is positive and the lifetimes are not
  negative, counts and numbers fit a signed word, a list of origins or headers is not empty, and the signing key is absent, at least 32 bytes long, or a
  PEM private key. A content handler is installed only where its flag is on.\<close>

theorem configuration_wf:
  assumes "core_law core" and "in_force (\<lambda>_ _. True) core b (c, h)" and "b \<noteq> NGX_HTTP_MAIN_CONF"
  shows "all_set c \<and> raw_wf (core_env core) c
     \<and> (h = Some Challenge_content \<longrightarrow> rw_challenge_handler c = Some True) \<and> (h = Some Verify_content \<longrightarrow> rw_verify_handler c = Some True)"
  using in_force_wf [OF assms(2,1)] assms(3) by blast

text \<open>An nginx core for the examples.\<close>

definition once :: "(bytes \<Rightarrow> 'a option) \<Rightarrow> bytes \<Rightarrow> 'a option \<Rightarrow> conf_rv \<times> 'a option" where
  "once parse v old =
     (if old \<noteq> None then (Conf_msg ''is duplicate'', old)
      else case parse v of None \<Rightarrow> (Conf_msg ''invalid value'', old) | Some x \<Rightarrow> (NGX_CONF_OK, Some x))"

fun ex_args_ok :: "conf_args \<Rightarrow> nat \<Rightarrow> bool" where
  "ex_args_ok NGX_CONF_TAKE2 n = (n = 2)"
| "ex_args_ok NGX_CONF_TAKE12 n = (n = 1 \<or> n = 2)"
| "ex_args_ok NGX_CONF_1MORE n = (1 \<le> n)"
| "ex_args_ok _ n = (n = 1)"

definition ex_core :: "(nat, bytes, unit) conf_core" where
  "ex_core = \<lparr> core_env = ex_env, ngx_conf_set_str_slot = once Some, ngx_conf_set_sec_slot = once (\<lambda>v. if v = ''60'' then Some 60 else None),
     ngx_conf_set_num_slot = once (\<lambda>v. if v = ''1'' then Some 1 else None), ngx_conf_set_msec_slot = once (\<lambda>v. if v = ''100'' then Some 100 else None),
     ngx_conf_set_enum_slot = (\<lambda>e. once (\<lambda>v. map_of e v)), ngx_http_compile_complex_value = (\<lambda>_. Some ()), ngx_conf_args_ok = ex_args_ok \<rparr>"

lemma once_law: "(\<And>v x. parse v = Some x \<Longrightarrow> means v x) \<Longrightarrow> slot_law (once parse) means"
  by (auto simp: slot_law_def once_def split: if_splits option.splits)

lemma ex_core_law: "core_law ex_core"
proof -
  have "slot_law (ngx_conf_set_flag_slot ex_env) flag_means"
  proof -
    have "ngx_strlow ''on'' = ''on''" "ngx_strlow ''off'' = ''off''" by code_simp+
    then show ?thesis by (auto simp: slot_law_def ex_env_def flag_means_def split: if_splits)
  qed
  moreover have "(0 :: time_t) \<le>s 60" by code_simp
  ultimately show ?thesis unfolding core_law_def
    by (simp add: ex_core_def once_law)
      (force simp: ex_env_def enum_means_def intro!: once_law dest: map_of_SomeD split: if_splits)
qed

text \<open>A server with a key file and the gate on, in an empty \<open>http\<close> block.\<close>

definition ex_directives :: "(bytes \<times> bytes list) list" where
  "ex_directives = [(''auth_webauthn_jwt_secret_file'', [''k'']), (''auth_webauthn'', [''on''])]"

lemma ex_opened: "parsed ex_core b [] (raw_conf_unset, None)"
  by (rule parsed.opened [of ex_pool]) (simp add: ngx_http_auth_webauthn_module_ctx_def ngx_http_auth_webauthn_create_loc_conf_def)

lemma ex_commands:
  "\<lparr> cmd_name = ''auth_webauthn_jwt_secret_file'', cmd_blocks = any_block, cmd_args = NGX_CONF_TAKE1,
      cmd_set = slot_at (ngx_conf_set_str_slot core) rw_jwt_secret_file (\<lambda>x. rw_jwt_secret_file_update (\<lambda>_. x)) \<rparr>
    \<in> set (ngx_http_auth_webauthn_commands core pool)"
  "\<lparr> cmd_name = ''auth_webauthn'', cmd_blocks = [NGX_HTTP_SRV_CONF, NGX_HTTP_LOC_CONF], cmd_args = NGX_CONF_FLAG,
      cmd_set = slot_at (ngx_conf_set_flag_slot (core_env core)) rw_auth (\<lambda>x. rw_auth_update (\<lambda>_. x)) \<rparr>
    \<in> set (ngx_http_auth_webauthn_commands core pool)"
  unfolding ngx_http_auth_webauthn_commands_def Let_def list.set by (rule insertI1 | rule insertI2)+

lemma parsed_slot:
  assumes "parsed core b ds (c, h)"
    and "\<lparr> cmd_name = n, cmd_blocks = bs, cmd_args = a, cmd_set = slot_at slot get put \<rparr> \<in> set (ngx_http_auth_webauthn_commands core pool)"
    and "b \<in> set bs" and "ngx_conf_args_ok core a 1" and "slot v (get c) = (NGX_CONF_OK, x)"
  shows "parsed core b (ds @ [(n, [v])]) (put x c, h)"
  using parsed.directive [OF assms(1,2), of "[v]" "(put x c, h)"] assms(3-5) by (simp add: slot_at_def)

lemma ex_parsed: "parsed ex_core NGX_HTTP_SRV_CONF ex_directives (ex_raw, None)"
proof -
  have 1: "parsed ex_core NGX_HTTP_SRV_CONF ([] @ [(''auth_webauthn_jwt_secret_file'', [''k''])])
      (raw_conf_unset\<lparr> rw_jwt_secret_file := Some ''k'' \<rparr>, None)"
    by (rule parsed_slot [OF ex_opened ex_commands(1)]) (simp_all add: ex_core_def once_def raw_conf_unset_def)
  have "parsed ex_core NGX_HTTP_SRV_CONF (([] @ [(''auth_webauthn_jwt_secret_file'', [''k''])]) @ [(''auth_webauthn'', [''on''])])
      (raw_conf_unset\<lparr> rw_jwt_secret_file := Some ''k'', rw_auth := Some True \<rparr>, None)"
    by (rule parsed_slot [OF 1 ex_commands(2)]) (simp_all add: ex_core_def ex_env_def raw_conf_unset_def)
  then show ?thesis by (simp add: ex_directives_def ex_raw_def raw_conf_unset_def)
qed

lemma ex_in_force:
  "in_force ok ex_core NGX_HTTP_SRV_CONF ((merge_fields raw_conf_unset ex_raw)\<lparr> rw_jwt_secret := Some (replicate 32 (CHR ''s'')) \<rparr>, None)"
  if "ok raw_conf_unset ex_raw"
  by (rule in_force.server [where ok = ok and pool = ex_pool, OF in_force.http [OF ex_opened] ex_parsed that])
    (simp add: ngx_http_auth_webauthn_module_ctx_def ex_core_def ex_merge)

theorem configuration_wf_witness:
  "\<exists>c :: unit raw_conf. in_force (\<lambda>_ _. True) ex_core NGX_HTTP_SRV_CONF (c, None) \<and> all_set c \<and> raw_wf (core_env ex_core) c"
  using configuration_wf [OF ex_core_law ex_in_force [OF TrueI]] ex_in_force [OF TrueI] by blast





text \<open>Without \<open>alg_kept\<close> the key need not fit: a location that turns to ES256 or RS256 below a level whose HMAC secret is loaded is
  accepted with that secret and no public key, so that it can neither sign nor check a token.\<close>

lemma inner_alg_misfit:
  assumes "rw_jwt_secret prev = Some secret" and "secret \<noteq> []" and "rw_jwt_pub_pem prev = Some []"
    and "rw_jwt_secret conf = None" and "rw_jwt_pub_pem conf = None" and "rw_jwt_alg_family conf = Some NGX_AUTH_WEBAUTHN_JWT_ASYM"
  shows "\<exists>c. ngx_http_auth_webauthn_merge_loc_conf env pool prev conf = (NGX_CONF_OK, c) \<and> rw_jwt_secret c = Some secret
     \<and> rw_jwt_pub_pem c = Some [] \<and> rw_jwt_alg_family c = Some NGX_AUTH_WEBAUTHN_JWT_ASYM"
  using assms by (simp add: ngx_http_auth_webauthn_merge_loc_conf_def merge_fields_def merge_value_def)

end
