(* ===== verification/Admin.thy ===== *)
theory Admin
  imports Redis_Reliable Attestation
begin

text \<open>
  What the subcommands of \<open>auth-webauthn-admin\<close> share (\<open>tools/admin/auth_webauthn_admin_main.c\<close> and
  \<open>auth_webauthn_admin.h\<close>): the context, reading a file, the common options, the connection, and the
  display of algorithms and times. Of the C library, \<open>strtol\<close>, \<open>strrchr\<close>, \<open>fread\<close>, \<open>gmtime_r\<close>, \<open>strftime\<close> and
  \<open>getopt_long\<close> are modelled as far as the tool uses them (the messages \<open>getopt_long\<close> prints itself are not); opening a file is a parameter.
\<close>

section \<open>State\<close>

definition AUTH_WEBAUTHN_ADMIN_TIMEOUT_MS :: nat where "AUTH_WEBAUTHN_ADMIN_TIMEOUT_MS = 100"

definition AUTH_WEBAUTHN_ADMIN_FILE_MAX :: nat where "AUTH_WEBAUTHN_ADMIN_FILE_MAX = 16 * 1024 * 1024"

definition AUTH_WEBAUTHN_ADMIN_READ_CHUNK :: nat where "AUTH_WEBAUTHN_ADMIN_READ_CHUNK = 65536"

datatype admin_exit = AUTH_WEBAUTHN_ADMIN_EX_OK | AUTH_WEBAUTHN_ADMIN_EX_FAIL | AUTH_WEBAUTHN_ADMIN_EX_USAGE

record admin_ctx =
  ax_redis_host :: bytes
  ax_redis_port :: int
  ax_redis_password :: bytes
  ax_redis_db :: nat
  ax_redis_timeout_ms :: nat
  ax_key_prefix :: bytes

definition ngx_auth_webauthn_admin_default_prefix :: bytes where
  "ngx_auth_webauthn_admin_default_prefix = ''webauthn:''"

definition admin_ctx_init :: admin_ctx where
  "admin_ctx_init =
     \<lparr> ax_redis_host = [], ax_redis_port = 0, ax_redis_password = [], ax_redis_db = 0,
       ax_redis_timeout_ms = AUTH_WEBAUTHN_ADMIN_TIMEOUT_MS, ax_key_prefix = ngx_auth_webauthn_admin_default_prefix \<rparr>"

text \<open>An open file: the bytes that can still be read, and whether reading then fails.\<close>

type_synonym stream = "bytes \<times> bool"

text \<open>The process: standard input, what was printed, and the Redis side.\<close>

record 's world =
  w_stdin :: stream
  w_out :: bytes
  w_err :: bytes
  w_srv :: 's

definition print :: "bytes \<Rightarrow> 's world \<Rightarrow> 's world" where
  "print msg w = w\<lparr> w_out := w_out w @ msg \<rparr>"

definition line :: "bytes \<Rightarrow> bytes" where
  "line s = s @ [CHR 0x0A]"

definition eprints :: "bytes \<Rightarrow> 's world \<Rightarrow> 's world" where
  "eprints msg w = w\<lparr> w_err := w_err w @ msg \<rparr>"

definition eprint :: "bytes \<Rightarrow> 's world \<Rightarrow> 's world" where
  "eprint msg w = eprints (line msg) w"

definition quoted :: "bytes \<Rightarrow> bytes" where
  "quoted s = [CHR 0x27] @ s @ [CHR 0x27]"

section \<open>Display\<close>

definition auth_webauthn_admin_alg_name :: "32 word \<Rightarrow> bytes" where
  "auth_webauthn_admin_alg_name alg =
     (if scast alg = COSE_ALG_ES256 then ''ES256''
      else if scast alg = COSE_ALG_EDDSA then ''EdDSA''
      else if scast alg = COSE_ALG_RS256 then ''RS256''
      else ''unknown'')"

text \<open>\<open>gmtime_r\<close>: the date of a day count, by years and then by months.\<close>

definition leap :: "nat \<Rightarrow> bool" where
  "leap y \<longleftrightarrow> 4 dvd y \<and> (\<not> 100 dvd y \<or> 400 dvd y)"

definition year_days :: "nat \<Rightarrow> nat" where
  "year_days y = (if leap y then 366 else 365)"

definition month_days :: "nat \<Rightarrow> nat list" where
  "month_days y = [31, if leap y then 29 else 28, 31, 30, 31, 30, 31, 31, 30, 31, 30, 31]"

function year_of :: "nat \<Rightarrow> nat \<Rightarrow> nat \<times> nat" where
  "year_of y d = (if d < year_days y then (y, d) else year_of (y + 1) (d - year_days y))"
  by pat_completeness auto
termination by (relation "measure snd") (auto simp: year_days_def)

declare year_of.simps [simp del]

fun month_of :: "nat list \<Rightarrow> nat \<Rightarrow> nat \<Rightarrow> nat \<times> nat" where
  "month_of [] m d = (m, d + 1)"
| "month_of (n # ns) m d = (if d < n then (m, d + 1) else month_of ns (m + 1) (d - n))"

record tm =
  tm_y :: nat
  tm_m :: nat
  tm_d :: nat
  tm_H :: nat
  tm_M :: nat
  tm_S :: nat

text \<open>\<open>NULL\<close> when the year does not fit \<open>tm_year\<close>.\<close>

definition gmtime :: "nat \<Rightarrow> tm option" where
  "gmtime t =
     (let (y, yd) = year_of 1970 (t div 86400); (m, d) = month_of (month_days y) 1 yd; s = t mod 86400 in
      if y \<ge> 1900 + 2 ^ 31 then None
      else Some \<lparr> tm_y = y, tm_m = m, tm_d = d, tm_H = s div 3600, tm_M = s mod 3600 div 60, tm_S = s mod 60 \<rparr>)"

definition two :: "nat \<Rightarrow> bytes" where
  "two n = (if n < 10 then [CHR ''0''] else []) @ show_nat n"

definition iso_time :: "tm \<Rightarrow> bytes" where
  "iso_time tm = show_nat (tm_y tm) @ ''-'' @ two (tm_m tm) @ ''-'' @ two (tm_d tm) @ ''T'' @ two (tm_H tm) @ '':''
     @ two (tm_M tm) @ '':'' @ two (tm_S tm) @ ''Z''"

text \<open>\<open>strftime\<close> with \<open>%Y-%m-%dT%H:%M:%SZ\<close> returns 0 when the text and its terminator do not fit.\<close>

definition auth_webauthn_admin_fmt_time :: "64 word \<Rightarrow> nat \<Rightarrow> bytes" where
  "auth_webauthn_admin_fmt_time t n =
     (if t \<le>s 0 then ''-''
      else
        case gmtime (nat (sint t)) of
          None \<Rightarrow> ''-''
        | Some tm \<Rightarrow> if length (iso_time tm) \<ge> n then ''-'' else iso_time tm)"

section \<open>Reading a file\<close>

datatype read_error = Exceeds | No_memory | Read_failed

text \<open>The \<open>for\<close> loop; \<open>buf\<close> holds what was read so far. \<open>fread\<close> returns as many bytes as were asked for unless the
  file ends or fails first.\<close>

function read_loop :: "ngx_pool_t \<Rightarrow> nat \<Rightarrow> bytes \<Rightarrow> stream \<Rightarrow> (read_error + bytes \<times> nat) \<times> stream" where
  "read_loop pool cap buf fp =
     (case (if length buf = cap then
              if cap \<ge> AUTH_WEBAUTHN_ADMIN_FILE_MAX then Inl Exceeds
              else if \<not> pool ''nbuf'' (cap * 2) then Inl No_memory
              else Inr (cap * 2)
            else Inr cap) of
        Inl e \<Rightarrow> (Inl e, fp)
      | Inr cap \<Rightarrow>
          let n = min (cap - length buf) (length (fst fp)) in
          if n = 0 then (if snd fp then Inl Read_failed else Inr (buf, cap), fp)
          else read_loop pool cap (buf @ take n (fst fp)) (drop n (fst fp), snd fp))"
  by pat_completeness auto
termination by (relation "measure (\<lambda>(pool, cap, buf, fp). length (fst fp))") auto

declare read_loop.simps [simp del]

definition auth_webauthn_admin_read_file ::
    "ngx_pool_t \<Rightarrow> (bytes \<Rightarrow> stream option) \<Rightarrow> bytes \<Rightarrow> 's world \<Rightarrow> bytes option \<times> 's world" where
  "auth_webauthn_admin_read_file pool fopen path w =
     (case (if path = ''-'' then Some (w_stdin w) else fopen path) of
        None \<Rightarrow> (None, eprint (''error: cannot open '' @ quoted path) w)
      | Some fp \<Rightarrow>
          if \<not> pool ''buf'' AUTH_WEBAUTHN_ADMIN_READ_CHUNK then (None, w)
          else
            let (r, fp) = read_loop pool AUTH_WEBAUTHN_ADMIN_READ_CHUNK [] fp;
                w' = (if path = ''-'' then w\<lparr> w_stdin := fp \<rparr> else w)
            in
            case r of
              Inl Exceeds \<Rightarrow> (None, eprint (''error: input exceeds '' @ show_nat AUTH_WEBAUTHN_ADMIN_FILE_MAX @ '' bytes'') w')
            | Inl No_memory \<Rightarrow> (None, w')
            | Inl Read_failed \<Rightarrow> (None, eprint (''error: read failed on '' @ quoted path) w')
            | Inr (buf, cap) \<Rightarrow>
                if length buf = cap \<and> \<not> pool ''nbuf'' (cap + 1) then (None, w')
                else (Some buf, w'))"

fun rev_chomp :: "bytes \<Rightarrow> bytes" where
  "rev_chomp [] = []"
| "rev_chomp (c # cs) = (if c = CHR 0x0A \<or> c = CHR 0x0D then rev_chomp cs else c # cs)"

text \<open>The loop shortens the string from its end.\<close>

definition ngx_auth_webauthn_admin_chomp :: "bytes \<Rightarrow> bytes" where
  "ngx_auth_webauthn_admin_chomp s = rev (rev_chomp (rev s))"

section \<open>Options\<close>

datatype admin_opt =
  AUTH_WEBAUTHN_ADMIN_OPT_REDIS | AUTH_WEBAUTHN_ADMIN_OPT_REDIS_PASSWORD | AUTH_WEBAUTHN_ADMIN_OPT_REDIS_DB
  | AUTH_WEBAUTHN_ADMIN_OPT_REDIS_TIMEOUT | AUTH_WEBAUTHN_ADMIN_OPT_KEY_PREFIX
  | OPT_USER_ID | OPT_RESPONSE_FILE | OPT_RP_ID | OPT_REQUIRE_ATTESTATION | OPT_ORIGIN | OPT_TRANSPORTS
  | OPT_CREDENTIAL_ID | Opt_help | Opt_error

text \<open>\<open>strtol\<close> in base 10: the value, clamped to a 64-bit \<open>long\<close>, and the rest of the string from \<open>*end\<close>.\<close>

definition is_space :: "char \<Rightarrow> bool" where
  "is_space c \<longleftrightarrow> c = CHR '' '' \<or> 9 \<le> (of_char c :: nat) \<and> (of_char c :: nat) \<le> 13"

definition strtol :: "bytes \<Rightarrow> int \<times> bytes" where
  "strtol s =
     (let t = dropWhile is_space s; sign = t \<noteq> [] \<and> (hd t = CHR ''-'' \<or> hd t = CHR ''+'');
          u = (if sign then tl t else t); ds = takeWhile is_digit u; n = int (read_nat 0 ds)
      in
      if ds = [] then (0, s)
      else (if sign \<and> hd t = CHR ''-'' then max (- (2 ^ 63)) (- n) else min (2 ^ 63 - 1) n, dropWhile is_digit u))"

text \<open>\<open>strrchr\<close> for a colon: what is before the last one, and what is after it.\<close>

fun last_colon :: "bytes \<Rightarrow> (bytes \<times> bytes) option" where
  "last_colon [] = None"
| "last_colon (c # cs) =
     (case last_colon cs of
        Some (a, b) \<Rightarrow> Some (c # a, b)
      | None \<Rightarrow> if c = CHR '':'' then Some ([], cs) else None)"

definition auth_webauthn_admin_parse_common_opt ::
    "ngx_pool_t \<Rightarrow> (bytes \<Rightarrow> stream option) \<Rightarrow> admin_ctx \<Rightarrow> admin_opt \<Rightarrow> bytes \<Rightarrow> 's world
     \<Rightarrow> ngx_int_t \<times> admin_ctx \<times> 's world" where
  "auth_webauthn_admin_parse_common_opt pool fopen ctx opt arg w =
     (case opt of
        AUTH_WEBAUTHN_ADMIN_OPT_REDIS \<Rightarrow>
          (case last_colon arg of
             None \<Rightarrow> (NGX_ERROR, ctx, eprint ''error: --redis expects <host>:<port>'' w)
           | Some (host, port) \<Rightarrow>
               if host = [] \<or> port = [] then (NGX_ERROR, ctx, eprint ''error: --redis expects <host>:<port>'' w)
               else
                 let ctx = ctx\<lparr> ax_redis_host := host \<rparr>; (v, rest) = strtol port in
                 if rest \<noteq> [] \<or> v \<le> 0 \<or> v > 65535 then (NGX_ERROR, ctx, eprint ''error: --redis port out of range'' w)
                 else (NGX_OK, ctx\<lparr> ax_redis_port := v \<rparr>, w))
      | AUTH_WEBAUTHN_ADMIN_OPT_REDIS_PASSWORD \<Rightarrow>
          if take 5 arg = ''file:'' then
            (case auth_webauthn_admin_read_file pool fopen (drop 5 arg) w of
               (None, w) \<Rightarrow> (NGX_ERROR, ctx, w)
             | (Some file, w) \<Rightarrow> (NGX_OK, ctx\<lparr> ax_redis_password := ngx_auth_webauthn_admin_chomp file \<rparr>, w))
          else (NGX_OK, ctx\<lparr> ax_redis_password := arg \<rparr>, w)
      | AUTH_WEBAUTHN_ADMIN_OPT_REDIS_DB \<Rightarrow>
          let (v, rest) = strtol arg in
          if rest \<noteq> [] \<or> v < 0 \<or> v > 65535 then (NGX_ERROR, ctx, eprint ''error: --redis-db out of range'' w)
          else (NGX_OK, ctx\<lparr> ax_redis_db := nat v \<rparr>, w)
      | AUTH_WEBAUTHN_ADMIN_OPT_REDIS_TIMEOUT \<Rightarrow>
          let (v, rest) = strtol arg in
          if rest \<noteq> [] \<or> v < 0 \<or> v > 600000 then (NGX_ERROR, ctx, eprint ''error: --redis-timeout out of range (ms)'' w)
          else (NGX_OK, ctx\<lparr> ax_redis_timeout_ms := nat v \<rparr>, w)
      | AUTH_WEBAUTHN_ADMIN_OPT_KEY_PREFIX \<Rightarrow> (NGX_OK, ctx\<lparr> ax_key_prefix := arg \<rparr>, w)
      | _ \<Rightarrow> (NGX_DECLINED, ctx, w))"

text \<open>\<open>getopt_long\<close> with the option string \<open>h\<close>: the options in the order they are returned. Operands are permuted to the
  end, \<open>--\<close> stops the scan, a long name may be abbreviated as long as it is unambiguous.\<close>

definition long_match :: "(bytes \<times> bool \<times> admin_opt) list \<Rightarrow> bytes \<Rightarrow> (bool \<times> admin_opt) option" where
  "long_match longopts name =
     (case map_of longopts name of
        Some x \<Rightarrow> Some x
      | None \<Rightarrow>
          (case filter (\<lambda>(n, x). take (length name) n = name) longopts of
             [(n, x)] \<Rightarrow> Some x
           | _ \<Rightarrow> None))"

definition short_opt :: "char \<Rightarrow> admin_opt \<times> bytes" where
  "short_opt c = (if c = CHR ''h'' then Opt_help else Opt_error, [])"

fun getopt_long :: "(bytes \<times> bool \<times> admin_opt) list \<Rightarrow> bytes list \<Rightarrow> (admin_opt \<times> bytes) list" where
  "getopt_long longopts [] = []"
| "getopt_long longopts (a # as) =
     (if a = ''--'' then []
      else if take 2 a = ''--'' then
        let name = takeWhile (\<lambda>c. c \<noteq> CHR ''='') (drop 2 a); val = dropWhile (\<lambda>c. c \<noteq> CHR ''='') (drop 2 a) in
        (case long_match longopts name of
           None \<Rightarrow> (Opt_error, []) # getopt_long longopts as
         | Some (required, opt) \<Rightarrow>
             if required then
               if val \<noteq> [] then (opt, tl val) # getopt_long longopts as
               else (case as of [] \<Rightarrow> [(Opt_error, [])] | v # as' \<Rightarrow> (opt, v) # getopt_long longopts as')
             else if val \<noteq> [] then (Opt_error, []) # getopt_long longopts as
             else (opt, []) # getopt_long longopts as)
      else if length a > 1 \<and> hd a = CHR ''-'' then map short_opt (tl a) @ getopt_long longopts as
      else getopt_long longopts as)"

definition common_opts :: "(bytes \<times> bool \<times> admin_opt) list" where
  "common_opts =
     [(''redis'', True, AUTH_WEBAUTHN_ADMIN_OPT_REDIS), (''redis-password'', True, AUTH_WEBAUTHN_ADMIN_OPT_REDIS_PASSWORD),
      (''redis-db'', True, AUTH_WEBAUTHN_ADMIN_OPT_REDIS_DB), (''redis-timeout'', True, AUTH_WEBAUTHN_ADMIN_OPT_REDIS_TIMEOUT),
      (''key-prefix'', True, AUTH_WEBAUTHN_ADMIN_OPT_KEY_PREFIX), (''help'', False, Opt_help)]"

text \<open>The option loop every subcommand has: its own options set a local variable (\<open>local\<close> says which), \<open>-h\<close> prints
  the usage, an unknown option ends it, and the common ones are interpreted.\<close>

fun option_loop ::
    "ngx_pool_t \<Rightarrow> (bytes \<Rightarrow> stream option) \<Rightarrow> (admin_opt \<Rightarrow> bytes \<Rightarrow> 'l \<Rightarrow> 'l option) \<Rightarrow> bytes
     \<Rightarrow> (admin_opt \<times> bytes) list \<Rightarrow> admin_ctx \<Rightarrow> 'l \<Rightarrow> 's world \<Rightarrow> (admin_exit + admin_ctx \<times> 'l) \<times> 's world" where
  "option_loop pool fopen local usage [] ctx l w = (Inr (ctx, l), w)"
| "option_loop pool fopen local usage ((c, optarg) # opts) ctx l w =
     (case local c optarg l of
        Some l \<Rightarrow> option_loop pool fopen local usage opts ctx l w
      | None \<Rightarrow>
          if c = Opt_help then (Inl AUTH_WEBAUTHN_ADMIN_EX_OK, print usage w)
          else if c = Opt_error then (Inl AUTH_WEBAUTHN_ADMIN_EX_USAGE, w)
          else
            let (rc, ctx, w) = auth_webauthn_admin_parse_common_opt pool fopen ctx c optarg w in
            if rc = NGX_ERROR then (Inl AUTH_WEBAUTHN_ADMIN_EX_USAGE, w)
            else option_loop pool fopen local usage opts ctx l w)"

section \<open>The connection\<close>

definition admin_conf :: "admin_ctx \<Rightarrow> redis_conf" where
  "admin_conf ctx =
     \<lparr> rc_host = ax_redis_host ctx, rc_port = ax_redis_port ctx, rc_password = ax_redis_password ctx, rc_db = ax_redis_db ctx,
       rc_timeout_ms = ax_redis_timeout_ms ctx \<rparr>"

definition auth_webauthn_admin_connect ::
    "('c, 's) hiredis \<Rightarrow> ngx_pool_t \<Rightarrow> admin_ctx \<Rightarrow> 's world \<Rightarrow> 'c redis_t option \<times> 's world" where
  "auth_webauthn_admin_connect hi pool ctx w =
     (if length (ax_redis_host ctx) = 0 \<or> ax_redis_port ctx = 0
      then (None, eprint ''error: --redis=<host:port> is required'' w)
      else
        let (rc, redis, s) = ngx_auth_webauthn_redis_connect hi (Some pool) (Some (admin_conf ctx)) (Some None) (w_srv w);
            w = w\<lparr> w_srv := s \<rparr>
        in
        if rc \<noteq> NGX_OK
        then (None, eprint (''error: cannot connect to Redis '' @ ax_redis_host ctx @ '':'' @ show_int (ax_redis_port ctx)) w)
        else (the redis, w))"

section \<open>Lemmas\<close>

lemma world_print [simp]: "w_srv (print m w) = w_srv w" "w_srv (eprint m w) = w_srv w" "w_srv (eprints m w) = w_srv w"
  by (simp_all add: print_def eprint_def eprints_def)

lemma read_loop_eq:
  assumes "\<And>site n. pool site n"
  shows "cap = 65536 * 2 ^ k \<Longrightarrow> k \<le> 8 \<Longrightarrow> length buf \<le> cap \<Longrightarrow>
     \<exists>rest cap'. read_loop pool cap buf fp =
       (if length buf + length (fst fp) \<ge> AUTH_WEBAUTHN_ADMIN_FILE_MAX then Inl Exceeds
        else if snd fp then Inl Read_failed else Inr (buf @ fst fp, cap'), rest)"
proof (induction "length (fst fp)" arbitrary: cap k buf fp rule: less_induct)
  case less
  have max: "65536 * 2 ^ 8 = AUTH_WEBAUTHN_ADMIN_FILE_MAX" by (simp add: AUTH_WEBAUTHN_ADMIN_FILE_MAX_def)
  have le: "65536 * 2 ^ j \<le> AUTH_WEBAUTHN_ADMIN_FILE_MAX" if "j \<le> 8" for j :: nat
    unfolding max [symmetric] using that by (intro mult_le_mono power_increasing) simp_all
  show ?case
  proof (cases "length buf = cap \<and> k = 8")
    case True
    with less.prems(1) max have "length buf = cap" "cap = AUTH_WEBAUTHN_ADMIN_FILE_MAX" by simp_all
    then show ?thesis by (simp add: read_loop.simps [of pool _ buf])
  next
    case False
    define j where "j = (if length buf = cap then Suc k else k)"
    define c :: nat where "c = 65536 * 2 ^ j"
    have j: "j \<le> 8" "length buf < c" using False less.prems by (auto simp: j_def c_def)
    have small: "\<not> cap \<ge> AUTH_WEBAUTHN_ADMIN_FILE_MAX" if "length buf = cap"
    proof -
      have "k < 8" using False that less.prems(2) by simp
      then have "(2 :: nat) ^ k < 2 ^ 8" by (rule power_strict_increasing) simp
      then show ?thesis using less.prems(1) by (simp add: AUTH_WEBAUTHN_ADMIN_FILE_MAX_def)
    qed
    let ?n = "min (c - length buf) (length (fst fp))"
    have step: "read_loop pool cap buf fp =
      (if ?n = 0 then (if snd fp then Inl Read_failed else Inr (buf, c), fp)
       else read_loop pool c (buf @ take ?n (fst fp)) (drop ?n (fst fp), snd fp))"
    proof -
      have "(if length buf = cap then
              if cap \<ge> AUTH_WEBAUTHN_ADMIN_FILE_MAX then Inl Exceeds
              else if \<not> pool ''nbuf'' (cap * 2) then Inl No_memory else Inr (cap * 2)
            else Inr cap) = (Inr c :: read_error + nat)"
        using small less.prems(1) assms [of "''nbuf''" "cap * 2"] by (cases "length buf = cap") (simp_all add: c_def j_def)
      then show ?thesis by (simp only: read_loop.simps [of pool cap buf fp] sum.case Let_def)
    qed
    show ?thesis
    proof (cases "fst fp = []")
      case True
      with step j le [OF j(1)] show ?thesis by (auto simp: c_def)
    next
      case ne: False
      have n: "?n \<noteq> 0" using ne j(2) by simp
      have "\<exists>rest cap'. read_loop pool c (buf @ take ?n (fst fp)) (drop ?n (fst fp), snd fp) =
        (if length (buf @ take ?n (fst fp)) + length (fst (drop ?n (fst fp), snd fp)) \<ge> AUTH_WEBAUTHN_ADMIN_FILE_MAX then Inl Exceeds
         else if snd (drop ?n (fst fp), snd fp) then Inl Read_failed
         else Inr ((buf @ take ?n (fst fp)) @ fst (drop ?n (fst fp), snd fp), cap'), rest)"
        by (rule less.hyps [OF _ c_def j(1)]) (use n ne j(2) in auto)
      moreover have "(buf @ take ?n (fst fp)) @ drop ?n (fst fp) = buf @ fst fp" by simp
      moreover have "length (buf @ take ?n (fst fp)) + length (drop ?n (fst fp)) = length buf + length (fst fp)" by simp
      ultimately show ?thesis unfolding step using n by (simp only: fst_conv snd_conv if_False)
    qed
  qed
qed

lemma read_file_srv [simp]: "w_srv (snd (auth_webauthn_admin_read_file pool fopen path w)) = w_srv w"
  by (auto simp: auth_webauthn_admin_read_file_def Let_def split_beta split: option.splits sum.splits read_error.splits)

lemma year_of_sound:
  "year_of y d = (y', d') \<Longrightarrow> d' < year_days y' \<and> y \<le> y' \<and> d = (\<Sum>i = y ..< y'. year_days i) + d'"
proof (induction y d rule: year_of.induct)
  case (1 y d)
  show ?case
  proof (cases "d < year_days y")
    case True
    with 1(2) show ?thesis by (simp add: year_of.simps [of y d])
  next
    case False
    with 1(2) have "year_of (y + 1) (d - year_days y) = (y', d')" by (simp add: year_of.simps [of y d])
    from 1(1) [OF False this] have "d' < year_days y'" "y + 1 \<le> y'" "d - year_days y = (\<Sum>i = y + 1 ..< y'. year_days i) + d'" by auto
    with False show ?thesis using sum.atLeast_Suc_lessThan [of y y' year_days] by simp
  qed
qed

lemma month_of_sound:
  "month_of ns m d = (m', d') \<Longrightarrow> d < sum_list ns \<Longrightarrow>
   \<exists>j < length ns. m' = m + j \<and> d + 1 = sum_list (take j ns) + d' \<and> 1 \<le> d' \<and> d' \<le> ns ! j"
proof (induction ns m d rule: month_of.induct)
  case (2 n ns m d)
  show ?case
  proof (cases "d < n")
    case False
    with 2(2,3) have "month_of ns (m + 1) (d - n) = (m', d')" "d - n < sum_list ns" by auto
    from 2(1) [OF False this] obtain j where "j < length ns" "m' = m + 1 + j" "d - n + 1 = sum_list (take j ns) + d'" "1 \<le> d'"
      "d' \<le> ns ! j" by blast
    with False show ?thesis by (intro exI [of _ "Suc j"]) auto
  qed (use 2 in auto)
qed simp

lemma sum_month_days: "sum_list (month_days y) = year_days y"
  by (simp add: month_days_def year_days_def)

lemma length_two: "n < 100 \<Longrightarrow> length (two n) = 2"
  by (cases "n < 10") (simp_all add: two_def show_nat.simps [of n] show_nat.simps [of "n div 10"] div_less_iff_less_mult)

text \<open>The time a date stands for.\<close>

definition seconds_of :: "tm \<Rightarrow> nat" where
  "seconds_of tm =
     (((\<Sum>y = 1970 ..< tm_y tm. year_days y) + sum_list (take (tm_m tm - 1) (month_days (tm_y tm))) + (tm_d tm - 1)) * 24
       + tm_H tm) * 3600 + tm_M tm * 60 + tm_S tm"

definition tm_ok :: "tm \<Rightarrow> bool" where
  "tm_ok tm \<longleftrightarrow> 1970 \<le> tm_y tm \<and> 1 \<le> tm_m tm \<and> tm_m tm \<le> 12 \<and> 1 \<le> tm_d tm \<and> tm_d tm \<le> month_days (tm_y tm) ! (tm_m tm - 1)
     \<and> tm_H tm < 24 \<and> tm_M tm < 60 \<and> tm_S tm < 60"

lemma gmtime_sound:
  assumes "gmtime t = Some tm"
  shows "tm_ok tm \<and> seconds_of tm = t"
proof -
  obtain y yd where y: "year_of 1970 (t div 86400) = (y, yd)" by fastforce
  obtain m d where m: "month_of (month_days y) 1 yd = (m, d)" by fastforce
  from assms y m have tm: "tm = \<lparr> tm_y = y, tm_m = m, tm_d = d, tm_H = t mod 86400 div 3600, tm_M = t mod 86400 mod 3600 div 60,
      tm_S = t mod 86400 mod 60 \<rparr>" by (simp add: gmtime_def Let_def split: if_splits)
  from year_of_sound [OF y] have ys: "yd < year_days y" "1970 \<le> y" "t div 86400 = (\<Sum>i = 1970 ..< y. year_days i) + yd" by auto
  with month_of_sound [OF m] obtain j where j: "j < 12" "m = 1 + j" "yd + 1 = sum_list (take j (month_days y)) + d" "1 \<le> d"
    "d \<le> month_days y ! j" by (auto simp: sum_month_days) (simp add: month_days_def)
  have days: "(\<Sum>i = 1970 ..< y. year_days i) + sum_list (take j (month_days y)) + (d - 1) = t div 86400"
    using j(3,4) ys(3) by linarith
  have "seconds_of tm = (t div 86400 * 24 + t mod 86400 div 3600) * 3600 + t mod 86400 mod 3600 div 60 * 60 + t mod 86400 mod 60"
    using days j(2) by (simp add: tm seconds_of_def)
  also have "\<dots> = t"
  proof -
    define D S H R M Q where "D = t div 86400" and "S = t mod 86400" and "H = S div 3600" and "R = S mod 3600"
      and "M = R div 60" and "Q = R mod 60"
    have "t = D * 86400 + S" "S = H * 3600 + R" "R = M * 60 + Q" unfolding D_def S_def H_def R_def M_def Q_def by simp_all
    moreover have "S mod 60 = Q" unfolding Q_def R_def by (rule mod_mod_cancel [symmetric]) simp
    ultimately have "(D * 24 + H) * 3600 + M * 60 + S mod 60 = t" by simp
    then show ?thesis unfolding D_def S_def H_def R_def M_def .
  qed
  finally show ?thesis using j ys(2) by (simp add: tm tm_ok_def div_less_iff_less_mult)
qed

definition ctx_ok :: "admin_ctx \<Rightarrow> bool" where
  "ctx_ok ctx \<longleftrightarrow> 0 \<le> ax_redis_port ctx \<and> ax_redis_port ctx \<le> 65535 \<and> ax_redis_db ctx \<le> 65535 \<and> ax_redis_timeout_ms ctx \<le> 600000
     \<and> (ax_redis_port ctx \<noteq> 0 \<longrightarrow> ax_redis_host ctx \<noteq> [])"

lemma ctx_init_ok: "ctx_ok admin_ctx_init"
  by (simp add: ctx_ok_def admin_ctx_init_def AUTH_WEBAUTHN_ADMIN_TIMEOUT_MS_def)

lemma parse_common_opt_ok:
  assumes "auth_webauthn_admin_parse_common_opt pool fopen ctx opt arg w = (rc, ctx', w')"
  shows "w_srv w' = w_srv w" and "rc \<noteq> NGX_ERROR \<Longrightarrow> ctx_ok ctx \<Longrightarrow> ctx_ok ctx'"
proof -
  have "w_srv w1 = w_srv w" if "auth_webauthn_admin_read_file pool fopen path w = (r, w1)" for path r w1
    using read_file_srv [of pool fopen path w] that by simp
  with assms show "w_srv w' = w_srv w"
    by (auto simp: auth_webauthn_admin_parse_common_opt_def Let_def split_beta
        split: admin_opt.splits option.splits prod.splits if_splits)
  from assms show "rc \<noteq> NGX_ERROR \<Longrightarrow> ctx_ok ctx \<Longrightarrow> ctx_ok ctx'"
    by (auto simp: auth_webauthn_admin_parse_common_opt_def ctx_ok_def Let_def split_beta nat_le_iff
        split: admin_opt.splits option.splits prod.splits if_splits)
qed

lemma option_loop_ok:
  assumes "option_loop pool fopen local usage opts ctx l w = (r, w')"
  shows "w_srv w' = w_srv w" and "r = Inr (ctx', l') \<Longrightarrow> ctx_ok ctx \<Longrightarrow> ctx_ok ctx'" and "r \<noteq> Inl AUTH_WEBAUTHN_ADMIN_EX_FAIL"
proof -
  have "w_srv w' = w_srv w \<and> (r = Inr (ctx', l') \<longrightarrow> ctx_ok ctx \<longrightarrow> ctx_ok ctx') \<and> r \<noteq> Inl AUTH_WEBAUTHN_ADMIN_EX_FAIL"
    using assms
  proof (induction pool fopen local usage opts ctx l w rule: option_loop.induct)
    case (2 pool fopen local usage c optarg opts ctx l w)
    obtain rc ctx1 w1 where p: "auth_webauthn_admin_parse_common_opt pool fopen ctx c optarg w = (rc, ctx1, w1)"
      by (metis surj_pair)
    note ok = parse_common_opt_ok [OF p]
    show ?case
    proof (cases "local c optarg l")
      case None
      note step = 2(1) [OF None _ _ p [symmetric] refl]
      consider "c = Opt_help" | "c \<noteq> Opt_help" "c = Opt_error" | "c \<noteq> Opt_help" "c \<noteq> Opt_error" "rc = NGX_ERROR"
        | "c \<noteq> Opt_help" "c \<noteq> Opt_error" "rc \<noteq> NGX_ERROR" by blast
      then show ?thesis
      proof cases
        case 4
        with 2(3) None p have "option_loop pool fopen local usage opts ctx1 l w1 = (r, w')" by simp
        with step 4 ok show ?thesis by auto
      qed (use 2(3) None p ok(1) in auto)
    next
      case (Some l1)
      with 2(3) have "option_loop pool fopen local usage opts ctx l1 w = (r, w')" by simp
      with 2(2) [OF Some] show ?thesis by blast
    qed
  qed auto
  then show "w_srv w' = w_srv w" and "r = Inr (ctx', l') \<Longrightarrow> ctx_ok ctx \<Longrightarrow> ctx_ok ctx'" and "r \<noteq> Inl AUTH_WEBAUTHN_ADMIN_EX_FAIL"
    by blast+
qed

text \<open>An empty argument is a number.\<close>

lemma empty_db_accepted:
  "auth_webauthn_admin_parse_common_opt pool fopen ctx AUTH_WEBAUTHN_ADMIN_OPT_REDIS_DB [] w = (NGX_OK, ctx\<lparr> ax_redis_db := 0 \<rparr>, w)"
  by (simp add: auth_webauthn_admin_parse_common_opt_def strtol_def)

section \<open>Properties\<close>

text \<open>C40: reading a file terminates and is exact. With memory available, \<open>auth_webauthn_admin_read_file\<close> returns the
  whole contents of the file (or of standard input, for \<open>-\<close>) exactly when it can be opened and read to the
  end and has fewer than 16 MiB; a file of exactly 16 MiB is already refused.\<close>

theorem read_file_exact:
  assumes "\<And>site n. pool site n"
  shows "fst (auth_webauthn_admin_read_file pool fopen path w) = Some body \<longleftrightarrow>
     (\<exists>fp. (if path = ''-'' then Some (w_stdin w) else fopen path) = Some fp \<and> \<not> snd fp \<and> body = fst fp
        \<and> length body < AUTH_WEBAUTHN_ADMIN_FILE_MAX)"
proof (cases "if path = ''-'' then Some (w_stdin w) else fopen path")
  case (Some fp)
  have p: "\<And>site n. pool site n" by (rule assms)
  obtain rest cap' where r: "read_loop pool AUTH_WEBAUTHN_ADMIN_READ_CHUNK [] fp =
      (if length (fst fp) \<ge> AUTH_WEBAUTHN_ADMIN_FILE_MAX then Inl Exceeds
       else if snd fp then Inl Read_failed else Inr (fst fp, cap'), rest)"
    using read_loop_eq [of pool, OF p, of AUTH_WEBAUTHN_ADMIN_READ_CHUNK 0 "[]" fp]
    by (metis AUTH_WEBAUTHN_ADMIN_READ_CHUNK_def add_0 append_Nil le0 list.size(3) mult.right_neutral power_0)
  show ?thesis unfolding auth_webauthn_admin_read_file_def Some by (auto simp: p r)
qed (simp add: auth_webauthn_admin_read_file_def)

theorem read_file_exact_witness:
  "fst (auth_webauthn_admin_read_file ex_pool [''f'' \<mapsto> (''abc'', False)] ''f''
     \<lparr> w_stdin = ([], False), w_out = [], w_err = [], w_srv = () \<rparr>) = Some ''abc''"
  using read_file_exact [of ex_pool "[''f'' \<mapsto> (''abc'', False)]" "''f''" "\<lparr> w_stdin = ([], False), w_out = [], w_err = [], w_srv = () \<rparr>"
      "''abc''"] by (simp add: AUTH_WEBAUTHN_ADMIN_FILE_MAX_def)

text \<open>Displayed times. A positive time before the year ten million is displayed as the UTC date and time it is, in
  the 24-byte buffer the commands use: the date is a valid calendar date and its second count from the
  epoch is the time; a time that is zero or negative is displayed as a dash.\<close>

theorem fmt_time_exact:
  assumes "sint t < 86400 * 365 * (10 ^ 7 - 1970)"
  shows "if sint t \<le> 0 then auth_webauthn_admin_fmt_time t 24 = ''-''
     else \<exists>tm. auth_webauthn_admin_fmt_time t 24 = iso_time tm \<and> tm_ok tm \<and> int (seconds_of tm) = sint t
       \<and> length (iso_time tm) + 1 \<le> 24"
proof (cases "sint t \<le> 0")
  case False
  let ?t = "nat (sint t)"
  obtain y yd where y: "year_of 1970 (?t div 86400) = (y, yd)" by fastforce
  have year: "y < 10 ^ 7"
  proof (rule ccontr)
    assume "\<not> y < 10 ^ 7"
    have "365 * (10 ^ 7 - 1970) = (\<Sum>i = 1970 ..< 10 ^ 7 :: nat. 365 :: nat)" by simp
    also have "\<dots> \<le> (\<Sum>i = 1970 ..< y. 365)" using \<open>\<not> y < 10 ^ 7\<close> by (intro sum_mono2) auto
    also have "\<dots> \<le> (\<Sum>i = 1970 ..< y. year_days i)" by (intro sum_mono) (simp add: year_days_def)
    also have "\<dots> \<le> ?t div 86400" using year_of_sound [OF y] by simp
    finally have "365 * (10 ^ 7 - 1970) * 86400 \<le> ?t" by (simp add: less_eq_div_iff_mult_less_eq)
    with assms show False by (simp add: le_nat_iff)
  qed
  then have "gmtime ?t \<noteq> None" by (simp add: gmtime_def y Let_def split_beta)
  then obtain tm where tm: "gmtime ?t = Some tm" by blast
  have s: "tm_ok tm" "seconds_of tm = ?t" using gmtime_sound [OF tm] by simp_all
  have "tm_y tm = y" using tm by (auto simp: gmtime_def y Let_def split_beta split: if_splits)
  with year have "length (show_nat (tm_y tm)) \<le> 7" by (intro length_show_nat) simp_all
  moreover have "tm_d tm \<le> 31"
  proof -
    have "month_days (tm_y tm) ! (tm_m tm - 1) \<in> set (month_days (tm_y tm))"
      using s(1) by (intro nth_mem) (auto simp: tm_ok_def month_days_def)
    then have "month_days (tm_y tm) ! (tm_m tm - 1) \<le> 31" by (auto simp: month_days_def split: if_splits)
    with s(1) show ?thesis by (simp add: tm_ok_def)
  qed
  ultimately have "length (iso_time tm) + 1 \<le> 24" using s(1) by (simp add: iso_time_def length_two tm_ok_def)
  moreover have "auth_webauthn_admin_fmt_time t 24 = iso_time tm"
    using False tm calculation by (simp add: auth_webauthn_admin_fmt_time_def word_sle_eq)
  ultimately show ?thesis using s False by auto
qed (simp add: auth_webauthn_admin_fmt_time_def word_sle_eq)

theorem fmt_time_exact_witness:
  "sint (1776420000 :: 64 word) = 1776420000
   \<and> (\<exists>tm. auth_webauthn_admin_fmt_time 1776420000 24 = iso_time tm \<and> int (seconds_of tm) = 1776420000)"
  using fmt_time_exact [of 1776420000] by auto

text \<open>Option values are in range. Whatever the command line is, the options that were accepted give a port
  between 0 and 65535, with a host if it is not 0, a database number of at most 65535 and a timeout
  of at most ten minutes, and parsing them does not touch Redis.\<close>

theorem options_in_range:
  assumes "option_loop pool fopen local usage opts admin_ctx_init l w = (Inr (ctx, l'), w')"
  shows "ctx_ok ctx \<and> w_srv w' = w_srv w"
  using option_loop_ok [OF assms] ctx_init_ok by blast

theorem options_in_range_witness:
  "\<exists>ctx w'. option_loop ex_pool (\<lambda>_. None) (\<lambda>_ _ _. None) [] (getopt_long common_opts [''--redis=h:6379'', ''--redis-db'', ''3''])
     admin_ctx_init () \<lparr> w_stdin = ([], False), w_out = [], w_err = [], w_srv = () \<rparr> = (Inr (ctx, ()), w') \<and> ctx_ok ctx"
proof -
  have "\<exists>ctx w'. option_loop ex_pool (\<lambda>_. None) (\<lambda>_ _ _. None) [] (getopt_long common_opts [''--redis=h:6379'', ''--redis-db'', ''3''])
     admin_ctx_init () \<lparr> w_stdin = ([], False), w_out = [], w_err = [], w_srv = () \<rparr> = (Inr (ctx, ()), w')"
    by (simp add: common_opts_def long_match_def auth_webauthn_admin_parse_common_opt_def strtol_def is_space_def is_digit_def
        digit_val_def)
  then obtain ctx w' where e: "option_loop ex_pool (\<lambda>_. None) (\<lambda>_ _ _. None) []
     (getopt_long common_opts [''--redis=h:6379'', ''--redis-db'', ''3''])
     admin_ctx_init () \<lparr> w_stdin = ([], False), w_out = [], w_err = [], w_srv = () \<rparr> = (Inr (ctx, ()), w')" by blast
  from options_in_range [OF e] e show ?thesis by blast
qed

end
