(* ===== verification/Admin_Commands.thy ===== *)
theory Admin_Commands
  imports Admin Challenge_Handler
begin

text \<open>
  The subcommands of \<open>auth-webauthn-admin\<close> (\<open>auth_webauthn_admin_register.c\<close>, \<open>_revoke.c\<close>, \<open>_list.c\<close>, \<open>_show.c\<close>) and
  the dispatch in \<open>main\<close>. A command takes its arguments and returns its exit code and the process after it.
\<close>

section \<open>Register\<close>

text \<open>The C text of a byte string: \<open>%.*s\<close> stops at a null byte.\<close>

definition cstr :: "bytes \<Rightarrow> bytes" where
  "cstr s = takeWhile (\<lambda>c. c \<noteq> CHR 0x00) s"

definition AUTH_WEBAUTHN_ADMIN_CID_ECHO :: nat where "AUTH_WEBAUTHN_ADMIN_CID_ECHO = 12"

definition ngx_auth_webauthn_admin_register_usage :: bytes where
  "ngx_auth_webauthn_admin_register_usage = concat (map line
     [''usage: auth-webauthn-admin register [options]'',
      '''',
      ''options:'',
      ''  --user-id=<id>                 application user id (required)'',
      ''  --response-file=<path>         AttestationResponse JSON; '' @ [CHR 0x27] @ ''-'' @ [CHR 0x27] @ '' reads'',
      ''                                 stdin (required)'',
      ''  --rp-id=<domain>               expected RP ID (required)'',
      ''  --require-attestation=none|packed'',
      ''                                 attestation level (default none)'',
      ''  --origin=<url>                 accepted but not verified here'',
      ''  --transports=<csv>             override transports (usb,nfc,...)'',
      ''  --redis=<host:port> ...        see '' @ [CHR 0x27] @ ''auth-webauthn-admin --help'' @ [CHR 0x27]])"

record register_opts =
  ro_user_id :: "bytes option"
  ro_response_file :: "bytes option"
  ro_rp_id :: "bytes option"
  ro_require :: "bytes option"
  ro_transports :: "bytes option"

definition register_longopts :: "(bytes \<times> bool \<times> admin_opt) list" where
  "register_longopts =
     [(''user-id'', True, OPT_USER_ID), (''response-file'', True, OPT_RESPONSE_FILE), (''rp-id'', True, OPT_RP_ID),
      (''require-attestation'', True, OPT_REQUIRE_ATTESTATION), (''origin'', True, OPT_ORIGIN),
      (''transports'', True, OPT_TRANSPORTS)] @ common_opts"

definition register_local :: "admin_opt \<Rightarrow> bytes \<Rightarrow> register_opts \<Rightarrow> register_opts option" where
  "register_local c optarg l =
     (case c of
        OPT_USER_ID \<Rightarrow> Some (l\<lparr> ro_user_id := Some optarg \<rparr>)
      | OPT_RESPONSE_FILE \<Rightarrow> Some (l\<lparr> ro_response_file := Some optarg \<rparr>)
      | OPT_RP_ID \<Rightarrow> Some (l\<lparr> ro_rp_id := Some optarg \<rparr>)
      | OPT_REQUIRE_ATTESTATION \<Rightarrow> Some (l\<lparr> ro_require := Some optarg \<rparr>)
      | OPT_ORIGIN \<Rightarrow> Some l
      | OPT_TRANSPORTS \<Rightarrow> Some (l\<lparr> ro_transports := Some optarg \<rparr>)
      | _ \<Rightarrow> None)"

definition ngx_auth_webauthn_admin_decode_member ::
    "'j nxe_json \<Rightarrow> ngx_pool_t \<Rightarrow> 'j \<Rightarrow> string \<Rightarrow> 's world \<Rightarrow> bytes option \<times> 's world" where
  "ngx_auth_webauthn_admin_decode_member js pool obj key w =
     (case Option.bind (nxe_json_object_get js obj key) (nxe_json_string js) of
        None \<Rightarrow> (None, eprint (''error: response.'' @ key @ '' missing or not a string'') w)
      | Some enc \<Rightarrow>
          if \<not> pool ''out->data'' (ngx_base64_decoded_length (length enc)) then (None, w)
          else
            case decoded enc of
              None \<Rightarrow> (None, eprint (''error: response.'' @ key @ '' is not valid base64url'') w)
            | Some d \<Rightarrow> (Some d, w))"

text \<open>From the decoded members to the attested credential: the message of the first check that fails, or the
  authenticator data, the public key in DER and its algorithm.\<close>

definition register_attest ::
    "'k openssl \<Rightarrow> cbor_load_t \<Rightarrow> ngx_pool_t \<Rightarrow> bytes \<Rightarrow> bytes \<Rightarrow> bytes \<Rightarrow> att_require \<Rightarrow> bytes + authdata \<times> bytes \<times> 32 word" where
  "register_attest ossl cbor pool client_data att_obj rp_id require =
     (let (rc, att) = ngx_auth_webauthn_attestation_parse cbor (Some pool) (Some att_obj) (length att_obj)
                        (Some attestation_zero) in
      if rc \<noteq> NGX_OK then Inl ''error: cannot parse attestationObject''
      else
      let att = the att;
          (rc, ad) = ngx_auth_webauthn_authdata_parse (Some (att_auth_data att)) (length (att_auth_data att)) (Some authdata_zero) in
      if rc \<noteq> NGX_OK then Inl ''error: cannot parse authenticatorData''
      else
      let ad = the ad in
      if ad_flags ad AND FLAG_AT = 0 \<or> length (ad_credential_id ad) = 0 \<or> length (ad_cose_public_key ad) = 0
      then Inl ''error: authenticatorData carries no attested credential''
      else
      let (rc, cdh) = ngx_auth_webauthn_hash_sha256 ossl (Some client_data) (length client_data)
                        (Some (replicate NGX_AUTH_WEBAUTHN_SHA256_LEN (CHR 0x00))) in
      if rc \<noteq> NGX_OK then Inl ''error: clientDataJSON hashing failed''
      else
      if ngx_auth_webauthn_attestation_verify ossl cbor (Some pool) (Some att) (Some rp_id) cdh require \<noteq> NGX_OK
      then Inl (''error: attestation verification failed (fmt='' @ cstr (att_fmt att)
                  @ '', require='' @ (if require = NGX_AUTH_WEBAUTHN_ATT_PACKED then ''packed'' else ''none'') @ '')'')
      else
      let (rc, der, alg) = ngx_auth_webauthn_cose_to_der ossl cbor (Some pool) (Some (ad_cose_public_key ad))
                             (length (ad_cose_public_key ad)) (Some []) (Some 0) in
      if rc \<noteq> NGX_OK then Inl ''error: unsupported or malformed COSE public key''
      else Inr (ad, the der, the alg))"

definition register_check ::
    "'k openssl \<Rightarrow> 'j nxe_json \<Rightarrow> cbor_load_t \<Rightarrow> ngx_pool_t \<Rightarrow> bytes \<Rightarrow> bytes \<Rightarrow> att_require \<Rightarrow> 's world
     \<Rightarrow> (authdata \<times> bytes \<times> 32 word) option \<times> 's world" where
  "register_check ossl js cbor pool body rp_id require w =
     (case nxe_json_parse_untrusted js body of
        None \<Rightarrow> (None, eprint ''error: response file is not valid JSON'' w)
      | Some json \<Rightarrow>
      (case nxe_json_object_get js json ''response'' of
        None \<Rightarrow> (None, eprint (''error: missing '' @ quoted ''response'' @ '' object'') w)
      | Some response \<Rightarrow>
      if \<not> nxe_json_is_object js response then (None, eprint (''error: missing '' @ quoted ''response'' @ '' object'') w)
      else
      (case ngx_auth_webauthn_admin_decode_member js pool response ''clientDataJSON'' w of
        (None, w) \<Rightarrow> (None, w)
      | (Some client_data, w) \<Rightarrow>
      (case ngx_auth_webauthn_admin_decode_member js pool response ''attestationObject'' w of
        (None, w) \<Rightarrow> (None, w)
      | (Some att_obj, w) \<Rightarrow>
      (case register_attest ossl cbor pool client_data att_obj rp_id require of
        Inl msg \<Rightarrow> (None, eprint msg w)
      | Inr r \<Rightarrow> (Some r, w))))))"

definition register_cred :: "bytes \<Rightarrow> bytes \<Rightarrow> authdata \<Rightarrow> bytes \<Rightarrow> 32 word \<Rightarrow> bytes option \<Rightarrow> 64 word \<Rightarrow> credential" where
  "register_cred cid_enc user_id ad der alg transports now =
     \<lparr> cred_credential_id = cid_enc, cred_user_id = user_id, cred_public_key = der, cred_alg = alg,
       cred_sign_count = ad_sign_count ad, cred_created_at = now, cred_last_used_at = 0, cred_aaguid = ad_aaguid ad,
       cred_has_aaguid = True, cred_transports = (case transports of None \<Rightarrow> [] | Some t \<Rightarrow> t) \<rparr>"

definition register_done :: "bytes \<Rightarrow> 32 word \<Rightarrow> bytes" where
  "register_done cid_enc alg =
     ''registered: cid='' @ take AUTH_WEBAUTHN_ADMIN_CID_ECHO cid_enc
     @ (if length cid_enc > AUTH_WEBAUTHN_ADMIN_CID_ECHO then ''...'' else '''')
     @ '' alg='' @ auth_webauthn_admin_alg_name alg @ [CHR 0x0A]"

definition register_store :: "('c, 's) hiredis \<Rightarrow> ngx_pool_t \<Rightarrow> admin_ctx \<Rightarrow> credential \<Rightarrow> 's world \<Rightarrow> admin_exit \<times> 's world" where
  "register_store hi pool ctx cred w =
     (case auth_webauthn_admin_connect hi pool ctx w of
        (None, w) \<Rightarrow> (AUTH_WEBAUTHN_ADMIN_EX_FAIL, w)
      | (Some redis, w) \<Rightarrow>
          let (rc, s) = ngx_auth_webauthn_credential_put hi (Some redis) (Some pool) (Some (ax_key_prefix ctx)) (Some cred) (w_srv w);
              w = w\<lparr> w_srv := snd (ngx_auth_webauthn_redis_close hi (Some redis) s) \<rparr>
          in
          if rc \<noteq> NGX_OK then (AUTH_WEBAUTHN_ADMIN_EX_FAIL, eprint ''error: failed to store credential in Redis'' w)
          else (AUTH_WEBAUTHN_ADMIN_EX_OK, print (register_done (cred_credential_id cred) (cred_alg cred)) w))"

definition auth_webauthn_admin_cmd_register ::
    "('c, 's) hiredis \<Rightarrow> 'k openssl \<Rightarrow> 'j nxe_json \<Rightarrow> cbor_load_t \<Rightarrow> ngx_pool_t \<Rightarrow> (bytes \<Rightarrow> stream option) \<Rightarrow> 64 word
     \<Rightarrow> admin_ctx \<Rightarrow> bytes list \<Rightarrow> 's world \<Rightarrow> admin_exit \<times> 's world" where
  "auth_webauthn_admin_cmd_register hi ossl js cbor pool fopen now ctx args w =
     (let (r, w) = option_loop pool fopen register_local ngx_auth_webauthn_admin_register_usage (getopt_long register_longopts args) ctx
            \<lparr> ro_user_id = None, ro_response_file = None, ro_rp_id = None, ro_require = None, ro_transports = None \<rparr> w in
      case r of
        Inl e \<Rightarrow> (e, w)
      | Inr (ctx, l) \<Rightarrow>
      if ro_user_id l = None \<or> ro_response_file l = None \<or> ro_rp_id l = None
      then (AUTH_WEBAUTHN_ADMIN_EX_USAGE, eprint ''error: --user-id, --response-file and --rp-id are required'' w)
      else if ro_require l \<notin> {None, Some ''packed'', Some ''none''}
      then (AUTH_WEBAUTHN_ADMIN_EX_USAGE, eprint ''error: --require-attestation expects none|packed'' w)
      else
      let require = (if ro_require l = Some ''packed'' then NGX_AUTH_WEBAUTHN_ATT_PACKED else NGX_AUTH_WEBAUTHN_ATT_NONE) in
      (case auth_webauthn_admin_read_file pool fopen (the (ro_response_file l)) w of
        (None, w) \<Rightarrow> (AUTH_WEBAUTHN_ADMIN_EX_FAIL, w)
      | (Some body, w) \<Rightarrow>
      (case register_check ossl js cbor pool body (the (ro_rp_id l)) require w of
        (None, w) \<Rightarrow> (AUTH_WEBAUTHN_ADMIN_EX_FAIL, w)
      | (Some (ad, der, alg), w) \<Rightarrow>
      if \<not> pool ''cid_enc.data'' (ngx_base64_encoded_length (length (ad_credential_id ad)))
      then (AUTH_WEBAUTHN_ADMIN_EX_FAIL, w)
      else
      let cid_enc = ngx_encode_base64url (ad_credential_id ad);
          cred = register_cred cid_enc (the (ro_user_id l)) ad der alg (ro_transports l) now
      in
      register_store hi pool ctx cred w)))"

section \<open>Revoke\<close>

definition ngx_auth_webauthn_admin_revoke_usage :: bytes where
  "ngx_auth_webauthn_admin_revoke_usage = concat (map line
     [''usage: auth-webauthn-admin revoke --credential-id=<id> [options]'',
      '''',
      ''options:'',
      ''  --credential-id=<b64url>   credential to delete (required)'',
      ''  --redis=<host:port> ...    see '' @ [CHR 0x27] @ ''auth-webauthn-admin --help'' @ [CHR 0x27]])"

definition credential_longopts :: "(bytes \<times> bool \<times> admin_opt) list" where
  "credential_longopts = (''credential-id'', True, OPT_CREDENTIAL_ID) # common_opts"

definition credential_local :: "admin_opt \<Rightarrow> bytes \<Rightarrow> bytes option \<Rightarrow> bytes option option" where
  "credential_local c optarg l = (if c = OPT_CREDENTIAL_ID then Some (Some optarg) else None)"

definition auth_webauthn_admin_cmd_revoke ::
    "('c, 's) hiredis \<Rightarrow> ngx_pool_t \<Rightarrow> (bytes \<Rightarrow> stream option) \<Rightarrow> admin_ctx \<Rightarrow> bytes list \<Rightarrow> 's world
     \<Rightarrow> admin_exit \<times> 's world" where
  "auth_webauthn_admin_cmd_revoke hi pool fopen ctx args w =
     (let (r, w) = option_loop pool fopen credential_local ngx_auth_webauthn_admin_revoke_usage (getopt_long credential_longopts args) ctx None w in
      case r of
        Inl e \<Rightarrow> (e, w)
      | Inr (ctx, None) \<Rightarrow> (AUTH_WEBAUTHN_ADMIN_EX_USAGE, eprint ''error: --credential-id is required'' w)
      | Inr (ctx, Some cid) \<Rightarrow>
      (case auth_webauthn_admin_connect hi pool ctx w of
        (None, w) \<Rightarrow> (AUTH_WEBAUTHN_ADMIN_EX_FAIL, w)
      | (Some redis, w) \<Rightarrow>
      let (rc, s) = ngx_auth_webauthn_credential_delete hi (Some redis) (Some pool) (Some (ax_key_prefix ctx)) (Some cid) (w_srv w);
          w = w\<lparr> w_srv := snd (ngx_auth_webauthn_redis_close hi (Some redis) s) \<rparr>
      in
      if rc = NGX_DECLINED then (AUTH_WEBAUTHN_ADMIN_EX_FAIL, eprint ''error: no such credential'' w)
      else if rc \<noteq> NGX_OK then (AUTH_WEBAUTHN_ADMIN_EX_FAIL, eprint ''error: failed to revoke credential'' w)
      else (AUTH_WEBAUTHN_ADMIN_EX_OK, print (''revoked: cid='' @ cstr cid @ [CHR 0x0A]) w)))"

section \<open>List\<close>

definition ngx_auth_webauthn_admin_list_usage :: bytes where
  "ngx_auth_webauthn_admin_list_usage = concat (map line
     [''usage: auth-webauthn-admin list --user-id=<id> [options]'',
      '''',
      ''options:'',
      ''  --user-id=<id>            user whose credentials to list (required)'',
      ''  --redis=<host:port> ...   see '' @ [CHR 0x27] @ ''auth-webauthn-admin --help'' @ [CHR 0x27]])"

definition list_longopts :: "(bytes \<times> bool \<times> admin_opt) list" where
  "list_longopts = (''user-id'', True, OPT_USER_ID) # common_opts"

definition list_local :: "admin_opt \<Rightarrow> bytes \<Rightarrow> bytes option \<Rightarrow> bytes option option" where
  "list_local c optarg l = (if c = OPT_USER_ID then Some (Some optarg) else None)"

definition ngx_auth_webauthn_admin_index_key :: "ngx_pool_t \<Rightarrow> bytes \<Rightarrow> bytes \<Rightarrow> bytes option" where
  "ngx_auth_webauthn_admin_index_key pool prefix uid =
     (if \<not> pool ''p'' (length prefix + 5 + length uid + 6) then None
      else Some (prefix @ ''user:'' @ uid @ '':creds''))"

text \<open>A left-justified column: \<open>%-ns\<close>.\<close>

definition pad :: "nat \<Rightarrow> bytes \<Rightarrow> bytes" where
  "pad n s = s @ replicate (n - length s) (CHR '' '')"

definition list_row :: "bytes \<Rightarrow> bytes \<Rightarrow> bytes \<Rightarrow> bytes \<Rightarrow> bytes" where
  "list_row cid alg cnt created = pad 43 cid @ '' '' @ pad 6 alg @ '' '' @ pad 11 cnt @ '' '' @ created @ [CHR 0x0A]"

fun list_loop ::
    "('c, 's) hiredis \<Rightarrow> 'c redis_t \<Rightarrow> ngx_pool_t \<Rightarrow> bytes \<Rightarrow> bytes list \<Rightarrow> 's world \<Rightarrow> 's world" where
  "list_loop hi redis pool prefix [] w = w"
| "list_loop hi redis pool prefix (cid # members) w =
     (let (rc, cred, s) = ngx_auth_webauthn_credential_get hi (Some redis) (Some pool) (Some prefix) (Some cid)
            (Some credential_zero) (w_srv w);
          w = w\<lparr> w_srv := s \<rparr>;
          row = (if rc = NGX_OK
                 then list_row (cstr cid) (auth_webauthn_admin_alg_name (cred_alg (the cred)))
                        (show_nat (unat (cred_sign_count (the cred))))
                        (auth_webauthn_admin_fmt_time (cred_created_at (the cred)) 24)
                 else list_row (cstr cid) ''?'' ''?'' ''(missing)'')
      in list_loop hi redis pool prefix members (print row w))"

definition auth_webauthn_admin_cmd_list ::
    "('c, 's) hiredis \<Rightarrow> ngx_pool_t \<Rightarrow> (bytes \<Rightarrow> stream option) \<Rightarrow> admin_ctx \<Rightarrow> bytes list \<Rightarrow> 's world
     \<Rightarrow> admin_exit \<times> 's world" where
  "auth_webauthn_admin_cmd_list hi pool fopen ctx args w =
     (let (r, w) = option_loop pool fopen list_local ngx_auth_webauthn_admin_list_usage (getopt_long list_longopts args) ctx None w in
      case r of
        Inl e \<Rightarrow> (e, w)
      | Inr (ctx, None) \<Rightarrow> (AUTH_WEBAUTHN_ADMIN_EX_USAGE, eprint ''error: --user-id is required'' w)
      | Inr (ctx, Some uid) \<Rightarrow>
      (case ngx_auth_webauthn_admin_index_key pool (ax_key_prefix ctx) uid of
        None \<Rightarrow> (AUTH_WEBAUTHN_ADMIN_EX_FAIL, w)
      | Some key \<Rightarrow>
      (case auth_webauthn_admin_connect hi pool ctx w of
        (None, w) \<Rightarrow> (AUTH_WEBAUTHN_ADMIN_EX_FAIL, w)
      | (Some redis, w) \<Rightarrow>
      let (rc, members, s) = ngx_auth_webauthn_redis_smembers hi (Some redis) (Some pool) (Some key) (Some []) (w_srv w) in
      if rc \<noteq> NGX_OK
      then (AUTH_WEBAUTHN_ADMIN_EX_FAIL,
            eprint ''error: failed to read credential index''
              (w\<lparr> w_srv := snd (ngx_auth_webauthn_redis_close hi (Some redis) s) \<rparr>))
      else
      let w = print (list_row ''CREDENTIAL_ID'' ''ALG'' ''SIGN_COUNT'' ''CREATED_AT'') (w\<lparr> w_srv := s \<rparr>);
          w = list_loop hi redis pool (ax_key_prefix ctx) (the members) w
      in (AUTH_WEBAUTHN_ADMIN_EX_OK, w\<lparr> w_srv := snd (ngx_auth_webauthn_redis_close hi (Some redis) (w_srv w)) \<rparr>))))"

section \<open>Show\<close>

definition ngx_auth_webauthn_admin_show_usage :: bytes where
  "ngx_auth_webauthn_admin_show_usage = concat (map line
     [''usage: auth-webauthn-admin show --credential-id=<id> [options]'',
      '''',
      ''options:'',
      ''  --credential-id=<b64url>   credential to display (required)'',
      ''  --redis=<host:port> ...    see '' @ [CHR 0x27] @ ''auth-webauthn-admin --help'' @ [CHR 0x27]])"

definition hex_digits :: bytes where
  "hex_digits = ''0123456789abcdef''"

text \<open>The loop from byte \<open>i\<close> on, after \<open>d\<close> dashes.\<close>

fun aaguid_loop :: "bytes \<Rightarrow> nat \<Rightarrow> nat \<Rightarrow> bytes" where
  "aaguid_loop [] i d = []"
| "aaguid_loop (g # gs) i d =
     (let dash = d < 4 \<and> i = [4, 6, 8, 10] ! d in
      (if dash then [CHR ''-''] else [])
      @ [hex_digits ! unat (drop_bit 4 (byte g)), hex_digits ! unat (byte g AND 0xF)]
      @ aaguid_loop gs (i + 1) (if dash then d + 1 else d))"

definition ngx_auth_webauthn_admin_aaguid_fmt :: "bytes \<Rightarrow> bytes" where
  "ngx_auth_webauthn_admin_aaguid_fmt g = aaguid_loop (take NGX_AUTH_WEBAUTHN_AAGUID_LEN g) 0 0"

definition show_text :: "bytes \<Rightarrow> credential \<Rightarrow> bytes" where
  "show_text cid cred =
     ''credential_id: '' @ cstr cid @ [CHR 0x0A]
     @ ''user_id:       '' @ cstr (cred_user_id cred) @ [CHR 0x0A]
     @ ''alg:           '' @ auth_webauthn_admin_alg_name (cred_alg cred) @ '' ('' @ show_int (sint (cred_alg cred)) @ '')'' @ [CHR 0x0A]
     @ ''sign_count:    '' @ show_nat (unat (cred_sign_count cred)) @ [CHR 0x0A]
     @ ''created_at:    '' @ auth_webauthn_admin_fmt_time (cred_created_at cred) 24 @ [CHR 0x0A]
     @ ''last_used_at:  '' @ auth_webauthn_admin_fmt_time (cred_last_used_at cred) 24 @ [CHR 0x0A]
     @ ''aaguid:        '' @ (if cred_has_aaguid cred then ngx_auth_webauthn_admin_aaguid_fmt (cred_aaguid cred) else ''-'') @ [CHR 0x0A]
     @ ''transports:    '' @ (if length (cred_transports cred) > 0 then cstr (cred_transports cred) else ''-'') @ [CHR 0x0A]
     @ ''public_key:    '' @ show_nat (length (cred_public_key cred)) @ '' bytes (DER SubjectPublicKeyInfo)'' @ [CHR 0x0A]"

definition auth_webauthn_admin_cmd_show ::
    "('c, 's) hiredis \<Rightarrow> ngx_pool_t \<Rightarrow> (bytes \<Rightarrow> stream option) \<Rightarrow> admin_ctx \<Rightarrow> bytes list \<Rightarrow> 's world
     \<Rightarrow> admin_exit \<times> 's world" where
  "auth_webauthn_admin_cmd_show hi pool fopen ctx args w =
     (let (r, w) = option_loop pool fopen credential_local ngx_auth_webauthn_admin_show_usage (getopt_long credential_longopts args) ctx None w in
      case r of
        Inl e \<Rightarrow> (e, w)
      | Inr (ctx, None) \<Rightarrow> (AUTH_WEBAUTHN_ADMIN_EX_USAGE, eprint ''error: --credential-id is required'' w)
      | Inr (ctx, Some cid) \<Rightarrow>
      (case auth_webauthn_admin_connect hi pool ctx w of
        (None, w) \<Rightarrow> (AUTH_WEBAUTHN_ADMIN_EX_FAIL, w)
      | (Some redis, w) \<Rightarrow>
      let (rc, cred, s) = ngx_auth_webauthn_credential_get hi (Some redis) (Some pool) (Some (ax_key_prefix ctx)) (Some cid)
                            (Some credential_zero) (w_srv w);
          w = w\<lparr> w_srv := snd (ngx_auth_webauthn_redis_close hi (Some redis) s) \<rparr>
      in
      if rc = NGX_DECLINED then (AUTH_WEBAUTHN_ADMIN_EX_FAIL, eprint ''error: no such credential'' w)
      else if rc \<noteq> NGX_OK then (AUTH_WEBAUTHN_ADMIN_EX_FAIL, eprint ''error: failed to read credential'' w)
      else (AUTH_WEBAUTHN_ADMIN_EX_OK, print (show_text cid (the cred)) w)))"

section \<open>Dispatch\<close>

definition AUTH_WEBAUTHN_ADMIN_VERSION :: bytes where "AUTH_WEBAUTHN_ADMIN_VERSION = ''0.1.0''"

definition ngx_auth_webauthn_admin_usage :: bytes where
  "ngx_auth_webauthn_admin_usage = concat (map line
     [''usage: auth-webauthn-admin <command> [options]'',
      '''',
      ''commands:'',
      ''  register   register a credential from an AttestationResponse JSON'',
      ''  revoke     delete a credential by id'',
      ''  list       list a user'' @ [CHR 0x27] @ ''s credentials'',
      ''  show       show one credential in detail'',
      '''',
      ''common options (all commands):'',
      ''  --redis=<host:port>          Redis server (required)'',
      ''  --redis-password=<s|file:p>  Redis AUTH (literal or file:<path>)'',
      ''  --redis-db=<int>             Redis DB number (default 0)'',
      ''  --redis-timeout=<ms>         connect/command timeout (default '' @ show_nat AUTH_WEBAUTHN_ADMIN_TIMEOUT_MS @ '')'',
      ''  --key-prefix=<string>        Redis key prefix (default \"'' @ ngx_auth_webauthn_admin_default_prefix @ ''\")'',
      '''',
      ''  -h, --help                   show help; --version prints version'',
      '''',
      ''run '' @ [CHR 0x27] @ ''auth-webauthn-admin <command> --help'' @ [CHR 0x27] @ '' for per-command options''])"

text \<open>\<open>pool\<close> is what \<open>ngx_create_pool\<close> returned; \<open>argv\<close> includes the program's name.\<close>

definition admin_main ::
    "('c, 's) hiredis \<Rightarrow> 'k openssl \<Rightarrow> 'j nxe_json \<Rightarrow> cbor_load_t \<Rightarrow> ngx_pool_t option \<Rightarrow> (bytes \<Rightarrow> stream option) \<Rightarrow> 64 word
     \<Rightarrow> bytes list \<Rightarrow> 's world \<Rightarrow> admin_exit \<times> 's world" where
  "admin_main hi ossl js cbor pool fopen now argv w =
     (if length argv < 2 then (AUTH_WEBAUTHN_ADMIN_EX_USAGE, eprints ngx_auth_webauthn_admin_usage w)
      else
      let cmd = argv ! 1; args = drop 2 argv in
      if cmd = ''-h'' \<or> cmd = ''--help'' then (AUTH_WEBAUTHN_ADMIN_EX_OK, print ngx_auth_webauthn_admin_usage w)
      else if cmd = ''-V'' \<or> cmd = ''--version''
      then (AUTH_WEBAUTHN_ADMIN_EX_OK, print (line (''auth-webauthn-admin '' @ AUTH_WEBAUTHN_ADMIN_VERSION)) w)
      else
      (case pool of
        None \<Rightarrow> (AUTH_WEBAUTHN_ADMIN_EX_FAIL, eprint ''error: out of memory'' w)
      | Some pool \<Rightarrow>
      if cmd = ''register'' then auth_webauthn_admin_cmd_register hi ossl js cbor pool fopen now admin_ctx_init args w
      else if cmd = ''revoke'' then auth_webauthn_admin_cmd_revoke hi pool fopen admin_ctx_init args w
      else if cmd = ''list'' then auth_webauthn_admin_cmd_list hi pool fopen admin_ctx_init args w
      else if cmd = ''show'' then auth_webauthn_admin_cmd_show hi pool fopen admin_ctx_init args w
      else
        (AUTH_WEBAUTHN_ADMIN_EX_USAGE,
         eprints ngx_auth_webauthn_admin_usage (eprint (line (''error: unknown command '' @ quoted cmd)) w))))"

section \<open>Specification\<close>

definition b64_member :: "'j nxe_json \<Rightarrow> 'j \<Rightarrow> string \<Rightarrow> bytes \<Rightarrow> bool" where
  "b64_member js obj key x \<longleftrightarrow> (\<exists>node enc. nxe_json_object_get js obj key = Some node \<and> nxe_json_string js node = Some enc \<and> decoded enc = Some x)"

text \<open>The response attests a new credential for the RP id: its attestation object carries authenticator data with an
  attested credential, which verifies at the required level over the hash of the client data.\<close>

definition attested ::
    "'k openssl \<Rightarrow> 'j nxe_json \<Rightarrow> cbor_load_t \<Rightarrow> ngx_pool_t \<Rightarrow> bytes \<Rightarrow> bytes \<Rightarrow> att_require \<Rightarrow> authdata \<Rightarrow> 'k \<Rightarrow> 32 word \<Rightarrow> bool" where
  "attested ossl js cbor pool body rp_id require ad key alg \<longleftrightarrow>
     (\<exists>json response cd att_obj att cdh.
        nxe_json_parse_untrusted js body = Some json \<and> nxe_json_object_get js json ''response'' = Some response
        \<and> nxe_json_is_object js response
        \<and> b64_member js response ''clientDataJSON'' cd \<and> b64_member js response ''attestationObject'' att_obj
        \<and> ngx_auth_webauthn_attestation_parse cbor (Some pool) (Some att_obj) (length att_obj) (Some attestation_zero) = (NGX_OK, Some att)
        \<and> ngx_auth_webauthn_authdata_parse (Some (att_auth_data att)) (length (att_auth_data att)) (Some authdata_zero) = (NGX_OK, Some ad)
        \<and> ad_flags ad AND FLAG_AT \<noteq> 0 \<and> ad_credential_id ad \<noteq> [] \<and> ad_cose_public_key ad \<noteq> []
        \<and> sha256 ossl cd = Some cdh \<and> attestation_ok ossl cbor att rp_id cdh require
        \<and> ngx_auth_webauthn_cose_to_pkey ossl cbor (Some (ad_cose_public_key ad)) (length (ad_cose_public_key ad)) (Some None) (Some 0)
            = (NGX_OK, Some (Some key), Some alg))"

text \<open>\<open>i2d_PUBKEY\<close> writes as many bytes as it says.\<close>

definition i2d_law :: "'k openssl \<Rightarrow> bool" where
  "i2d_law ossl \<longleftrightarrow> (\<forall>k. int (length (snd (i2d_PUBKEY ossl k))) = fst (i2d_PUBKEY ossl k))"

section \<open>Lemmas\<close>

lemma decode_member_cases:
  assumes "ngx_auth_webauthn_admin_decode_member js pool obj key w = (r, w')"
  shows "w_srv w' = w_srv w" and "r = Some x \<Longrightarrow> b64_member js obj key x"
  using assms by (auto simp: ngx_auth_webauthn_admin_decode_member_def b64_member_def Option.bind_eq_Some_conv
      split: option.splits if_splits)

lemma cose_to_der_OK:
  assumes "ngx_auth_webauthn_cose_to_der ossl cbor (Some pool) (Some cose) (length cose) (Some []) (Some 0) = (NGX_OK, der, alg)"
    and "i2d_law ossl"
  obtains key a where "ngx_auth_webauthn_cose_to_pkey ossl cbor (Some cose) (length cose) (Some None) (Some 0) = (NGX_OK, Some (Some key), Some a)"
    "der = Some (snd (i2d_PUBKEY ossl key))" "alg = Some a" "snd (i2d_PUBKEY ossl key) \<noteq> []" "a \<noteq> 0"
proof -
  obtain rc pkey al where p: "ngx_auth_webauthn_cose_to_pkey ossl cbor (Some cose) (length cose) (Some None) (Some 0) = (rc, pkey, al)"
    by (metis surj_pair)
  have rc: "rc = NGX_OK" using assms(1) by (auto simp: ngx_auth_webauthn_cose_to_der_def p split: if_splits)
  with p obtain key a where k: "pkey = Some (Some key)" "al = Some a" "a \<noteq> 0"
    using cose_to_pkey_OK_iff [of ossl cbor cose None 0 pkey al] cose_to_pkey_alg [of ossl cbor cose None 0 pkey al] by auto
  obtain n bs where i: "i2d_PUBKEY ossl key = (n, bs)" by fastforce
  with assms(2) have "int (length bs) = n" unfolding i2d_law_def by (metis fst_conv snd_conv)
  with assms(1) p rc k i have "der = Some bs" "alg = Some a" "bs \<noteq> []"
    by (auto simp: ngx_auth_webauthn_cose_to_der_def Let_def split: if_splits)
  with that p rc k i show thesis by simp
qed

lemma authdata_aaguid:
  assumes "ngx_auth_webauthn_authdata_parse (Some d) (length d) (Some authdata_zero) = (NGX_OK, Some ad)" and "ad_flags ad AND FLAG_AT \<noteq> 0"
  shows "length (ad_aaguid ad) = 16"
  using assms by (auto simp: ngx_auth_webauthn_authdata_parse_def authdata_const_defs Let_def split: if_splits)

lemma attestation_parse_out:
  "fst (ngx_auth_webauthn_attestation_parse cbor (Some pool) d n (Some a)) = NGX_OK \<Longrightarrow>
   \<exists>att. ngx_auth_webauthn_attestation_parse cbor (Some pool) d n (Some a) = (NGX_OK, Some att)"
  by (auto simp: ngx_auth_webauthn_attestation_parse_def Let_def split_beta
      split: option.splits prod.splits cbor_item.splits bool.splits if_splits)

lemma register_attest_sound:
  assumes "register_attest ossl cbor pool cd att_obj rp_id require = Inr (ad, der, alg)" and "i2d_law ossl"
  obtains att cdh key where
    "ngx_auth_webauthn_attestation_parse cbor (Some pool) (Some att_obj) (length att_obj) (Some attestation_zero) = (NGX_OK, Some att)"
    "ngx_auth_webauthn_authdata_parse (Some (att_auth_data att)) (length (att_auth_data att)) (Some authdata_zero) = (NGX_OK, Some ad)"
    "ad_flags ad AND FLAG_AT \<noteq> 0" "ad_credential_id ad \<noteq> []" "ad_cose_public_key ad \<noteq> []" "sha256 ossl cd = Some cdh"
    "attestation_ok ossl cbor att rp_id cdh require"
    "ngx_auth_webauthn_cose_to_pkey ossl cbor (Some (ad_cose_public_key ad)) (length (ad_cose_public_key ad)) (Some None) (Some 0)
       = (NGX_OK, Some (Some key), Some alg)"
    "der = snd (i2d_PUBKEY ossl key)" "der \<noteq> []" "alg \<noteq> 0"
proof -
  obtain rc1 o1 where p1: "ngx_auth_webauthn_attestation_parse cbor (Some pool) (Some att_obj) (length att_obj) (Some attestation_zero)
      = (rc1, o1)" by fastforce
  have 1: "rc1 = NGX_OK" using assms(1) by (auto simp: register_attest_def p1 split: if_splits)
  then obtain att where att: "o1 = Some att" using attestation_parse_out [of cbor pool "Some att_obj" "length att_obj" attestation_zero] p1 by auto
  obtain rc2 o2 where p2: "ngx_auth_webauthn_authdata_parse (Some (att_auth_data att)) (length (att_auth_data att)) (Some authdata_zero)
      = (rc2, o2)" by fastforce
  have 2: "rc2 = NGX_OK" using assms(1) 1 by (auto simp: register_attest_def p1 att p2 split: if_splits)
  then obtain ad' where ad': "o2 = Some ad'" using authdata_parse_OK_out [of "Some (att_auth_data att)" "length (att_auth_data att)" authdata_zero] p2 by auto
  let ?buf = "Some (replicate NGX_AUTH_WEBAUTHN_SHA256_LEN (CHR 0x00))"
  obtain rc3 o3 where p3: "ngx_auth_webauthn_hash_sha256 ossl (Some cd) (length cd) ?buf = (rc3, o3)" by fastforce
  obtain rc4 o4 al where p4: "ngx_auth_webauthn_cose_to_der ossl cbor (Some pool) (Some (ad_cose_public_key ad'))
      (length (ad_cose_public_key ad')) (Some []) (Some 0) = (rc4, o4, al)" by (metis surj_pair)
  note step = assms(1) [unfolded register_attest_def p1 p2 att ad' 1 2 Let_def prod.case option.sel p3 p4]
  from step have 3: "rc3 = NGX_OK" "rc4 = NGX_OK" "ad_flags ad' AND FLAG_AT \<noteq> 0" "ad_credential_id ad' \<noteq> []" "ad_cose_public_key ad' \<noteq> []"
    "ngx_auth_webauthn_attestation_verify ossl cbor (Some pool) (Some att) (Some rp_id) o3 require = NGX_OK"
    "ad' = ad" "der = the o4" "alg = the al" by (simp_all add: p2 ad' 2 p3 p4 split: if_splits)
  obtain cdh where cdh: "sha256 ossl cd = Some cdh" "o3 = Some cdh" using p3 3(1) hash_sha256_OK [of ossl cd] by force
  obtain key a where k: "ngx_auth_webauthn_cose_to_pkey ossl cbor (Some (ad_cose_public_key ad')) (length (ad_cose_public_key ad'))
      (Some None) (Some 0) = (NGX_OK, Some (Some key), Some a)" "o4 = Some (snd (i2d_PUBKEY ossl key))" "al = Some a"
    "snd (i2d_PUBKEY ossl key) \<noteq> []" "a \<noteq> 0"
    by (rule cose_to_der_OK [OF p4 [unfolded 3(2)] assms(2)])
  have "attestation_ok ossl cbor att rp_id cdh require" using 3(6) cdh(2) attestation_verify_OK_iff by blast
  then show thesis by (intro that [of att cdh key]) (use p1 p2 att ad' 1 2 3 cdh k in auto)
qed

lemma register_check_srv:
  assumes "register_check ossl js cbor pool body rp_id require w = (r, w')"
  shows "w_srv w' = w_srv w"
proof -
  have d: "w_srv v = w_srv u" if "ngx_auth_webauthn_admin_decode_member js pool obj key u = (q, v)" for obj key u q v
    using decode_member_cases(1) [OF that] .
  from assms show ?thesis
    unfolding register_check_def by (auto split: option.splits prod.splits if_splits sum.splits dest!: d)
qed

lemma register_check_sound:
  assumes "register_check ossl js cbor pool body rp_id require w = (Some (ad, der, alg), w')" and "i2d_law ossl"
  obtains key where "attested ossl js cbor pool body rp_id require ad key alg" "der = snd (i2d_PUBKEY ossl key)" "der \<noteq> []"
    "alg \<noteq> 0" "length (ad_aaguid ad) = 16"
proof -
  from assms(1) obtain json response cd w1 att_obj w2 where r: "nxe_json_parse_untrusted js body = Some json"
    "nxe_json_object_get js json ''response'' = Some response" "nxe_json_is_object js response"
    "ngx_auth_webauthn_admin_decode_member js pool response ''clientDataJSON'' w = (Some cd, w1)"
    "ngx_auth_webauthn_admin_decode_member js pool response ''attestationObject'' w1 = (Some att_obj, w2)"
    "register_attest ossl cbor pool cd att_obj rp_id require = Inr (ad, der, alg)"
    unfolding register_check_def by (auto split: option.splits prod.splits if_splits sum.splits)
  note m = decode_member_cases(2) [OF r(4) refl] decode_member_cases(2) [OF r(5) refl]
  show thesis
  proof (rule register_attest_sound [OF r(6) assms(2)])
    fix att cdh key
    assume a: "ngx_auth_webauthn_attestation_parse cbor (Some pool) (Some att_obj) (length att_obj) (Some attestation_zero) = (NGX_OK, Some att)"
      "ngx_auth_webauthn_authdata_parse (Some (att_auth_data att)) (length (att_auth_data att)) (Some authdata_zero) = (NGX_OK, Some ad)"
      "ad_flags ad AND FLAG_AT \<noteq> 0" "ad_credential_id ad \<noteq> []" "ad_cose_public_key ad \<noteq> []" "sha256 ossl cd = Some cdh"
      "attestation_ok ossl cbor att rp_id cdh require"
      "ngx_auth_webauthn_cose_to_pkey ossl cbor (Some (ad_cose_public_key ad)) (length (ad_cose_public_key ad)) (Some None) (Some 0)
       = (NGX_OK, Some (Some key), Some alg)" and d: "der = snd (i2d_PUBKEY ossl key)" "der \<noteq> []" "alg \<noteq> 0"
    have "attested ossl js cbor pool body rp_id require ad key alg" unfolding attested_def using r(1-3) m a by blast
    with d authdata_aaguid [OF a(2,3)] that show thesis by blast
  qed
qed

lemma register_cred_sels: "cred_user_id (register_cred cid uid ad der alg tr now) = uid"
  "cred_credential_id (register_cred cid uid ad der alg tr now) = cid" "cred_has_aaguid (register_cred cid uid ad der alg tr now)"
  by (simp_all add: register_cred_def)

context redis_server
begin

lemma admin_connect_contract:
  assumes "auth_webauthn_admin_connect hi pool ctx w = (r, w')"
  shows "dbs (w_srv w') = dbs (w_srv w)"
    and "r = Some rd \<Longrightarrow> \<exists>c. rd_ctx rd = Some c \<and> sel (w_srv w') c = ax_redis_db ctx \<and> rd_pool rd = pool"
proof -
  obtain rc o' s where c: "ngx_auth_webauthn_redis_connect hi (Some pool) (Some (admin_conf ctx)) (Some None) (w_srv w) = (rc, o', s)"
    by (metis surj_pair)
  note cc = connect_contract [OF c]
  show "dbs (w_srv w') = dbs (w_srv w)"
    using assms cc c by (auto simp: auth_webauthn_admin_connect_def Let_def split: if_splits)
  show "\<exists>c. rd_ctx rd = Some c \<and> sel (w_srv w') c = ax_redis_db ctx \<and> rd_pool rd = pool" if "r = Some rd"
    using assms cc c that by (auto simp: auth_webauthn_admin_connect_def admin_conf_def Let_def split: if_splits)
qed

text \<open>The effect of a put on the abstract store, whatever Redis does.\<close>

lemma put_abs:
  assumes "ngx_auth_webauthn_credential_put hi (Some rd) (Some pool) (Some prefix) (Some cred) s = (rc, s')"
    and "rd_ctx rd = Some c" and "cred_inv prefix (dbs s (sel s c))" and "credential_wf cred" and "cred_has_aaguid cred"
  obtains tr where "rc \<noteq> NGX_OK \<and> cred_abs prefix (dbs s' (sel s c)) = cred_abs prefix (dbs s (sel s c))
     \<or> cred_abs prefix (dbs s' (sel s c))
         = (cred_abs prefix (dbs s (sel s c)))(cred_credential_id cred \<mapsto> cred\<lparr> cred_transports := tr \<rparr>)"
    "dbs s (sel s c) (cred_key prefix (cred_credential_id cred)) = None \<Longrightarrow> tr = cred_transports cred"
proof -
  let ?id = "cred_credential_id cred" and ?db = "dbs s (sel s c)" and ?db' = "dbs s' (sel s c)"
  note p = put_contract [OF assms(1-3)]
  have d: "distinct (map fst (hash_at ?db (cred_key prefix ?id)))"
    using assms(3) by (cases rule: cred_inv_cases [where cid = ?id]) (auto simp: hash_at_def)
  from credential_of_overwrite [OF this assms(4,5)] obtain tr where
    tr: "credential_of ?id (hset_fields (credential_pairs cred) (hash_at ?db (cred_key prefix ?id))) = Some (cred\<lparr> cred_transports := tr \<rparr>)"
    "hash_at ?db (cred_key prefix ?id) = [] \<longrightarrow> tr = cred_transports cred" by blast
  have other: "cred_abs prefix ?db' i = cred_abs prefix ?db i" if "i \<noteq> ?id" for i using p that by (simp add: cred_abs_def)
  have new: "cred_abs prefix ?db' ?id = Some (cred\<lparr> cred_transports := tr \<rparr>)"
    if "?db' (cred_key prefix ?id) = hset_effect prefix ?id (credential_pairs cred) ?db (cred_key prefix ?id)"
    using that tr(1) by (simp add: cred_abs_def hset_effect_def)
  have old: "cred_abs prefix ?db' ?id = cred_abs prefix ?db ?id" if "?db' (cred_key prefix ?id) = ?db (cred_key prefix ?id)"
    using that by (simp add: cred_abs_def)
  have "rc \<noteq> NGX_OK \<and> cred_abs prefix ?db' = cred_abs prefix ?db
     \<or> cred_abs prefix ?db' = (cred_abs prefix ?db)(?id \<mapsto> cred\<lparr> cred_transports := tr \<rparr>)"
  proof (cases "?db' (cred_key prefix ?id) = hset_effect prefix ?id (credential_pairs cred) ?db (cred_key prefix ?id)")
    case True
    then show ?thesis using other new by (auto simp: fun_eq_iff)
  next
    case False
    with p have "rc \<noteq> NGX_OK" "?db' (cred_key prefix ?id) = ?db (cred_key prefix ?id)" by auto
    then show ?thesis using other old by (metis ext)
  qed
  with that tr(2) show thesis by (simp add: hash_at_def)
qed

end

text \<open>The attestation level an option stands for.\<close>

definition require_of :: "bytes option \<Rightarrow> att_require" where
  "require_of r = (if r = Some ''packed'' then NGX_AUTH_WEBAUTHN_ATT_PACKED else NGX_AUTH_WEBAUTHN_ATT_NONE)"

abbreviation register_none :: register_opts where
  "register_none \<equiv> \<lparr> ro_user_id = None, ro_response_file = None, ro_rp_id = None, ro_require = None, ro_transports = None \<rparr>"

context redis_server
begin

lemma register_store_contract:
  assumes "register_store hi pool ctx cred w = (e, w')" and "prefix = ax_key_prefix ctx" and "n = ax_redis_db ctx"
    and "cred_inv prefix (dbs (w_srv w) n)" and "cred_user_id cred \<noteq> [] \<Longrightarrow> credential_wf cred" and "cred_has_aaguid cred"
  shows "cred_inv prefix (dbs (w_srv w') n)
     \<and> (e \<noteq> AUTH_WEBAUTHN_ADMIN_EX_OK \<and> cred_abs prefix (dbs (w_srv w') n) = cred_abs prefix (dbs (w_srv w) n)
        \<or> (\<exists>tr. cred_user_id cred \<noteq> [] \<and> cred_abs prefix (dbs (w_srv w') n)
               = (cred_abs prefix (dbs (w_srv w) n))(cred_credential_id cred \<mapsto> cred\<lparr> cred_transports := tr \<rparr>)
             \<and> (e = AUTH_WEBAUTHN_ADMIN_EX_OK \<longrightarrow> cred_credential_id cred \<in> cred_index prefix (dbs (w_srv w') n) (cred_user_id cred))))"
proof -
  obtain r w1 where c: "auth_webauthn_admin_connect hi pool ctx w = (r, w1)" by fastforce
  note cc = admin_connect_contract [OF c]
  show ?thesis
  proof (cases r)
    case None
    with assms c cc(1) show ?thesis by (simp add: register_store_def)
  next
    case (Some rd)
    with cc(2) assms(3) obtain c' where rd: "rd_ctx rd = Some c'" "sel (w_srv w1) c' = n" by blast
    obtain rc s where p: "ngx_auth_webauthn_credential_put hi (Some rd) (Some pool) (Some prefix) (Some cred) (w_srv w1) = (rc, s)"
      by fastforce
    have inv: "cred_inv prefix (dbs (w_srv w1) (sel (w_srv w1) c'))" using cc(1) rd(2) assms(4) by simp
    have fin: "dbs (w_srv w') = dbs s" "e = AUTH_WEBAUTHN_ADMIN_EX_OK \<longleftrightarrow> rc = NGX_OK"
      using assms(1,2) c Some p close_keeps(1) [where rd = "Some rd" and s = s]
      by (auto simp: register_store_def Let_def split: if_splits)
    note pc = put_contract [OF p rd(1) inv]
    show ?thesis
    proof (cases "cred_user_id cred = []")
      case True
      with p have "rc = NGX_ERROR" "s = w_srv w1" by (auto simp: ngx_auth_webauthn_credential_put_def)
      then show ?thesis using fin cc(1) assms(4) by simp
    next
      case False
      obtain tr where "rc \<noteq> NGX_OK \<and> cred_abs prefix (dbs s n) = cred_abs prefix (dbs (w_srv w1) n)
         \<or> cred_abs prefix (dbs s n) = (cred_abs prefix (dbs (w_srv w1) n))(cred_credential_id cred \<mapsto> cred\<lparr> cred_transports := tr \<rparr>)"
        using put_abs [OF p rd(1) inv assms(5) [OF False] assms(6)] unfolding rd(2) by metis
      then show ?thesis using pc fin cc(1) False unfolding rd(2) by auto
    qed
  qed
qed

text \<open>What \<open>register\<close> does to the store after its options are read.\<close>

lemma register_contract:
  assumes "option_loop pool fopen register_local ngx_auth_webauthn_admin_register_usage (getopt_long register_longopts args) ctx
      register_none w = (Inr (ctx', l), w1)"
    and "auth_webauthn_admin_cmd_register hi ossl js cbor pool fopen now ctx args w = (e, w')"
    and "prefix = ax_key_prefix ctx'" and "n = ax_redis_db ctx'" and "cred_inv prefix (dbs (w_srv w) n)" and "i2d_law ossl"
  shows "cred_inv prefix (dbs (w_srv w') n)
     \<and> (e \<noteq> AUTH_WEBAUTHN_ADMIN_EX_OK \<and> cred_abs prefix (dbs (w_srv w') n) = cred_abs prefix (dbs (w_srv w) n)
        \<or> (\<exists>uid rp body ad key alg tr cid.
             ro_user_id l = Some uid \<and> uid \<noteq> [] \<and> ro_rp_id l = Some rp \<and> cid = ngx_encode_base64url (ad_credential_id ad)
             \<and> attested ossl js cbor pool body rp (require_of (ro_require l)) ad key alg
             \<and> cred_abs prefix (dbs (w_srv w') n) = (cred_abs prefix (dbs (w_srv w) n))
                 (cid \<mapsto> (register_cred cid uid ad (snd (i2d_PUBKEY ossl key)) alg (ro_transports l) now)\<lparr> cred_transports := tr \<rparr>)
             \<and> (e = AUTH_WEBAUTHN_ADMIN_EX_OK \<longrightarrow> cid \<in> cred_index prefix (dbs (w_srv w') n) uid)))"
proof -
  have w1: "w_srv w1 = w_srv w" using option_loop_ok(1) [OF assms(1)] .
  note cmd = assms(2) [unfolded auth_webauthn_admin_cmd_register_def assms(1) Let_def prod.case sum.case]
  have same: ?thesis if "w_srv w' = w_srv w" "e \<noteq> AUTH_WEBAUTHN_ADMIN_EX_OK" using that assms(5) by simp
  show ?thesis
  proof (cases "ro_user_id l = None \<or> ro_response_file l = None \<or> ro_rp_id l = None \<or> ro_require l \<notin> {None, Some ''packed'', Some ''none''}")
    case True
    with cmd w1 show ?thesis by (intro same) (auto split: if_splits)
  next
    case False
    then obtain uid path rp where o: "ro_user_id l = Some uid" "ro_response_file l = Some path" "ro_rp_id l = Some rp" by auto
    obtain r2 w2 where f: "auth_webauthn_admin_read_file pool fopen path w1 = (r2, w2)" by fastforce
    have w2: "w_srv w2 = w_srv w" using read_file_srv [of pool fopen path w1] f w1 by simp
    have cmd2: "(case r2 of None \<Rightarrow> (AUTH_WEBAUTHN_ADMIN_EX_FAIL, w2) | Some body \<Rightarrow>
        (case register_check ossl js cbor pool body rp (require_of (ro_require l)) w2 of
          (None, w) \<Rightarrow> (AUTH_WEBAUTHN_ADMIN_EX_FAIL, w)
        | (Some (ad, der, alg), w) \<Rightarrow>
        if \<not> pool ''cid_enc.data'' (ngx_base64_encoded_length (length (ad_credential_id ad)))
        then (AUTH_WEBAUTHN_ADMIN_EX_FAIL, w)
        else register_store hi pool ctx'
          (register_cred (ngx_encode_base64url (ad_credential_id ad)) uid ad der alg (ro_transports l) now) w)) = (e, w')"
    proof -
      have g: "(ro_user_id l = None \<or> ro_response_file l = None \<or> ro_rp_id l = None) = False"
        "(ro_require l \<notin> {None, Some ''packed'', Some ''none''}) = False" using False by auto
      show ?thesis
        using cmd unfolding g if_False require_of_def [symmetric] unfolding o f option.sel
        by (cases r2) (simp_all only: prod.case option.case)
    qed
    show ?thesis
    proof (cases r2)
      case None
      with cmd2 w2 show ?thesis by (intro same) auto
    next
      case (Some body)
      obtain r3 w3 where k: "register_check ossl js cbor pool body rp (require_of (ro_require l)) w2 = (r3, w3)" by fastforce
      have w3: "w_srv w3 = w_srv w" using register_check_srv [OF k] w2 by simp
      show ?thesis
      proof (cases "\<exists>ad der alg. r3 = Some (ad, der, alg)
          \<and> pool ''cid_enc.data'' (ngx_base64_encoded_length (length (ad_credential_id ad)))")
        case False
        with cmd2 Some k w3 show ?thesis by (intro same) (auto split: option.splits)
      next
        case True
        then obtain ad der alg where r3: "r3 = Some (ad, der, alg)"
          "pool ''cid_enc.data'' (ngx_base64_encoded_length (length (ad_credential_id ad)))" by blast
        let ?cred = "register_cred (ngx_encode_base64url (ad_credential_id ad)) uid ad der alg (ro_transports l) now"
        obtain key where a: "attested ossl js cbor pool body rp (require_of (ro_require l)) ad key alg"
          "der = snd (i2d_PUBKEY ossl key)" "der \<noteq> []" "alg \<noteq> 0" "length (ad_aaguid ad) = 16"
          by (rule register_check_sound [OF k [unfolded r3(1)] assms(6)])
        have "ad_credential_id ad \<noteq> []" using a(1) by (auto simp: attested_def)
        then have "ngx_encode_base64url (ad_credential_id ad) \<noteq> []"
          using encode_length [of "ad_credential_id ad"] by (cases "ad_credential_id ad") auto
        then have wf: "cred_user_id ?cred \<noteq> [] \<Longrightarrow> credential_wf ?cred" using a by (simp add: credential_wf_def register_cred_def)
        have st: "register_store hi pool ctx' ?cred w3 = (e, w')" using cmd2 Some k r3 by simp
        have "cred_inv prefix (dbs (w_srv w3) n)" using w3 assms(5) by simp
        from register_store_contract [OF st assms(3,4) this wf register_cred_sels(3), unfolded w3 register_cred_sels a(2)]
        show ?thesis using a(1) o by blast
      qed
    qed
  qed
qed

end

context redis_server
begin

lemma revoke_contract:
  assumes "option_loop pool fopen credential_local ngx_auth_webauthn_admin_revoke_usage (getopt_long credential_longopts args) ctx
      None w = (Inr (ctx', Some cid), w1)"
    and "auth_webauthn_admin_cmd_revoke hi pool fopen ctx args w = (e, w')"
    and "prefix = ax_key_prefix ctx'" and "n = ax_redis_db ctx'" and "cred_inv prefix (dbs (w_srv w) n)"
  shows "cred_inv prefix (dbs (w_srv w') n)
     \<and> (e \<noteq> AUTH_WEBAUTHN_ADMIN_EX_OK \<and> cred_abs prefix (dbs (w_srv w') n) = cred_abs prefix (dbs (w_srv w) n)
        \<or> cred_abs prefix (dbs (w_srv w') n) = (cred_abs prefix (dbs (w_srv w) n))(cid := None))
     \<and> (e = AUTH_WEBAUTHN_ADMIN_EX_OK \<longrightarrow> (\<exists>r. cred_abs prefix (dbs (w_srv w) n) cid = Some r
           \<and> (cred_user_id r \<noteq> [] \<longrightarrow> cid \<notin> cred_index prefix (dbs (w_srv w') n) (cred_user_id r))))"
proof -
  have w1: "w_srv w1 = w_srv w" using option_loop_ok(1) [OF assms(1)] .
  obtain r w2 where c: "auth_webauthn_admin_connect hi pool ctx' w1 = (r, w2)" by fastforce
  note cc = admin_connect_contract [OF c]
  show ?thesis
  proof (cases r)
    case None
    with assms c cc(1) w1 show ?thesis by (simp add: auth_webauthn_admin_cmd_revoke_def)
  next
    case (Some rd)
    with cc(2) assms(4) obtain c' where rd: "rd_ctx rd = Some c'" "sel (w_srv w2) c' = n" by blast
    obtain rc s where d: "ngx_auth_webauthn_credential_delete hi (Some rd) (Some pool) (Some prefix) (Some cid) (w_srv w2) = (rc, s)"
      by fastforce
    have inv: "cred_inv prefix (dbs (w_srv w2) (sel (w_srv w2) c'))" using cc(1) rd(2) w1 assms(5) by simp
    have fin: "dbs (w_srv w') = dbs s" "e = AUTH_WEBAUTHN_ADMIN_EX_OK \<longleftrightarrow> rc = NGX_OK"
      using assms(1-3) c Some d close_keeps(1) [where rd = "Some rd" and s = s]
      by (auto simp: auth_webauthn_admin_cmd_revoke_def Let_def split: if_splits)
    note dc = delete_contract [OF d rd(1) inv, unfolded rd(2) cc(1) w1]
    have eq: "cred_abs prefix (dbs s n) = (cred_abs prefix (dbs (w_srv w) n))(cid := cred_abs prefix (dbs s n) cid)"
      using dc by (auto simp: cred_abs_def fun_eq_iff)
    have "cred_abs prefix (dbs s n) cid = cred_abs prefix (dbs (w_srv w) n) cid \<or> cred_abs prefix (dbs s n) cid = None"
      using dc by (auto simp: cred_abs_def)
    moreover have "cred_abs prefix (dbs s n) cid = None" if "rc = NGX_OK" using dc that by (simp add: cred_abs_def)
    ultimately have "rc \<noteq> NGX_OK \<and> cred_abs prefix (dbs s n) = cred_abs prefix (dbs (w_srv w) n)
        \<or> cred_abs prefix (dbs s n) = (cred_abs prefix (dbs (w_srv w) n))(cid := None)"
      using eq by (metis fun_upd_triv)
    with dc fin show ?thesis by auto
  qed
qed

lemma list_loop_dbs:
  "rd_ctx rd = Some c \<Longrightarrow> cred_inv prefix (dbs (w_srv w) (sel (w_srv w) c)) \<Longrightarrow>
   dbs (w_srv (list_loop hi rd pool prefix xs w)) = dbs (w_srv w)"
proof (induction xs arbitrary: w)
  case (Cons x xs)
  obtain rc cr s where g: "ngx_auth_webauthn_credential_get hi (Some rd) (Some pool) (Some prefix) (Some x) (Some credential_zero) (w_srv w)
      = (rc, cr, s)" by (metis surj_pair)
  note gc = get_contract [OF g Cons.prems]
  have "cred_inv prefix (dbs s (sel s c))" "dbs s = dbs (w_srv w)" using gc(1,2) Cons.prems(2) by (simp_all add: keeps_def)
  with Cons.IH [OF Cons.prems(1)] g show ?case by simp
qed simp

end

end
