(* ===== verification/Admin_Properties.thy ===== *)
theory Admin_Properties
  imports Admin_Commands
begin

text \<open>
  What the subcommands of \<open>auth-webauthn-admin\<close> do to the credential store: soundness whatever Redis does, from the
  contracts of \<open>Admin_Commands\<close>, and completeness with Redis up and memory available.
\<close>

section \<open>With Redis up\<close>

text \<open>The row of the listing for a credential id.\<close>

definition row_of :: "(bytes \<Rightarrow> credential option) \<Rightarrow> bytes \<Rightarrow> bytes" where
  "row_of creds cid =
     (case creds cid of
        Some cred \<Rightarrow> list_row (cstr cid) (auth_webauthn_admin_alg_name (cred_alg cred)) (show_nat (unat (cred_sign_count cred)))
                       (auth_webauthn_admin_fmt_time (cred_created_at cred) 24)
      | None \<Rightarrow> list_row (cstr cid) ''?'' ''?'' ''(missing)'')"

lemma admin_connect_out: "auth_webauthn_admin_connect hi pool ctx w = (Some rd, w') \<Longrightarrow> w_out w' = w_out w"
  by (auto simp: auth_webauthn_admin_connect_def Let_def eprint_def eprints_def split: if_splits prod.splits)

context reliable_server
begin

lemma admin_connect_reliable:
  assumes "auth_webauthn_admin_connect hi pool ctx w = (r, w')" and "\<And>site n. pool site n"
    and "ax_redis_host ctx \<noteq> []" and "ax_redis_port ctx \<noteq> 0" and "ax_redis_db ctx \<le> 65535"
  obtains rd where "r = Some rd"
proof -
  obtain rc o' s where c: "ngx_auth_webauthn_redis_connect hi (Some pool) (Some (admin_conf ctx)) (Some None) (w_srv w) = (rc, o', s)"
    by (metis surj_pair)
  have "\<And>site n. pool site n" by (rule assms(2))
  from connect_reliable [OF c this] assms(3,5) have "rc = NGX_OK" by (simp add: admin_conf_def)
  with connect_contract [OF c] assms(1,3,4) c that show thesis
    by (auto simp: auth_webauthn_admin_connect_def Let_def)
qed

lemma list_loop_out:
  assumes "\<And>site n. pool site n"
  shows "rd_ctx rd = Some c \<Longrightarrow> cred_inv prefix (dbs (w_srv w) (sel (w_srv w) c)) \<Longrightarrow>
   w_out (list_loop hi rd pool prefix xs w) = w_out w @ concat (map (row_of (cred_abs prefix (dbs (w_srv w) (sel (w_srv w) c)))) xs)"
proof (induction xs arbitrary: w)
  case (Cons x xs)
  obtain rc cr s where g: "ngx_auth_webauthn_credential_get hi (Some rd) (Some pool) (Some prefix) (Some x) (Some credential_zero) (w_srv w)
      = (rc, cr, s)" by (metis surj_pair)
  note gc = get_contract [OF g Cons.prems]
  have k: "cred_inv prefix (dbs s (sel s c))" "dbs s (sel s c) = dbs (w_srv w) (sel (w_srv w) c)"
    using gc(1,2) Cons.prems(2) by (simp_all add: keeps_def)
  have p: "\<And>site n. pool site n" by (rule assms)
  have "if rc = NGX_OK then cr = cred_abs prefix (dbs (w_srv w) (sel (w_srv w) c)) x \<and> cr \<noteq> None
      else cred_abs prefix (dbs (w_srv w) (sel (w_srv w) c)) x = None"
    using gc(3) get_reliable [OF g Cons.prems p] by (cases "cred_abs prefix (dbs (w_srv w) (sel (w_srv w) c)) x") auto
  then show ?case using g k Cons.IH [OF Cons.prems(1)]
    by (auto simp: row_of_def print_def split: if_splits)
qed simp

end

context reliable_server
begin

lemma hset_reliable:
  assumes "ngx_auth_webauthn_redis_hset hi (Some rd) (Some (cred_key prefix cid)) (Some ps) (length ps) s = (rc, s')"
    and "rd_ctx rd = Some c" and "\<And>site n. rd_pool rd site n" and "ps \<noteq> []" and "cred_inv prefix (dbs s (sel s c))"
  shows "rc = NGX_OK"
proof -
  let ?argv = "''HSET'' # cred_key prefix cid # hset_args ps"
  obtain q s1 where ex: "ngx_auth_webauthn_redis_exec hi rd ?argv s = (q, s1)" by fastforce
  from answered [OF ex assms(2)] obtain u rep where q: "q = Some rep"
    "redis_exec u ?argv (dbs s (sel s c)) = (rep, dbs s1 (sel s c))" by auto
  have "\<not> is_error rep"
    by (cases rule: cred_inv_cases [OF assms(5), of cid])
      (use q(2) in \<open>auto simp: exec_HSET [OF assms(4)] cred_inv_entry [OF assms(5)] is_error_def\<close>)
  then show ?thesis
    using assms(1-4) ex q(1)
    by (auto simp: ngx_auth_webauthn_redis_hset_def no_conn_def failed_def Let_def split: if_splits)
qed

lemma set_op_reliable:
  assumes "ngx_auth_webauthn_redis_set_op hi (Some rd) cmd (Some (index_key prefix uid)) (Some x) s = (rc, s')"
    and "cmd = ''SADD'' \<or> cmd = ''SREM''" and "rd_ctx rd = Some c" and "cred_inv prefix (dbs s (sel s c))"
  shows "rc = NGX_OK"
proof -
  obtain q s1 where ex: "ngx_auth_webauthn_redis_exec hi rd [cmd, index_key prefix uid, x] s = (q, s1)" by fastforce
  from answered [OF ex assms(3)] assms(2) obtain u rep where q: "q = Some rep"
    "redis_exec u [cmd, index_key prefix uid, x] (dbs s (sel s c)) = (rep, dbs s1 (sel s c))" by auto
  have "\<not> is_error rep"
    by (cases rule: index_inv_cases [OF assms(4), of uid])
      (use q(2) assms(2) in \<open>auto simp: exec_SADD exec_SREM redis_exec2_def cred_inv_entry [OF assms(4)] is_error_def Let_def split: if_splits\<close>)
  then show ?thesis
    using assms(1,3) ex q(1)
    by (auto simp: ngx_auth_webauthn_redis_set_op_def no_conn_def failed_def Let_def split: if_splits)
qed

lemmas sadd_reliable = set_op_reliable [where cmd = "''SADD''", folded ngx_auth_webauthn_redis_sadd_def, simplified]
lemmas srem_reliable = set_op_reliable [where cmd = "''SREM''", folded ngx_auth_webauthn_redis_srem_def, simplified]

lemma del_reliable:
  assumes "ngx_auth_webauthn_redis_del hi (Some rd) (Some k) s = (rc, s')" and "rd_ctx rd = Some c"
  shows "rc = NGX_OK"
proof -
  obtain q s1 where ex: "ngx_auth_webauthn_redis_exec hi rd [''DEL'', k] s = (q, s1)" by fastforce
  from answered [OF ex assms(2)] have "\<not> failed q" by (auto simp: exec_DEL failed_def is_error_def)
  with assms ex show ?thesis
    by (auto simp: ngx_auth_webauthn_redis_del_def no_conn_def failed_def Let_def split: if_splits)
qed

lemma delete_reliable:
  assumes "ngx_auth_webauthn_credential_delete hi (Some rd) (Some pool) (Some prefix) (Some cid) s = (rc, s')"
    and "rd_ctx rd = Some c" and "\<And>site n. pool site n" and "cred_inv prefix (dbs s (sel s c))"
    and "cred_abs prefix (dbs s (sel s c)) cid = Some cred"
  shows "rc = NGX_OK"
proof -
  let ?k = "cred_key prefix cid"
  have p: "\<And>site n. pool site n" by (rule assms(3))
  obtain rc1 o1 s1 where g: "ngx_auth_webauthn_credential_get hi (Some rd) (Some pool) (Some prefix) (Some cid)
      (Some credential_zero) s = (rc1, o1, s1)" by (metis surj_pair)
  have 1: "rc1 = NGX_OK" "o1 = Some cred" using get_reliable [OF g assms(2,4) p assms(5)] by simp_all
  obtain rc2 s2 where d: "ngx_auth_webauthn_redis_del hi (Some rd) (Some ?k) s1 = (rc2, s2)" by fastforce
  have 2: "rc2 = NGX_OK" using del_reliable [OF d assms(2)] .
  obtain rc3 s3 where r: "ngx_auth_webauthn_redis_srem hi (Some rd) (Some (index_key prefix (cred_user_id cred))) (Some cid) s2
      = (rc3, s3)" by fastforce
  have "cred_inv prefix (dbs s1 (sel s1 c))" using get_contract(1,2) [OF g assms(2,4)] assms(4) by (simp add: keeps_def)
  then have "cred_inv prefix (dbs s2 (sel s2 c))" using del_cred_contract [OF d assms(2)] 2 cred_inv_del by (simp add: keeps_def)
  with srem_reliable [OF r assms(2)] have 3: "rc3 = NGX_OK" .
  have "ngx_auth_webauthn_credential_record_key pool prefix cid = Some ?k"
    "ngx_auth_webauthn_credential_index_key pool prefix (cred_user_id cred) = Some (index_key prefix (cred_user_id cred))"
    using p by (simp_all add: ngx_auth_webauthn_credential_record_key_def cred_key_def
        ngx_auth_webauthn_credential_index_key_def index_key_def)
  with assms(1) g d r 1 2 3 show ?thesis by (auto simp: ngx_auth_webauthn_credential_delete_def Let_def split: if_splits)
qed

lemma put_reliable:
  assumes "ngx_auth_webauthn_credential_put hi (Some rd) (Some pool) (Some prefix) (Some cred) s = (rc, s')"
    and "rd_ctx rd = Some c" and "rd_pool rd = pool" and "\<And>site n. pool site n" and "cred_inv prefix (dbs s (sel s c))"
    and "cred_credential_id cred \<noteq> []" and "cred_user_id cred \<noteq> []"
  shows "rc = NGX_OK"
proof -
  let ?id = "cred_credential_id cred" and ?uid = "cred_user_id cred" and ?ps = "credential_pairs cred"
  have ps: "?ps \<noteq> []" by (simp add: credential_pairs_def)
  obtain rc1 s1 where h: "ngx_auth_webauthn_redis_hset hi (Some rd) (Some (cred_key prefix ?id)) (Some ?ps) (length ?ps) s
      = (rc1, s1)" by fastforce
  obtain rc2 s2 where a: "ngx_auth_webauthn_redis_sadd hi (Some rd) (Some (index_key prefix ?uid)) (Some ?id) s1
      = (rc2, s2)" by fastforce
  note hc = hset_cred_contract [OF h assms(2) ps assms(5)]
  have inv1: "cred_inv prefix (dbs s1 (sel s1 c))" using hc assms(5) hset_effect_inv [OF assms(5) ps] by (metis keeps_def)
  have "rc1 = NGX_OK" using hset_reliable [OF h assms(2) _ ps assms(5)] assms(3,4) by simp
  moreover have "rc2 = NGX_OK" by (rule sadd_reliable [OF a assms(2) inv1])
  moreover have "ngx_auth_webauthn_credential_record_key pool prefix ?id = Some (cred_key prefix ?id)"
    "ngx_auth_webauthn_credential_index_key pool prefix ?uid = Some (index_key prefix ?uid)"
    using assms(4) by (simp_all add: ngx_auth_webauthn_credential_record_key_def cred_key_def
        ngx_auth_webauthn_credential_index_key_def index_key_def)
  ultimately show ?thesis
    using assms(1,6,7) h a by (auto simp: ngx_auth_webauthn_credential_put_def Let_def)
qed

end

text \<open>\<open>i2d_PUBKEY\<close> can encode the key, and says so.\<close>

definition i2d_encodes :: "'k openssl \<Rightarrow> 'k \<Rightarrow> bool" where
  "i2d_encodes ossl key \<longleftrightarrow> (\<exists>der. der \<noteq> [] \<and> i2d_PUBKEY_len ossl key = int (length der) \<and> i2d_PUBKEY ossl key = (int (length der), der))"

lemma decode_member_total:
  "(\<And>site n. pool site n) \<Longrightarrow> b64_member js obj key x \<Longrightarrow>
   ngx_auth_webauthn_admin_decode_member js pool obj key w = (Some x, w)"
  by (auto simp: b64_member_def ngx_auth_webauthn_admin_decode_member_def)

lemma register_attest_complete:
  assumes "\<And>site n. pool site n"
    and "ngx_auth_webauthn_attestation_parse cbor (Some pool) (Some att_obj) (length att_obj) (Some attestation_zero) = (NGX_OK, Some att)"
    and "ngx_auth_webauthn_authdata_parse (Some (att_auth_data att)) (length (att_auth_data att)) (Some authdata_zero) = (NGX_OK, Some ad)"
    and "ad_flags ad AND FLAG_AT \<noteq> 0" and "ad_credential_id ad \<noteq> []" and "ad_cose_public_key ad \<noteq> []" and "sha256 ossl cd = Some cdh"
    and "attestation_ok ossl cbor att rp_id cdh require"
    and "ngx_auth_webauthn_cose_to_pkey ossl cbor (Some (ad_cose_public_key ad)) (length (ad_cose_public_key ad)) (Some None) (Some 0)
       = (NGX_OK, Some (Some key), Some alg)" and "i2d_encodes ossl key"
  shows "register_attest ossl cbor pool cd att_obj rp_id require = Inr (ad, snd (i2d_PUBKEY ossl key), alg)"
proof -
  have h: "ngx_auth_webauthn_hash_sha256 ossl (Some cd) (length cd) (Some (replicate NGX_AUTH_WEBAUTHN_SHA256_LEN (CHR 0x00)))
      = (NGX_OK, Some cdh)" unfolding hash_sha256_OK using assms(7) by simp
  have v: "ngx_auth_webauthn_attestation_verify ossl cbor (Some pool) (Some att) (Some rp_id) (Some cdh) require = NGX_OK"
    using attestation_verify_OK_iff assms(1,8) by blast
  have d: "ngx_auth_webauthn_cose_to_der ossl cbor (Some pool) (Some (ad_cose_public_key ad)) (length (ad_cose_public_key ad))
      (Some []) (Some 0) = (NGX_OK, Some (snd (i2d_PUBKEY ossl key)), Some alg)"
    using assms(1,9,10) by (auto simp: ngx_auth_webauthn_cose_to_der_def i2d_encodes_def)
  from assms(4-6) show ?thesis
    by (simp add: register_attest_def Let_def assms(2,3) h v d)
qed

lemma register_check_complete:
  assumes "\<And>site n. pool site n" and "attested ossl js cbor pool body rp_id require ad key alg" and "i2d_encodes ossl key"
  shows "register_check ossl js cbor pool body rp_id require w = (Some (ad, snd (i2d_PUBKEY ossl key), alg), w)"
proof -
  have p: "\<And>site n. pool site n" by (rule assms(1))
  from assms(2) obtain json response cd att_obj att cdh where
    j: "nxe_json_parse_untrusted js body = Some json" "nxe_json_object_get js json ''response'' = Some response"
       "nxe_json_is_object js response" "b64_member js response ''clientDataJSON'' cd" "b64_member js response ''attestationObject'' att_obj"
    and a: "ngx_auth_webauthn_attestation_parse cbor (Some pool) (Some att_obj) (length att_obj) (Some attestation_zero) = (NGX_OK, Some att)"
      "ngx_auth_webauthn_authdata_parse (Some (att_auth_data att)) (length (att_auth_data att)) (Some authdata_zero) = (NGX_OK, Some ad)"
      "ad_flags ad AND FLAG_AT \<noteq> 0" "ad_credential_id ad \<noteq> []" "ad_cose_public_key ad \<noteq> []" "sha256 ossl cd = Some cdh"
      "attestation_ok ossl cbor att rp_id cdh require"
      "ngx_auth_webauthn_cose_to_pkey ossl cbor (Some (ad_cose_public_key ad)) (length (ad_cose_public_key ad)) (Some None) (Some 0)
       = (NGX_OK, Some (Some key), Some alg)"
    unfolding attested_def by (elim exE conjE) (rule that)
  show ?thesis
    by (simp add: register_check_def j(1-3) decode_member_total [of pool, OF p j(4)] decode_member_total [of pool, OF p j(5)]
        register_attest_complete [of pool, OF p a assms(3)])
qed

context reliable_server
begin

lemma register_store_reliable:
  assumes "register_store hi pool ctx cred w = (e, w')" and "\<And>site n. pool site n"
    and "ctx_ok ctx" and "ax_redis_port ctx \<noteq> 0" and "cred_inv (ax_key_prefix ctx) (dbs (w_srv w) (ax_redis_db ctx))"
    and "cred_credential_id cred \<noteq> []" and "cred_user_id cred \<noteq> []"
  shows "e = AUTH_WEBAUTHN_ADMIN_EX_OK"
proof -
  have p: "\<And>site n. pool site n" by (rule assms(2))
  obtain r w1 where c: "auth_webauthn_admin_connect hi pool ctx w = (r, w1)" by fastforce
  obtain rd where r: "r = Some rd"
    by (rule admin_connect_reliable [OF c p]) (use assms(3,4) in \<open>auto simp: ctx_ok_def\<close>)
  from admin_connect_contract(2) [OF c r] obtain k where k: "rd_ctx rd = Some k" "sel (w_srv w1) k = ax_redis_db ctx" "rd_pool rd = pool"
    by blast
  obtain rc s where q: "ngx_auth_webauthn_credential_put hi (Some rd) (Some pool) (Some (ax_key_prefix ctx)) (Some cred) (w_srv w1) = (rc, s)"
    by fastforce
  have "rc = NGX_OK"
    by (rule put_reliable [OF q k(1,3) p _ assms(6,7)]) (use k(2) admin_connect_contract(1) [OF c] assms(5) in simp)
  with assms(1) c r q show ?thesis by (simp add: register_store_def Let_def)
qed

lemma revoke_complete_exit:
  assumes "option_loop pool fopen credential_local ngx_auth_webauthn_admin_revoke_usage (getopt_long credential_longopts args) ctx
      None w = (Inr (ctx', Some cid), w1)"
    and "auth_webauthn_admin_cmd_revoke hi pool fopen ctx args w = (e, w')"
    and "\<And>site n. pool site n" and "ctx_ok ctx'" and "ax_redis_port ctx' \<noteq> 0"
    and "cred_inv (ax_key_prefix ctx') (dbs (w_srv w) (ax_redis_db ctx'))"
    and "cred_abs (ax_key_prefix ctx') (dbs (w_srv w) (ax_redis_db ctx')) cid = Some cred"
  shows "e = AUTH_WEBAUTHN_ADMIN_EX_OK"
proof -
  have p: "\<And>site n. pool site n" by (rule assms(3))
  have w1: "w_srv w1 = w_srv w" using option_loop_ok(1) [OF assms(1)] .
  obtain r w2 where c: "auth_webauthn_admin_connect hi pool ctx' w1 = (r, w2)" by fastforce
  obtain rd where r: "r = Some rd"
    by (rule admin_connect_reliable [OF c p]) (use assms(4,5) in \<open>auto simp: ctx_ok_def\<close>)
  from admin_connect_contract(2) [OF c r] obtain k where k: "rd_ctx rd = Some k" "sel (w_srv w2) k = ax_redis_db ctx'" by blast
  obtain rc s where d: "ngx_auth_webauthn_credential_delete hi (Some rd) (Some pool) (Some (ax_key_prefix ctx')) (Some cid) (w_srv w2) = (rc, s)"
    by fastforce
  have "rc = NGX_OK"
    by (rule delete_reliable [OF d k(1) p]) (use k(2) admin_connect_contract(1) [OF c] w1 assms(6,7) in simp_all)
  with assms(1,2) c r d show ?thesis by (simp add: auth_webauthn_admin_cmd_revoke_def Let_def)
qed

lemma register_complete_exit:
  assumes "option_loop pool fopen register_local ngx_auth_webauthn_admin_register_usage (getopt_long register_longopts args) ctx
      register_none w = (Inr (ctx', l), w1)"
    and "auth_webauthn_admin_cmd_register hi ossl js cbor pool fopen now ctx args w = (e, w')"
    and "\<And>site n. pool site n" and "ctx_ok ctx'" and "ax_redis_port ctx' \<noteq> 0"
    and "cred_inv (ax_key_prefix ctx') (dbs (w_srv w) (ax_redis_db ctx'))"
    and "ro_user_id l = Some uid" and "uid \<noteq> []" and "ro_rp_id l = Some rp" and "ro_response_file l = Some path"
    and "ro_require l \<in> {None, Some ''packed'', Some ''none''}" and "fst (auth_webauthn_admin_read_file pool fopen path w1) = Some body"
    and "attested ossl js cbor pool body rp (require_of (ro_require l)) ad key alg" and "i2d_encodes ossl key"
  shows "e = AUTH_WEBAUTHN_ADMIN_EX_OK"
proof -
  have p: "\<And>site n. pool site n" by (rule assms(3))
  obtain w2 where f: "auth_webauthn_admin_read_file pool fopen path w1 = (Some body, w2)" using assms(12) by (metis prod.collapse)
  have w2: "w_srv w2 = w_srv w" using read_file_srv [of pool fopen path w1] f option_loop_ok(1) [OF assms(1)] by simp
  let ?cid = "ngx_encode_base64url (ad_credential_id ad)"
  let ?cred = "register_cred ?cid uid ad (snd (i2d_PUBKEY ossl key)) alg (ro_transports l) now"
  have st: "register_store hi pool ctx' ?cred w2 = (e, w')"
    using assms(2,11) register_check_complete [of pool, OF p assms(13,14), of w2] p
    by (auto simp: auth_webauthn_admin_cmd_register_def assms(1,7,9,10) f Let_def require_of_def)
  have "ad_credential_id ad \<noteq> []" using assms(13) by (auto simp: attested_def)
  then have "?cid \<noteq> []" using encode_length [of "ad_credential_id ad"] by (cases "ad_credential_id ad") auto
  with register_store_reliable [OF st p assms(4,5)] w2 assms(6,8) show ?thesis by (simp add: register_cred_sels)
qed

end

context reliable_server
begin

lemma show_reliable:
  assumes "option_loop pool fopen credential_local ngx_auth_webauthn_admin_show_usage (getopt_long credential_longopts args) ctx
      None w = (Inr (ctx', Some cid), w1)"
    and "auth_webauthn_admin_cmd_show hi pool fopen ctx args w = (e, w')"
    and "\<And>site n. pool site n" and "ctx_ok ctx'" and "ax_redis_port ctx' \<noteq> 0"
    and "prefix = ax_key_prefix ctx'" and "n = ax_redis_db ctx'" and "cred_inv prefix (dbs (w_srv w) n)"
  shows "dbs (w_srv w') = dbs (w_srv w)
     \<and> (case cred_abs prefix (dbs (w_srv w) n) cid of
          Some cred \<Rightarrow> e = AUTH_WEBAUTHN_ADMIN_EX_OK \<and> w_out w' = w_out w1 @ show_text cid cred
        | None \<Rightarrow> e = AUTH_WEBAUTHN_ADMIN_EX_FAIL \<and> w_out w' = w_out w1)"
proof -
  have p: "\<And>site n. pool site n" by (rule assms(3))
  have w1: "w_srv w1 = w_srv w" using option_loop_ok(1) [OF assms(1)] .
  obtain r w2 where c: "auth_webauthn_admin_connect hi pool ctx' w1 = (r, w2)" by fastforce
  obtain rd where r: "r = Some rd"
    by (rule admin_connect_reliable [OF c p]) (use assms(4,5) in \<open>auto simp: ctx_ok_def\<close>)
  from admin_connect_contract(2) [OF c r] obtain k where k: "rd_ctx rd = Some k" "sel (w_srv w2) k = n" using assms(7) by blast
  have d: "dbs (w_srv w2) = dbs (w_srv w)" "w_out w2 = w_out w1"
    using admin_connect_contract(1) [OF c] admin_connect_out [OF c [unfolded r]] w1 by simp_all
  obtain rc cr s where g: "ngx_auth_webauthn_credential_get hi (Some rd) (Some pool) (Some prefix) (Some cid) (Some credential_zero) (w_srv w2)
      = (rc, cr, s)" by (metis surj_pair)
  have inv: "cred_inv prefix (dbs (w_srv w2) (sel (w_srv w2) k))" using d k(2) assms(8) by simp
  note gc = get_contract [OF g k(1) inv]
  have "dbs (w_srv w') = dbs s" using assms(1,2,6) c r g close_keeps(1) [where rd = "Some rd" and s = s]
    by (auto simp: auth_webauthn_admin_cmd_show_def Let_def split: if_splits)
  then have "dbs (w_srv w') = dbs (w_srv w)" using gc(2) d(1) by (simp add: keeps_def)
  moreover have "rc = NGX_OK \<and> cr = Some cred" if "cred_abs prefix (dbs (w_srv w) n) cid = Some cred" for cred
    using get_reliable [OF g k(1) inv p] that d k(2) by simp
  moreover have "rc \<noteq> NGX_OK" if "cred_abs prefix (dbs (w_srv w) n) cid = None" using gc(3) that d k(2) by auto
  ultimately show ?thesis
    using assms(1,2,6) c r g d
    by (cases "cred_abs prefix (dbs (w_srv w) n) cid")
      (auto simp: auth_webauthn_admin_cmd_show_def Let_def print_def eprint_def eprints_def split: if_splits)
qed

lemma list_reliable:
  assumes "option_loop pool fopen list_local ngx_auth_webauthn_admin_list_usage (getopt_long list_longopts args) ctx
      None w = (Inr (ctx', Some uid), w1)"
    and "auth_webauthn_admin_cmd_list hi pool fopen ctx args w = (e, w')"
    and "\<And>site n. pool site n" and "ctx_ok ctx'" and "ax_redis_port ctx' \<noteq> 0"
    and "prefix = ax_key_prefix ctx'" and "n = ax_redis_db ctx'" and "cred_inv prefix (dbs (w_srv w) n)"
  shows "dbs (w_srv w') = dbs (w_srv w) \<and> e = AUTH_WEBAUTHN_ADMIN_EX_OK
     \<and> (\<exists>ids. set ids = cred_index prefix (dbs (w_srv w) n) uid
          \<and> w_out w' = w_out w1 @ list_row ''CREDENTIAL_ID'' ''ALG'' ''SIGN_COUNT'' ''CREATED_AT''
              @ concat (map (row_of (cred_abs prefix (dbs (w_srv w) n))) ids))"
proof -
  have p: "\<And>site n. pool site n" by (rule assms(3))
  have w1: "w_srv w1 = w_srv w" using option_loop_ok(1) [OF assms(1)] .
  have key: "ngx_auth_webauthn_admin_index_key pool prefix uid = Some (index_key prefix uid)"
    using p by (simp add: ngx_auth_webauthn_admin_index_key_def index_key_def)
  obtain r w2 where c: "auth_webauthn_admin_connect hi pool ctx' w1 = (r, w2)" by fastforce
  obtain rd where r: "r = Some rd"
    by (rule admin_connect_reliable [OF c p]) (use assms(4,5) in \<open>auto simp: ctx_ok_def\<close>)
  from admin_connect_contract(2) [OF c r] obtain k where k: "rd_ctx rd = Some k" "sel (w_srv w2) k = n" using assms(7) by blast
  have d: "dbs (w_srv w2) = dbs (w_srv w)" "w_out w2 = w_out w1"
    using admin_connect_contract(1) [OF c] admin_connect_out [OF c [unfolded r]] w1 by simp_all
  obtain rc mem s where m: "ngx_auth_webauthn_redis_smembers hi (Some rd) (Some pool) (Some (index_key prefix uid)) (Some []) (w_srv w2)
      = (rc, mem, s)" by (metis surj_pair)
  have inv: "cred_inv prefix (dbs (w_srv w2) (sel (w_srv w2) k))" using d k(2) assms(8) by simp
  from smembers_reliable [OF m k(1) inv p] obtain ids where ids: "rc = NGX_OK" "mem = Some ids" by blast
  note sm = smembers_contract [OF m k(1)]
  have ix: "set ids = cred_index prefix (dbs (w_srv w) n) uid"
    using sm(4) ids k(2) d(1) inv
    by (auto simp: cred_index_def live_def cred_inv_entry dest: mset_eq_setD split: option.splits)
  let ?w3 = "print (list_row ''CREDENTIAL_ID'' ''ALG'' ''SIGN_COUNT'' ''CREATED_AT'') (w2\<lparr> w_srv := s \<rparr>)"
  have s: "dbs s = dbs (w_srv w)" "sel s k = n" using sm(1,3) d(1) k(2) by (simp_all add: keeps_def)
  then have inv3: "cred_inv prefix (dbs (w_srv ?w3) (sel (w_srv ?w3) k))" using assms(8) by simp
  let ?w4 = "list_loop hi rd pool prefix ids ?w3"
  have run: "e = AUTH_WEBAUTHN_ADMIN_EX_OK" "w' = ?w4\<lparr> w_srv := snd (ngx_auth_webauthn_redis_close hi (Some rd) (w_srv ?w4)) \<rparr>"
    using assms(1,2,6) c r m ids key by (auto simp: auth_webauthn_admin_cmd_list_def Let_def)
  have "dbs (w_srv w') = dbs (w_srv w)"
    using run(2) close_keeps(1) [where rd = "Some rd" and s = "w_srv ?w4"] list_loop_dbs [OF k(1) inv3] s by simp
  moreover have "w_out w' = w_out w1 @ list_row ''CREDENTIAL_ID'' ''ALG'' ''SIGN_COUNT'' ''CREATED_AT''
      @ concat (map (row_of (cred_abs prefix (dbs (w_srv w) n))) ids)"
    using run(2) list_loop_out [OF p k(1) inv3] s d(2) by (simp add: print_def)
  ultimately show ?thesis using run(1) ix by blast
qed

end

section \<open>Example runs\<close>

definition ex_world :: "'s \<Rightarrow> 's world" where
  "ex_world s = \<lparr> w_stdin = ([], False), w_out = [], w_err = [], w_srv = s \<rparr>"

definition ex_ctx :: admin_ctx where
  "ex_ctx = admin_ctx_init\<lparr> ax_redis_host := ''h'', ax_redis_port := 1, ax_key_prefix := ''w:'' \<rparr>"

lemma ex_world_srv [simp]: "w_srv (ex_world s) = s" "w_out (ex_world s) = []"
  by (simp_all add: ex_world_def)

lemma ex_ctx_ok: "ctx_ok ex_ctx" "ax_redis_port ex_ctx \<noteq> 0" "ax_key_prefix ex_ctx = ''w:''" "ax_redis_db ex_ctx = 0"
  using ctx_init_ok by (simp_all add: ex_ctx_def ctx_ok_def admin_ctx_init_def)

lemmas option_eval = common_opts_def register_longopts_def register_local_def credential_longopts_def credential_local_def
  list_longopts_def list_local_def long_match_def auth_webauthn_admin_parse_common_opt_def strtol_def is_space_def is_digit_def
  digit_val_def

lemma ex_cid_options:
  "option_loop ex_pool fopen credential_local usage (getopt_long credential_longopts [''--credential-id=id'', ''--redis=h:1'', ''--key-prefix=w:''])
     admin_ctx_init None (ex_world s) = (Inr (ex_ctx, Some ''id''), ex_world s)"
  by (simp add: option_eval ex_ctx_def)

lemma ex_list_options:
  "option_loop ex_pool fopen list_local usage (getopt_long list_longopts [''--user-id=u'', ''--redis=h:1'', ''--key-prefix=w:''])
     admin_ctx_init None (ex_world s) = (Inr (ex_ctx, Some ''u''), ex_world s)"
  by (simp add: option_eval ex_ctx_def)

abbreviation "ex_register_args \<equiv> [''--user-id=u'', ''--response-file=f'', ''--rp-id=rp'', ''--redis=h:1'', ''--key-prefix=w:'']"

definition ex_register_opts :: register_opts where
  "ex_register_opts = \<lparr> ro_user_id = Some ''u'', ro_response_file = Some ''f'', ro_rp_id = Some ''rp'', ro_require = None, ro_transports = None \<rparr>"

lemma ex_register_options:
  "option_loop ex_pool fopen register_local usage (getopt_long register_longopts ex_register_args) admin_ctx_init register_none (ex_world s)
     = (Inr (ex_ctx, ex_register_opts), ex_world s)"
  by (simp add: option_eval ex_ctx_def ex_register_opts_def)

text \<open>A response file with a \<open>none\<close> attestation of the credential \<open>id\<close>.\<close>

definition ex_responses :: "(bytes \<times> ex_node) list" where
  "ex_responses = [(''RESP'', Ex_object [(''response'', Ex_object
     [(''clientDataJSON'', Ex_string (ngx_encode_base64url ''H'')), (''attestationObject'', Ex_string (ngx_encode_base64url ''O''))])])]"

definition ex_cbor_none :: cbor_load_t where
  "ex_cbor_none x =
     (if x = ''O'' then
        (Some (CBOR_map [(CBOR_string True ''fmt'', CBOR_string True ''none''), (CBOR_string True ''attStmt'', CBOR_map []),
                         (CBOR_string True ''authData'', CBOR_bytestring True ex_att_authdata)]), True, 1)
      else ex_cbor x)"

abbreviation "ex_fopen \<equiv> [''f'' \<mapsto> (''RESP'', False)]"

lemma ex_attested:
  "attested ex_ossl (ex_js ex_responses) ex_cbor_none ex_pool ''RESP'' ''rp'' NGX_AUTH_WEBAUTHN_ATT_NONE ex_ad
     (EVP_PKEY_ED25519, replicate 32 (CHR ''k'')) (- 8)"
proof -
  define att where "att = attestation_zero\<lparr> att_fmt := ''none'', att_auth_data := ex_att_authdata \<rparr>"
  have 1: "ngx_auth_webauthn_attestation_parse ex_cbor_none (Some ex_pool) (Some ''O'') (length ''O'') (Some attestation_zero) = (NGX_OK, Some att)"
    by (simp add: ngx_auth_webauthn_attestation_parse_def ex_cbor_none_def attestation_dup_total att_def
        attestation_zero_def ngx_auth_webauthn_attestation_parse_stmt_def)
  have 2: "ngx_auth_webauthn_cose_to_pkey ex_ossl ex_cbor_none (Some ''K'') 1 (Some None) (Some 0)
      = (NGX_OK, Some (Some (EVP_PKEY_ED25519, replicate 32 (CHR ''k''))), Some (- 8))"
    by (simp add: ngx_auth_webauthn_cose_to_pkey_def ex_cbor_none_def ex_cbor_def ngx_auth_webauthn_cose_int_def
        cose_labels_null_def cose_key_of_def cose_const_defs ngx_auth_webauthn_cose_okp_pkey_def ex_ossl_def)
  have 3: "attestation_ok ex_ossl ex_cbor_none att ''rp'' h NGX_AUTH_WEBAUTHN_ATT_NONE" for h
    unfolding attestation_ok_def using ex_ad_parse [of authdata_zero] by (auto simp: att_def ex_ad_def ex_ossl_sha256)
  have 4: "b64_member (ex_js ex_responses) (Ex_object
     [(''clientDataJSON'', Ex_string (ngx_encode_base64url ''H'')), (''attestationObject'', Ex_string (ngx_encode_base64url ''O''))])
     k x" if "(k, x) \<in> {(''clientDataJSON'', ''H''), (''attestationObject'', ''O'')}" for k x
    using that by (auto simp: b64_member_def ex_js_def decoded_encode simp del: ngx_encode_base64url.simps)
  define resp where "resp = Ex_object
     [(''clientDataJSON'', Ex_string (ngx_encode_base64url ''H'')), (''attestationObject'', Ex_string (ngx_encode_base64url ''O''))]"
  have 5: "nxe_json_parse_untrusted (ex_js ex_responses) ''RESP'' = Some (Ex_object [(''response'', resp)])"
    "nxe_json_object_get (ex_js ex_responses) (Ex_object [(''response'', resp)]) ''response'' = Some resp"
    "nxe_json_is_object (ex_js ex_responses) resp" by (simp_all add: ex_js_def ex_responses_def resp_def)
  have 6: "ngx_auth_webauthn_authdata_parse (Some (att_auth_data att)) (length (att_auth_data att)) (Some authdata_zero) = (NGX_OK, Some ex_ad)"
    using ex_ad_parse by (simp add: att_def)
  have 7: "ad_flags ex_ad AND FLAG_AT \<noteq> 0" "ad_credential_id ex_ad \<noteq> []" "ad_cose_public_key ex_ad \<noteq> []" by (simp_all add: ex_ad_def FLAG_AT_def)
  show ?thesis unfolding attested_def
  proof (intro exI conjI)
    show "sha256 ex_ossl ''H'' = Some (''H'' @ replicate 31 (CHR 0x00))" by (simp add: ex_ossl_sha256 eval_nat_numeral)
    show "ngx_auth_webauthn_cose_to_pkey ex_ossl ex_cbor_none (Some (ad_cose_public_key ex_ad)) (length (ad_cose_public_key ex_ad)) (Some None) (Some 0)
      = (NGX_OK, Some (Some (EVP_PKEY_ED25519, replicate 32 (CHR ''k''))), Some (- 8))" using 2 by (simp add: ex_ad_def)
    show "b64_member (ex_js ex_responses) resp ''clientDataJSON'' ''H''" "b64_member (ex_js ex_responses) resp ''attestationObject'' ''O''"
      using 4 by (simp_all add: resp_def)
  qed (rule 5 1 6 7 3)+
qed

lemma ex_read: "fst (auth_webauthn_admin_read_file ex_pool ex_fopen ''f'' w) = Some ''RESP''"
  by (simp add: auth_webauthn_admin_read_file_def AUTH_WEBAUTHN_ADMIN_READ_CHUNK_def read_loop.simps)

lemma ex_i2d: "i2d_law ex_ossl" "i2d_encodes ex_ossl key"
  by (simp_all add: i2d_law_def i2d_encodes_def ex_ossl_def ex_der_def)

lemma ex_empty_inv: "cred_inv ''w:'' (mem_dbs mem_empty 0)"
  by (simp add: cred_inv_def mem_empty_def)

lemma ex_register_ok:
  "\<exists>w'. auth_webauthn_admin_cmd_register mem_hi ex_ossl (ex_js ex_responses) ex_cbor_none ex_pool ex_fopen 100 admin_ctx_init
     ex_register_args (ex_world mem_empty) = (AUTH_WEBAUTHN_ADMIN_EX_OK, w')"
proof -
  obtain e w' where r: "auth_webauthn_admin_cmd_register mem_hi ex_ossl (ex_js ex_responses) ex_cbor_none ex_pool ex_fopen 100 admin_ctx_init
     ex_register_args (ex_world mem_empty) = (e, w')" by fastforce
  have "e = AUTH_WEBAUTHN_ADMIN_EX_OK"
  proof (rule mem_reliable.register_complete_exit [OF ex_register_options r _ ex_ctx_ok(1,2) _ _ _ _ _ _ ex_read _ ex_i2d(2), where uid = "''u''"])
    show "attested ex_ossl (ex_js ex_responses) ex_cbor_none ex_pool ''RESP'' ''rp'' (require_of (ro_require ex_register_opts)) ex_ad
     (EVP_PKEY_ED25519, replicate 32 (CHR ''k'')) (- 8)" using ex_attested by (simp add: require_of_def ex_register_opts_def)
  qed (use ex_empty_inv ex_ctx_ok in \<open>simp_all add: ex_register_opts_def\<close>)
  with r show ?thesis by blast
qed

section \<open>Properties\<close>



text \<open>C21: registration completes. With Redis up and memory available, \<open>register\<close> with a user, an RP id, a valid level, a
  Redis address and a readable response file that attests a credential whose key OpenSSL can encode
  exits with success (with \<open>register_sound\<close>: the credential is then stored).\<close>

theorem register_complete:
  assumes "reliable_server hi dbs sel clock"
    and "option_loop pool fopen register_local ngx_auth_webauthn_admin_register_usage (getopt_long register_longopts args) admin_ctx_init
      register_none w = (Inr (ctx, l), w1)"
    and "\<And>site n. pool site n" and "ax_redis_port ctx \<noteq> 0"
    and "cred_inv (ax_key_prefix ctx) (dbs (w_srv w) (ax_redis_db ctx))"
    and "ro_user_id l = Some uid" and "uid \<noteq> []" and "ro_rp_id l = Some rp" and "ro_response_file l = Some path"
    and "ro_require l \<in> {None, Some ''packed'', Some ''none''}" and "fst (auth_webauthn_admin_read_file pool fopen path w1) = Some body"
    and "attested ossl js cbor pool body rp (require_of (ro_require l)) ad key alg" and "i2d_encodes ossl key"
  shows "fst (auth_webauthn_admin_cmd_register hi ossl js cbor pool fopen now admin_ctx_init args w) = AUTH_WEBAUTHN_ADMIN_EX_OK"
proof -
  have p: "\<And>site n. pool site n" by (rule assms(3))
  obtain e w' where r: "auth_webauthn_admin_cmd_register hi ossl js cbor pool fopen now admin_ctx_init args w = (e, w')" by fastforce
  have "ctx_ok ctx" using option_loop_ok(2) [OF assms(2) refl ctx_init_ok] .
  from reliable_server.register_complete_exit [OF assms(1), OF assms(2) r p this assms(4-13)] r show ?thesis by simp
qed

theorem register_complete_witness:
  "fst (auth_webauthn_admin_cmd_register mem_hi ex_ossl (ex_js ex_responses) ex_cbor_none ex_pool ex_fopen 100 admin_ctx_init
     ex_register_args (ex_world mem_empty)) = AUTH_WEBAUTHN_ADMIN_EX_OK"
proof (rule register_complete [OF mem_reliable.reliable_server_axioms ex_register_options _ ex_ctx_ok(2) _ _ _ _ _ _ ex_read _ ex_i2d(2), where uid = "''u''"])
  show "attested ex_ossl (ex_js ex_responses) ex_cbor_none ex_pool ''RESP'' ''rp'' (require_of (ro_require ex_register_opts)) ex_ad
     (EVP_PKEY_ED25519, replicate 32 (CHR ''k'')) (- 8)" using ex_attested by (simp add: require_of_def ex_register_opts_def)
qed (use ex_empty_inv ex_ctx_ok in \<open>simp_all add: ex_register_opts_def\<close>)





text \<open>With Redis up and memory available, \<open>show\<close> prints the stored record of the credential, and fails exactly when there is none; it leaves the store alone.\<close>

theorem show_exact:
  assumes "reliable_server hi dbs sel clock"
    and "option_loop pool fopen credential_local ngx_auth_webauthn_admin_show_usage (getopt_long credential_longopts args) admin_ctx_init
      None w = (Inr (ctx, Some cid), w1)"
    and "auth_webauthn_admin_cmd_show hi pool fopen admin_ctx_init args w = (e, w')"
    and "\<And>site n. pool site n" and "ax_redis_port ctx \<noteq> 0"
    and "prefix = ax_key_prefix ctx" and "n = ax_redis_db ctx" and "cred_inv prefix (dbs (w_srv w) n)"
  shows "dbs (w_srv w') = dbs (w_srv w)
     \<and> (case cred_abs prefix (dbs (w_srv w) n) cid of
          Some cred \<Rightarrow> e = AUTH_WEBAUTHN_ADMIN_EX_OK \<and> w_out w' = w_out w1 @ show_text cid cred
        | None \<Rightarrow> e = AUTH_WEBAUTHN_ADMIN_EX_FAIL \<and> w_out w' = w_out w1)"
proof -
  have p: "\<And>site n. pool site n" by (rule assms(4))
  have "ctx_ok ctx" using option_loop_ok(2) [OF assms(2) refl ctx_init_ok] .
  from reliable_server.show_reliable [OF assms(1), OF assms(2,3) p this assms(5-8)] show ?thesis .
qed

theorem show_exact_witness:
  "\<exists>w'. auth_webauthn_admin_cmd_show mem_hi ex_pool (\<lambda>_. None) admin_ctx_init
       [''--credential-id=id'', ''--redis=h:1'', ''--key-prefix=w:''] (ex_world ex_store) = (AUTH_WEBAUTHN_ADMIN_EX_OK, w')
     \<and> w_out w' = show_text ''id'' ex_rec"
proof -
  obtain e w' where r: "auth_webauthn_admin_cmd_show mem_hi ex_pool (\<lambda>_. None) admin_ctx_init
       [''--credential-id=id'', ''--redis=h:1'', ''--key-prefix=w:''] (ex_world ex_store) = (e, w')" by fastforce
  have c: "''w:'' = ax_key_prefix ex_ctx" "0 = ax_redis_db ex_ctx" using ex_ctx_ok by simp_all
  have d: "mem_dbs ex_store 0 = ex_db" by (simp add: ex_store_def)
  have "\<And>site n. ex_pool site n" by simp
  from show_exact [OF mem_reliable.reliable_server_axioms, OF ex_cid_options r this ex_ctx_ok(2) c] ex_db_inv ex_db_abs r d
  show ?thesis by auto
qed

end
