(* ===== verification/System.thy ===== *)
theory System
  imports Session Admin_Properties
begin

text \<open>
  The whole system on one credential store: the challenge and verify endpoints of a location and the
  administration tool, all working through the Redis client on one database, interleaved in any order with each other
  and with anything else that leaves the credential keys alone. The steps refine an abstract machine whose state is the
  map of registered credentials.
\<close>

section \<open>The abstract machine\<close>

text \<open>Credentials enter only by an attested registration, change only by a valid login and leave only by a revocation.\<close>

inductive abs_step ::
    "'k openssl \<Rightarrow> 'j nxe_json \<Rightarrow> cbor_load_t \<Rightarrow> ngx_core \<Rightarrow> 'v loc_conf \<Rightarrow> (bytes \<Rightarrow> credential option)
     \<Rightarrow> (bytes \<Rightarrow> credential option) \<Rightarrow> bool" for ossl js cbor ngx wlcf where
  idle: "abs_step ossl js cbor ngx wlcf m m"
| enrol: "attested ossl js cbor pool body rp require ad key alg \<Longrightarrow> uid \<noteq> [] \<Longrightarrow> cid = ngx_encode_base64url (ad_credential_id ad) \<Longrightarrow>
     abs_step ossl js cbor ngx wlcf m
       (m(cid \<mapsto> (register_cred cid uid ad (snd (i2d_PUBKEY ossl key)) alg transports now)\<lparr> cred_transports := tr \<rparr>))"
| login: "valid_login ossl js ngx pool wlcf r m cid chal cred cnt \<Longrightarrow>
     abs_step ossl js cbor ngx wlcf m (m(cid \<mapsto> cred\<lparr> cred_sign_count := cnt, cred_last_used_at := now \<rparr>))"
| revoke: "abs_step ossl js cbor ngx wlcf m (m(cid := None))"

section \<open>The system\<close>

definition same_store :: "bytes \<Rightarrow> nat \<Rightarrow> (admin_exit + admin_ctx \<times> 'l) \<times> 's world \<Rightarrow> bool" where
  "same_store prefix n r = (case r of (Inr (ctx, _), _) \<Rightarrow> ax_key_prefix ctx = prefix \<and> ax_redis_db ctx = n | _ \<Rightarrow> True)"

text \<open>The options of the command line, if they are accepted, name the key prefix and the database.\<close>

definition admin_for :: "bytes \<Rightarrow> nat \<Rightarrow> ngx_pool_t \<Rightarrow> (bytes \<Rightarrow> stream option) \<Rightarrow> bytes list \<Rightarrow> 's world \<Rightarrow> bool" where
  "admin_for prefix n pool fopen argv w \<longleftrightarrow>
     (argv ! 1 = ''register'' \<longrightarrow> same_store prefix n (option_loop pool fopen register_local ngx_auth_webauthn_admin_register_usage
        (getopt_long register_longopts (drop 2 argv)) admin_ctx_init register_none w))
     \<and> (argv ! 1 = ''revoke'' \<longrightarrow> same_store prefix n (option_loop pool fopen credential_local ngx_auth_webauthn_admin_revoke_usage
        (getopt_long credential_longopts (drop 2 argv)) admin_ctx_init None w))
     \<and> (argv ! 1 = ''list'' \<longrightarrow> same_store prefix n (option_loop pool fopen list_local ngx_auth_webauthn_admin_list_usage
        (getopt_long list_longopts (drop 2 argv)) admin_ctx_init None w))
     \<and> (argv ! 1 = ''show'' \<longrightarrow> same_store prefix n (option_loop pool fopen credential_local ngx_auth_webauthn_admin_show_usage
        (getopt_long credential_longopts (drop 2 argv)) admin_ctx_init None w))"

definition same_creds :: "bytes \<Rightarrow> rdb \<Rightarrow> rdb \<Rightarrow> bool" where
  "same_creds prefix db db' \<longleftrightarrow> (\<forall>i. db' (cred_key prefix i) = db (cred_key prefix i) \<and> db' (index_key prefix i) = db (index_key prefix i))"

inductive sys_step ::
    "('c, 's) hiredis \<Rightarrow> ('s \<Rightarrow> nat \<Rightarrow> rdb) \<Rightarrow> 'k openssl \<Rightarrow> 'j nxe_json \<Rightarrow> cbor_load_t \<Rightarrow> ngx_core \<Rightarrow> ('t, 'ks, 'p) nxe_jwx
     \<Rightarrow> 'v loc_conf \<Rightarrow> 's \<Rightarrow> 's \<Rightarrow> bool" for hi dbs ossl js cbor ngx jwx wlcf where
  challenge: "ngx_http_auth_webauthn_challenge_content hi ngx rand pool wlcf r out s = (rc, out', s') \<Longrightarrow>
     (\<And>x. rand = Some x \<Longrightarrow> length x = 32) \<Longrightarrow> sys_step hi dbs ossl js cbor ngx jwx wlcf s s'"
| verify: "ngx_http_auth_webauthn_verify_content body hi ossl js ngx jwx jti now pool wlcf r out s = (rc, out', s') \<Longrightarrow>
     sys_step hi dbs ossl js cbor ngx jwx wlcf s s'"
| admin: "admin_main hi ossl js cbor (Some pool) fopen now argv w = (e, w') \<Longrightarrow>
     admin_for (lc_redis_key_prefix wlcf) (lc_redis_db wlcf) pool fopen argv w \<Longrightarrow>
     sys_step hi dbs ossl js cbor ngx jwx wlcf (w_srv w) (w_srv w')"
| other: "same_creds (lc_redis_key_prefix wlcf) (dbs s (lc_redis_db wlcf)) (dbs s' (lc_redis_db wlcf)) \<Longrightarrow>
     sys_step hi dbs ossl js cbor ngx jwx wlcf s s'"

section \<open>Lemmas\<close>

lemma same_creds_refl [simp]: "same_creds prefix db db"
  by (simp add: same_creds_def)

lemma same_creds_trans: "same_creds prefix a b \<Longrightarrow> same_creds prefix b c \<Longrightarrow> same_creds prefix a c"
  by (simp add: same_creds_def)

lemma same_credsI:
  "(\<And>k. k \<noteq> x \<Longrightarrow> db' k = db k) \<Longrightarrow> (\<And>i. x \<noteq> cred_key prefix i) \<Longrightarrow> (\<And>i. x \<noteq> index_key prefix i) \<Longrightarrow> same_creds prefix db db'"
  unfolding same_creds_def by metis

lemma same_creds_frame:
  assumes "same_creds prefix db db'"
  shows "cred_inv prefix db' = cred_inv prefix db" and "cred_abs prefix db' = cred_abs prefix db"
  using cred_inv_frame [of db' prefix db] assms by (simp_all add: same_creds_def)

context redis_server
begin

lemma challenge_content_frame:
  assumes "ngx_http_auth_webauthn_challenge_content hi ngx rand pool wlcf r out0 s = (rc, out, s')"
    and "\<And>x. rand = Some x \<Longrightarrow> length x = 32" and "cred_inv (lc_redis_key_prefix wlcf) (dbs s (lc_redis_db wlcf))"
  shows "same_creds (lc_redis_key_prefix wlcf) (dbs s (lc_redis_db wlcf)) (dbs s' (lc_redis_db wlcf))"
proof -
  let ?p = "lc_redis_key_prefix wlcf" and ?n = "lc_redis_db wlcf"
  obtain rc1 redis s1 where con: "ngx_auth_webauthn_redis_connect hi (Some pool) (Some (redis_conf_of wlcf)) (Some None) s = (rc1, redis, s1)"
    by (metis surj_pair)
  have 1: "dbs s1 = dbs s" using connect_contract [OF con] by simp
  show ?thesis
  proof (cases "rc1 = NGX_OK")
    case False
    with assms(1) con have "s' = s \<or> s' = s1" by (auto simp: ngx_http_auth_webauthn_challenge_content_def Let_def split: if_splits)
    with 1 show ?thesis by auto
  next
    case True
    with connect_contract [OF con] obtain rd c where rd: "redis = Some (Some rd)" "rd_ctx rd = Some c" "sel s1 c = ?n"
      by (auto simp: redis_conf_of_def)
    obtain rc2 s2 where rl: "ngx_http_auth_webauthn_rate_limit hi pool r (Some rd) wlcf s1 = (rc2, s2)" by fastforce
    obtain rc3 ch s3 where i: "ngx_auth_webauthn_challenge_issue hi rand (Some rd) (Some pool) (Some ?p) (lc_challenge_ttl wlcf) (Some []) s2
        = (rc3, ch, s3)" by (metis surj_pair)
    obtain creds s4 where a: "allowed_credentials hi ngx pool r (Some rd) wlcf s3 = (creds, s4)" by fastforce
    have "snd (snd (ngx_http_auth_webauthn_challenge_content hi ngx rand pool wlcf r out0 s))
        \<in> {s} \<union> snd ` ngx_auth_webauthn_redis_close hi (Some rd) ` {s2, s3, s4}"
      by (simp add: ngx_http_auth_webauthn_challenge_content_def con True rd(1) rl i a Let_def split_beta split: option.split)
    then have s': "s' = s \<or> s' \<in> snd ` ngx_auth_webauthn_redis_close hi (Some rd) ` {s2, s3, s4}" using assms(1) by auto
    from rate_limit_frame [OF rl rd(2)] rd(3) 1 have 2: "sel s2 c = ?n"
      "\<And>k. k \<noteq> rate_key wlcf (rq_addr_text r) \<Longrightarrow> dbs s2 ?n k = dbs s ?n k" by (auto simp: keeps_def)
    have f2: "same_creds ?p (dbs s ?n) (dbs s2 ?n)" by (rule same_credsI [OF 2(2)], assumption) (rule chal_key_distinct)+
    have 3: "sel s3 c = ?n \<and> same_creds ?p (dbs s2 ?n) (dbs s3 ?n)"
    proof (cases rand)
      case None
      with i have "s3 = s2" by (auto simp: ngx_auth_webauthn_challenge_issue_def split: if_splits)
      with 2(1) show ?thesis by simp
    next
      case (Some x)
      note ic = issue_contract [OF i [unfolded Some] rd(2) assms(2) [OF Some]]
      have "same_creds ?p (dbs s2 ?n) (dbs s3 ?n)"
        by (rule same_credsI [OF ic(4) [unfolded 2(1)]], assumption) (rule chal_key_distinct)+
      with ic(1) 2(1) show ?thesis by (simp add: keeps_def)
    qed
    then have f3: "same_creds ?p (dbs s ?n) (dbs s3 ?n)" using f2 same_creds_trans by blast
    have "cred_inv ?p (dbs s3 (sel s3 c))" using same_creds_frame(1) [OF f3] assms(3) 3 by simp
    with allowed_credentials_contract [OF a rd(2)] have "dbs s4 = dbs s3" by blast
    with s' f2 f3 show ?thesis by (auto simp: close_keeps(1))
  qed
qed

lemma update_abs:
  assumes "ngx_auth_webauthn_credential_update_counter hi (Some rd) (Some pool) (Some prefix) (Some cid) cnt now s = (rc, s')"
    and "rd_ctx rd = Some c" and "cred_inv prefix (dbs s (sel s c))" and "cred_abs prefix (dbs s (sel s c)) cid = Some cred"
  shows "cred_inv prefix (dbs s' (sel s c))
     \<and> (cred_abs prefix (dbs s' (sel s c)) = cred_abs prefix (dbs s (sel s c))
        \<or> cred_abs prefix (dbs s' (sel s c))
            = (cred_abs prefix (dbs s (sel s c)))(cid \<mapsto> cred\<lparr> cred_sign_count := cnt, cred_last_used_at := now \<rparr>))"
proof -
  note st = credential_store.update_law [OF credential_store_laws [OF assms(2), where pool = pool and o' = credential_zero], OF assms(3,1)]
  have "sel s' c = sel s c" using update_counter_contract [OF assms(1-3)] by (auto simp: keeps_def)
  with st have *: "cred_inv prefix (dbs s' (sel s c))"
    "\<And>i. i \<noteq> cid \<Longrightarrow> cred_abs prefix (dbs s' (sel s c)) i = cred_abs prefix (dbs s (sel s c)) i"
    "cred_abs prefix (dbs s' (sel s c)) cid \<in> {Some cred, Some (cred\<lparr> cred_sign_count := cnt, cred_last_used_at := now \<rparr>)}"
    using assms(4) by auto
  then have "cred_abs prefix (dbs s' (sel s c)) = (cred_abs prefix (dbs s (sel s c)))(cid := cred_abs prefix (dbs s' (sel s c)) cid)"
    by (auto simp: fun_eq_iff)
  with *(1,3) assms(4) show ?thesis by (metis empty_iff fun_upd_triv insert_iff)
qed

text \<open>The verify endpoint changes the store by at most one valid login, whatever it answers.\<close>

lemma verify_done_abs:
  assumes "ngx_http_auth_webauthn_verify_done hi ossl js ngx jwx jti now pool wlcf r out0 s = (out, s')"
    and "prefix = lc_redis_key_prefix wlcf" and "n = lc_redis_db wlcf" and "cred_inv prefix (dbs s n)"
  shows "cred_inv prefix (dbs s' n)
     \<and> (cred_abs prefix (dbs s' n) = cred_abs prefix (dbs s n)
        \<or> (\<exists>cid chal cred cnt. valid_login ossl js ngx pool wlcf r (cred_abs prefix (dbs s n)) cid chal cred cnt
             \<and> cred_abs prefix (dbs s' n)
                 = (cred_abs prefix (dbs s n))(cid \<mapsto> cred\<lparr> cred_sign_count := cnt, cred_last_used_at := now \<rparr>)))"
    (is "?goal (dbs s')")
proof -
  have quiet: "?goal d" if "same_creds prefix (dbs s n) (d n)" for d
    using same_creds_frame [OF that] assms(4) by simp
  let ?pre = "length (lc_rp_id wlcf) = 0 \<or> length (lc_redis_host wlcf) = 0 \<or> length (lc_jwt_secret wlcf) = 0 \<or> lc_origins wlcf = None
    \<or> ngx_http_auth_webauthn_read_body pool r = None \<or> verify_parse ngx js pool (the (ngx_http_auth_webauthn_read_body pool r)) = None"
  obtain rc1 redis s1 where con: "ngx_auth_webauthn_redis_connect hi (Some pool) (Some (redis_conf_of wlcf)) (Some None) s = (rc1, redis, s1)"
    by (metis surj_pair)
  have 1: "dbs s1 = dbs s" using connect_contract [OF con] by simp
  show ?thesis
  proof (cases "?pre \<or> rc1 \<noteq> NGX_OK")
    case True
    with assms(1) con have "s' = s \<or> s' = s1"
      by (auto simp: ngx_http_auth_webauthn_verify_done_def Let_def split: if_splits option.splits)
    then have d: "dbs s' = dbs s" using 1 by auto
    show ?thesis unfolding d by (rule quiet [of "dbs s", OF same_creds_refl])
  next
    case False
    then obtain body cid a chal where g: "lc_rp_id wlcf \<noteq> []" "lc_redis_host wlcf \<noteq> []" "lc_jwt_secret wlcf \<noteq> []" "lc_origins wlcf \<noteq> None"
      "ngx_http_auth_webauthn_read_body pool r = Some body" "verify_parse ngx js pool body = Some (cid, a, chal)" "rc1 = NGX_OK" by auto
    from connect_contract [OF con] g(7) obtain rd c where rd: "redis = Some (Some rd)" "rd_ctx rd = Some c" "sel s1 c = n"
      using assms(3) by (auto simp: redis_conf_of_def)
    obtain rc2 s2 where co: "ngx_auth_webauthn_challenge_consume hi (Some rd) (Some pool) (Some prefix) (Some chal) (length chal) s1
        = (rc2, s2)" by fastforce
    obtain rc3 cred s3 where ge: "ngx_auth_webauthn_credential_get hi (Some rd) (Some pool) (Some prefix) (Some cid)
        (Some credential_zero) s2 = (rc3, cred, s3)" by (metis surj_pair)
    obtain rc4 res where av: "ngx_auth_webauthn_assertion_verify ossl js (core_decode_base64url ngx) (Some pool) (Some a)
        (Some (cred_of (the cred))) (Some (policy_of wlcf chal)) (Some \<lparr> auth_sign_count = 0 \<rparr>) = (rc4, res)" by fastforce
    obtain rc5 s4 where up: "ngx_auth_webauthn_credential_update_counter hi (Some rd) (Some pool) (Some prefix) (Some cid)
        (auth_sign_count (the res)) now s3 = (rc5, s4)" by fastforce
    note eq = verify_done_eq [OF g(1-6) con [unfolded g(7) rd(1)], folded assms(2), OF co ge av up]
    note cc = consume_contract [OF co rd(2)]
    have 2: "sel s2 c = n" using cc(1) rd(3) by (simp add: keeps_def)
    have f2: "same_creds prefix (dbs s n) (dbs s2 n)"
      by (rule same_credsI [of "prefix @ ''chal:'' @ chal"]) (use cc(2) rd(3) 1 chal_key_distinct in auto)
    have inv2: "cred_inv prefix (dbs s2 (sel s2 c))" using same_creds_frame(1) [OF f2] 2 assms(4) by simp
    note gc = get_contract [OF ge rd(2) inv2]
    have 3: "dbs s3 = dbs s2" "sel s3 c = n" using gc(1,2) 2 by (simp_all add: keeps_def)
    show ?thesis
    proof (cases "rc2 = NGX_OK \<and> rc3 = NGX_OK \<and> rc4 = NGX_OK")
      case False
      then have "dbs s' = dbs s2 \<or> dbs s' = dbs s3"
        using assms(1) unfolding eq by (auto simp: close_keeps(1) split: if_splits)
      with 3(1) have d: "dbs s' = dbs s2" by auto
      show ?thesis unfolding d by (rule quiet [of "dbs s2", OF f2])
    next
      case True
      then have s': "dbs s' = dbs s4" using assms(1) unfolding eq by (auto simp: close_keeps(1))
      obtain cr where cr: "cred = Some cr" "cred_abs prefix (dbs s n) cid = Some cr"
        using gc(3) True 2 same_creds_frame(2) [OF f2] by auto
      obtain ad cd sig where a: "a = \<lparr> as_authenticator_data = Some ad, as_client_data_json = Some cd, as_signature = sig \<rparr>"
        using verify_parse_shape [OF g(6)] by blast
      obtain origins where o: "lc_origins wlcf = Some origins" using g(4) by blast
      from av True obtain cnt where res: "res = Some \<lparr> auth_sign_count = cnt \<rparr>"
        by (auto simp: ngx_auth_webauthn_assertion_verify_def Let_def split: if_splits prod.splits)
      have "valid_assertion ossl js (core_decode_base64url ngx) ad cd sig (cred_of cr) (policy_of wlcf chal) origins cnt"
        using av True res unfolding a cr option.sel by (intro assertion_verify_sound) (auto simp: o)
      then have v: "valid_login ossl js ngx pool wlcf r (cred_abs prefix (dbs s n)) cid chal cr cnt"
        using g(5,6) a o cr(2) unfolding valid_login_def by blast
      have "cred_inv prefix (dbs s3 (sel s3 c))" "cred_abs prefix (dbs s3 (sel s3 c)) = cred_abs prefix (dbs s n)"
        using 3 inv2 2 same_creds_frame(2) [OF f2] by simp_all
      with update_abs [OF up rd(2)] cr(2) 3(2) v s' res show ?thesis by auto
    qed
  qed
qed

lemma show_quiet:
  assumes "auth_webauthn_admin_cmd_show hi pool fopen ctx args w = (e, w')"
    and "same_store prefix n (option_loop pool fopen credential_local ngx_auth_webauthn_admin_show_usage (getopt_long credential_longopts args) ctx None w)"
    and "cred_inv prefix (dbs (w_srv w) n)"
  shows "dbs (w_srv w') = dbs (w_srv w)"
proof -
  obtain r w1 where o: "option_loop pool fopen credential_local ngx_auth_webauthn_admin_show_usage (getopt_long credential_longopts args) ctx None w
      = (r, w1)" by fastforce
  note run = assms(1) [unfolded auth_webauthn_admin_cmd_show_def o Let_def prod.case]
  have w1: "w_srv w1 = w_srv w" using option_loop_ok(1) [OF o] .
  show ?thesis
  proof (cases "\<exists>ctx' cid. r = Inr (ctx', Some cid)")
    case False
    with run w1 show ?thesis by (auto split: sum.splits option.splits)
  next
    case True
    then obtain ctx' cid where r: "r = Inr (ctx', Some cid)" by blast
    with assms(2) o have c: "ax_key_prefix ctx' = prefix" "ax_redis_db ctx' = n" by (simp_all add: same_store_def)
    obtain q w2 where k: "auth_webauthn_admin_connect hi pool ctx' w1 = (q, w2)" by fastforce
    note kc = admin_connect_contract [OF k]
    show ?thesis
    proof (cases q)
      case None
      with run r k kc(1) w1 show ?thesis by simp
    next
      case (Some rd)
      with kc(2) c(2) obtain cn where rd: "rd_ctx rd = Some cn" "sel (w_srv w2) cn = n" by blast
      obtain rc cr s where g: "ngx_auth_webauthn_credential_get hi (Some rd) (Some pool) (Some prefix) (Some cid) (Some credential_zero)
          (w_srv w2) = (rc, cr, s)" by (metis surj_pair)
      have "dbs s = dbs (w_srv w)" using get_contract(2) [OF g rd(1)] kc(1) w1 rd(2) assms(3) by simp
      moreover have "dbs (w_srv w') = dbs s"
        using run r k Some g c(1) close_keeps(1) [where rd = "Some rd" and s = s] by (auto split: if_splits)
      ultimately show ?thesis by simp
    qed
  qed
qed

lemma list_quiet:
  assumes "auth_webauthn_admin_cmd_list hi pool fopen ctx args w = (e, w')"
    and "same_store prefix n (option_loop pool fopen list_local ngx_auth_webauthn_admin_list_usage (getopt_long list_longopts args) ctx None w)"
    and "cred_inv prefix (dbs (w_srv w) n)"
  shows "dbs (w_srv w') = dbs (w_srv w)"
proof -
  obtain r w1 where o: "option_loop pool fopen list_local ngx_auth_webauthn_admin_list_usage (getopt_long list_longopts args) ctx None w
      = (r, w1)" by fastforce
  note run = assms(1) [unfolded auth_webauthn_admin_cmd_list_def o Let_def prod.case]
  have w1: "w_srv w1 = w_srv w" using option_loop_ok(1) [OF o] .
  show ?thesis
  proof (cases "\<exists>ctx' uid key. r = Inr (ctx', Some uid) \<and> ngx_auth_webauthn_admin_index_key pool (ax_key_prefix ctx') uid = Some key")
    case False
    with run w1 show ?thesis by (auto split: sum.splits option.splits)
  next
    case True
    then obtain ctx' uid key where r: "r = Inr (ctx', Some uid)" "ngx_auth_webauthn_admin_index_key pool (ax_key_prefix ctx') uid = Some key"
      by blast
    with assms(2) o have c: "ax_key_prefix ctx' = prefix" "ax_redis_db ctx' = n" by (simp_all add: same_store_def)
    obtain q w2 where k: "auth_webauthn_admin_connect hi pool ctx' w1 = (q, w2)" by fastforce
    note kc = admin_connect_contract [OF k]
    show ?thesis
    proof (cases q)
      case None
      with run r k kc(1) w1 show ?thesis by simp
    next
      case (Some rd)
      with kc(2) c(2) obtain cn where rd: "rd_ctx rd = Some cn" "sel (w_srv w2) cn = n" by blast
      obtain rc mem s where m: "ngx_auth_webauthn_redis_smembers hi (Some rd) (Some pool) (Some key) (Some []) (w_srv w2) = (rc, mem, s)"
        by (metis surj_pair)
      note sm = smembers_contract [OF m rd(1)]
      have s: "dbs s = dbs (w_srv w)" "sel s cn = n" using sm(1,3) kc(1) w1 rd(2) by (simp_all add: keeps_def)
      let ?w3 = "print (list_row ''CREDENTIAL_ID'' ''ALG'' ''SIGN_COUNT'' ''CREATED_AT'') (w2\<lparr> w_srv := s \<rparr>)"
      have "dbs (w_srv (list_loop hi rd pool prefix xs ?w3)) = dbs (w_srv ?w3)" for xs
        using list_loop_dbs [OF rd(1)] s assms(3) by simp
      then show ?thesis using run r k Some m c(1) s(1) by (auto simp: close_keeps(1) split: if_splits)
    qed
  qed
qed

lemma register_abs:
  assumes "auth_webauthn_admin_cmd_register hi ossl js cbor pool fopen now ctx args w = (e, w')" and "i2d_law ossl"
    and "same_store prefix n (option_loop pool fopen register_local ngx_auth_webauthn_admin_register_usage
      (getopt_long register_longopts args) ctx register_none w)"
    and "cred_inv prefix (dbs (w_srv w) n)"
  shows "cred_inv prefix (dbs (w_srv w') n)
     \<and> abs_step ossl js cbor ngx wlcf (cred_abs prefix (dbs (w_srv w) n)) (cred_abs prefix (dbs (w_srv w') n))"
proof -
  obtain r w1 where o: "option_loop pool fopen register_local ngx_auth_webauthn_admin_register_usage (getopt_long register_longopts args) ctx
      register_none w = (r, w1)" by fastforce
  show ?thesis
  proof (cases r)
    case (Inl x)
    with assms(1) o have "w' = w1" by (simp add: auth_webauthn_admin_cmd_register_def)
    with option_loop_ok(1) [OF o] assms(4) show ?thesis by (simp add: idle)
  next
    case (Inr x)
    then obtain ctx' l where r: "r = Inr (ctx', l)" by (cases x) simp
    with assms(3) o have c: "prefix = ax_key_prefix ctx'" "n = ax_redis_db ctx'" by (simp_all add: same_store_def)
    from register_contract [OF o [unfolded r] assms(1) c assms(4,2)] show ?thesis by (elim conjE disjE exE) (simp_all add: idle enrol)
  qed
qed

lemma revoke_abs:
  assumes "auth_webauthn_admin_cmd_revoke hi pool fopen ctx args w = (e, w')"
    and "same_store prefix n (option_loop pool fopen credential_local ngx_auth_webauthn_admin_revoke_usage
      (getopt_long credential_longopts args) ctx None w)"
    and "cred_inv prefix (dbs (w_srv w) n)"
  shows "cred_inv prefix (dbs (w_srv w') n)
     \<and> abs_step ossl js cbor ngx wlcf (cred_abs prefix (dbs (w_srv w) n)) (cred_abs prefix (dbs (w_srv w') n))"
proof -
  obtain r w1 where o: "option_loop pool fopen credential_local ngx_auth_webauthn_admin_revoke_usage (getopt_long credential_longopts args) ctx
      None w = (r, w1)" by fastforce
  show ?thesis
  proof (cases "\<exists>ctx' cid. r = Inr (ctx', Some cid)")
    case False
    with assms(1) o option_loop_ok(1) [OF o] have "w_srv w' = w_srv w"
      by (auto simp: auth_webauthn_admin_cmd_revoke_def Let_def split: sum.splits option.splits)
    with assms(3) show ?thesis by (simp add: idle)
  next
    case True
    then obtain ctx' cid where r: "r = Inr (ctx', Some cid)" by blast
    with assms(2) o have c: "prefix = ax_key_prefix ctx'" "n = ax_redis_db ctx'" by (simp_all add: same_store_def)
    from revoke_contract [OF o [unfolded r] assms(1) c assms(3)] show ?thesis by (auto simp: idle intro: abs_step.revoke)
  qed
qed

lemma admin_abs:
  assumes "admin_main hi ossl js cbor (Some pool) fopen now argv w = (e, w')" and "i2d_law ossl"
    and "admin_for prefix n pool fopen argv w" and "cred_inv prefix (dbs (w_srv w) n)"
  shows "cred_inv prefix (dbs (w_srv w') n)
     \<and> abs_step ossl js cbor ngx wlcf (cred_abs prefix (dbs (w_srv w) n)) (cred_abs prefix (dbs (w_srv w') n))"
proof -
  have quiet: ?thesis if "dbs (w_srv w') = dbs (w_srv w)" using that assms(4) by (simp add: idle)
  let ?cmd = "argv ! 1"
  consider (do_register) "auth_webauthn_admin_cmd_register hi ossl js cbor pool fopen now admin_ctx_init (drop 2 argv) w = (e, w')" "?cmd = ''register''"
    | (do_revoke) "auth_webauthn_admin_cmd_revoke hi pool fopen admin_ctx_init (drop 2 argv) w = (e, w')" "?cmd = ''revoke''"
    | (do_list) "auth_webauthn_admin_cmd_list hi pool fopen admin_ctx_init (drop 2 argv) w = (e, w')" "?cmd = ''list''"
    | (do_show) "auth_webauthn_admin_cmd_show hi pool fopen admin_ctx_init (drop 2 argv) w = (e, w')" "?cmd = ''show''"
    | (do_none) "w_srv w' = w_srv w"
    using assms(1) by (auto simp: admin_main_def Let_def split: if_splits)
  then show ?thesis
  proof cases
    case do_register
    then show ?thesis by (intro register_abs [OF _ assms(2) _ assms(4)]) (use assms(3) in \<open>simp_all add: admin_for_def\<close>)
  next
    case do_revoke
    then show ?thesis by (intro revoke_abs [OF _ _ assms(4)]) (use assms(3) in \<open>simp_all add: admin_for_def\<close>)
  next
    case do_list
    then show ?thesis by (intro quiet list_quiet [OF _ _ assms(4)]) (use assms(3) in \<open>simp_all add: admin_for_def\<close>)
  next
    case do_show
    then show ?thesis by (intro quiet show_quiet [OF _ _ assms(4)]) (use assms(3) in \<open>simp_all add: admin_for_def\<close>)
  qed (use assms(4) in \<open>simp add: idle\<close>)
qed

text \<open>Every step of the system is a step of the abstract machine.\<close>

lemma sys_step_abs:
  assumes "sys_step hi dbs ossl js cbor ngx jwx wlcf s s'" and "i2d_law ossl"
    and "prefix = lc_redis_key_prefix wlcf" and "n = lc_redis_db wlcf" and "cred_inv prefix (dbs s n)"
  shows "cred_inv prefix (dbs s' n) \<and> abs_step ossl js cbor ngx wlcf (cred_abs prefix (dbs s n)) (cred_abs prefix (dbs s' n))"
  using assms(1)
proof cases
  case (challenge rand pool r out rc out')
  with challenge_content_frame [OF challenge(1)] assms(3-5) have "same_creds prefix (dbs s n) (dbs s' n)" by simp
  from same_creds_frame [OF this] assms(5) show ?thesis by (simp add: idle)
next
  case (verify body jti now pool r out rc out')
  then consider "s' = s" | out2 where "ngx_http_auth_webauthn_verify_done hi ossl js ngx jwx jti now pool wlcf r out s = (out2, s')"
    by (cases body) (auto simp: ngx_http_auth_webauthn_verify_content_def Let_def split: if_splits prod.splits)
  then show ?thesis
  proof cases
    case 1
    with assms(5) show ?thesis by (simp add: idle)
  next
    case 2
    from verify_done_abs [OF 2 assms(3-5)] show ?thesis by (elim conjE disjE exE) (simp_all add: idle abs_step.login)
  qed
next
  case (admin pool fopen now argv w e w')
  with admin_abs [OF admin(3) assms(2)] assms(3-5) show ?thesis by simp
next
  case other
  with assms(3,4) have "same_creds prefix (dbs s n) (dbs s' n)" by simp
  from same_creds_frame [OF this] assms(5) show ?thesis by (simp add: idle)
qed

lemma sys_steps_abs:
  assumes "(sys_step hi dbs ossl js cbor ngx jwx wlcf)\<^sup>*\<^sup>* s s'" and "i2d_law ossl"
    and "prefix = lc_redis_key_prefix wlcf" and "n = lc_redis_db wlcf" and "cred_inv prefix (dbs s n)"
  shows "cred_inv prefix (dbs s' n) \<and> (abs_step ossl js cbor ngx wlcf)\<^sup>*\<^sup>* (cred_abs prefix (dbs s n)) (cred_abs prefix (dbs s' n))"
  using assms(1)
proof (induction rule: rtranclp_induct)
  case (step s1 s2)
  with sys_step_abs [OF step.hyps(2) assms(2-4)] show ?case by (auto intro: rtranclp.rtrancl_into_rtrancl)
qed (simp add: assms(5))

end

text \<open>A record that stems from an attested registration: only its counter and time of last use may have moved since.\<close>

definition authentic :: "'k openssl \<Rightarrow> 'j nxe_json \<Rightarrow> cbor_load_t \<Rightarrow> bytes \<Rightarrow> credential \<Rightarrow> bool" where
  "authentic ossl js cbor cid cred \<longleftrightarrow>
     (\<exists>pool body rp require ad key. attested ossl js cbor pool body rp require ad key (cred_alg cred)
        \<and> cid = ngx_encode_base64url (ad_credential_id ad) \<and> cred_credential_id cred = cid
        \<and> cred_public_key cred = snd (i2d_PUBKEY ossl key) \<and> cred_aaguid cred = ad_aaguid ad \<and> cred_user_id cred \<noteq> [])"

lemma abs_step_authentic:
  assumes "abs_step ossl js cbor ngx wlcf m m'" and "\<forall>cid cred. m cid = Some cred \<longrightarrow> authentic ossl js cbor cid cred"
  shows "\<forall>cid cred. m' cid = Some cred \<longrightarrow> authentic ossl js cbor cid cred"
  using assms(1)
proof cases
  case (enrol pool body rp require ad key alg uid cid tr transports now)
  then have "authentic ossl js cbor cid
      ((register_cred cid uid ad (snd (i2d_PUBKEY ossl key)) alg transports now)\<lparr> cred_transports := tr \<rparr>)"
    unfolding authentic_def register_cred_def by simp blast
  with enrol(1) assms(2) show ?thesis by simp
next
  case (login pool r cid chal cred cnt now)
  then have "m cid = Some cred" by (auto simp: valid_login_def)
  with assms(2) have "authentic ossl js cbor cid (cred\<lparr> cred_sign_count := cnt, cred_last_used_at := now \<rparr>)"
    by (auto simp: authentic_def)
  with login(1) assms(2) show ?thesis by simp
qed (use assms(2) in auto)

lemma abs_steps_authentic:
  assumes "(abs_step ossl js cbor ngx wlcf)\<^sup>*\<^sup>* m m'" and "\<forall>cid cred. m cid = Some cred \<longrightarrow> authentic ossl js cbor cid cred"
  shows "\<forall>cid cred. m' cid = Some cred \<longrightarrow> authentic ossl js cbor cid cred"
  using assms
proof (induction rule: rtranclp_induct)
  case (step m1 m2)
  from abs_step_authentic [OF step.hyps(2) step.IH [OF step.prems]] show ?case .
qed

text \<open>A first step of the system: the example registration in an empty store.\<close>

lemma ex_sys_step:
  "\<exists>s'. sys_step mem_hi mem_dbs ex_ossl (ex_js ex_responses) ex_cbor_none ex_ngx ex_jwx ex_conf mem_empty s'
     \<and> (\<exists>cid cred. cred_abs ''w:'' (mem_dbs s' 0) cid = Some cred)"
proof -
  obtain w' where r: "auth_webauthn_admin_cmd_register mem_hi ex_ossl (ex_js ex_responses) ex_cbor_none ex_pool ex_fopen 100 admin_ctx_init
     ex_register_args (ex_world mem_empty) = (AUTH_WEBAUTHN_ADMIN_EX_OK, w')" using ex_register_ok by blast
  have c: "''w:'' = ax_key_prefix ex_ctx" "0 = ax_redis_db ex_ctx" using ex_ctx_ok by simp_all
  let ?argv = "''auth-webauthn-admin'' # ''register'' # ex_register_args"
  have "admin_main mem_hi ex_ossl (ex_js ex_responses) ex_cbor_none (Some ex_pool) ex_fopen 100 ?argv (ex_world mem_empty)
      = (AUTH_WEBAUTHN_ADMIN_EX_OK, w')" using r by (simp add: admin_main_def Let_def)
  moreover have "admin_for (lc_redis_key_prefix ex_conf) (lc_redis_db ex_conf) ex_pool ex_fopen ?argv (ex_world mem_empty)"
    using ex_ctx_ok by (simp add: admin_for_def ex_register_options same_store_def ex_conf_def del: getopt_long.simps)
  ultimately have "sys_step mem_hi mem_dbs ex_ossl (ex_js ex_responses) ex_cbor_none ex_ngx ex_jwx ex_conf (w_srv (ex_world mem_empty)) (w_srv w')"
    by (rule sys_step.admin)
  moreover have "\<exists>cid cred. cred_abs ''w:'' (mem_dbs (w_srv w') 0) cid = Some cred"
    using mem.register_contract [OF ex_register_options r c _ ex_i2d(1)] ex_empty_inv by (auto simp del: split_paired_Ex)
  ultimately show ?thesis by auto
qed

end
