(* ===== verification/History.thy ===== *)
theory History
  imports System
begin

text \<open>
  Histories of the system: a run of the endpoints and the administration tool on one store, with a record of the responses of
  the verify endpoint. They connect a request the gate admits with the login it goes back to.
\<close>

section \<open>Histories\<close>

text \<open>One call of the verify endpoint: its arguments, the state it started in, and the response.\<close>

record 's verify_event =
  ev_body :: "int \<times> bool"
  ev_jti :: "bytes option"
  ev_now :: time_t
  ev_pool :: ngx_pool_t
  ev_req :: http_req
  ev_before :: 's
  ev_out :: http_out

text \<open>\<open>history \<dots> s es s'\<close>: the system goes from \<open>s\<close> to \<open>s'\<close>, and \<open>es\<close> are calls of the verify endpoint on the way.\<close>

inductive history ::
    "('c, 's) hiredis \<Rightarrow> ('s \<Rightarrow> nat \<Rightarrow> rdb) \<Rightarrow> 'k openssl \<Rightarrow> 'j nxe_json \<Rightarrow> cbor_load_t \<Rightarrow> ngx_core \<Rightarrow> ('t, 'ks, 'p) nxe_jwx
     \<Rightarrow> 'v loc_conf \<Rightarrow> 's \<Rightarrow> 's verify_event list \<Rightarrow> 's \<Rightarrow> bool" for hi dbs ossl js cbor ngx jwx wlcf s where
  start: "history hi dbs ossl js cbor ngx jwx wlcf s [] s"
| verify: "history hi dbs ossl js cbor ngx jwx wlcf s es s1 \<Longrightarrow> ev_before e = s1 \<Longrightarrow>
     ngx_http_auth_webauthn_verify_content (ev_body e) hi ossl js ngx jwx (ev_jti e) (ev_now e) (ev_pool e) wlcf (ev_req e)
       http_out_fresh s1 = (rc, ev_out e, s2) \<Longrightarrow>
     history hi dbs ossl js cbor ngx jwx wlcf s (es @ [e]) s2"
| step: "history hi dbs ossl js cbor ngx jwx wlcf s es s1 \<Longrightarrow> sys_step hi dbs ossl js cbor ngx jwx wlcf s1 s2 \<Longrightarrow>
     history hi dbs ossl js cbor ngx jwx wlcf s es s2"

text \<open>A record that goes back to an attested registration, or to a record of the store the run began with: only its counter and
  time of last use may have moved since.\<close>

definition genuine ::
    "'k openssl \<Rightarrow> 'j nxe_json \<Rightarrow> cbor_load_t \<Rightarrow> (bytes \<Rightarrow> credential option) \<Rightarrow> bytes \<Rightarrow> credential \<Rightarrow> bool" where
  "genuine ossl js cbor m0 cid cred \<longleftrightarrow> authentic ossl js cbor cid cred
     \<or> (\<exists>cred0 cnt now. m0 cid = Some cred0 \<and> cred = cred0\<lparr> cred_sign_count := cnt, cred_last_used_at := now \<rparr>)"

text \<open>Signatures are not forged: the token of the request, if it verifies under the key set of the location \<open>gl\<close>, was set by one of the
  recorded responses of \<open>wlcf\<close>.\<close>

definition unforged ::
    "ngx_core \<Rightarrow> ('t, 'ks, 'p) nxe_jwx \<Rightarrow> 'v loc_conf \<Rightarrow> 'v loc_conf \<Rightarrow> 's verify_event list \<Rightarrow> http_req \<Rightarrow> bool" where
  "unforged ngx jwx gl wlcf es r \<longleftrightarrow>
     (\<forall>cookies t tok ks. rq_cookie r = Some cookies \<longrightarrow> ngx_http_parse_cookie ngx cookies (lc_cookie_name gl) = Some t \<longrightarrow>
        nxe_jwx_decode jwx t = Some tok \<longrightarrow> jwks_of ngx jwx gl = Some ks \<longrightarrow> nxe_jwx_jws_verify jwx tok ks = NGX_OK \<longrightarrow>
        (\<exists>e \<in> set es. (''Set-Cookie'', cookie_text wlcf t) \<in> set (ho_headers (ev_out e))))"

text \<open>The event is a valid login of \<open>cred\<close> under a challenge that was live in Redis.\<close>

definition logged_in ::
    "('s \<Rightarrow> nat \<Rightarrow> rdb) \<Rightarrow> ('s \<Rightarrow> nat) \<Rightarrow> 'k openssl \<Rightarrow> 'j nxe_json \<Rightarrow> ngx_core \<Rightarrow> 'v loc_conf \<Rightarrow> 's verify_event \<Rightarrow> bytes \<Rightarrow> credential \<Rightarrow> bool" where
  "logged_in dbs clock ossl js ngx wlcf e cid cred \<longleftrightarrow>
     (let db = dbs (ev_before e) (lc_redis_db wlcf); prefix = lc_redis_key_prefix wlcf in
      \<exists>chal cnt t. valid_login ossl js ngx (ev_pool e) wlcf (ev_req e) (cred_abs prefix db) cid chal cred cnt
        \<and> clock (ev_before e) \<le> t \<and> live t db (prefix @ ''chal:'' @ chal) \<noteq> None)"

section \<open>Lemmas\<close>

lemma genuine_start: "m0 cid = Some cred \<Longrightarrow> genuine ossl js cbor m0 cid cred"
  unfolding genuine_def by (intro disjI2 exI [of _ cred] exI [of _ "cred_sign_count cred"] exI [of _ "cred_last_used_at cred"]) simp

lemma abs_step_genuine:
  assumes "abs_step ossl js cbor ngx wlcf m m'" and "\<forall>cid cred. m cid = Some cred \<longrightarrow> genuine ossl js cbor m0 cid cred"
  shows "\<forall>cid cred. m' cid = Some cred \<longrightarrow> genuine ossl js cbor m0 cid cred"
  using assms(1)
proof cases
  case (enrol pool body rp require ad key alg uid cid tr transports now)
  then have "authentic ossl js cbor cid
      ((register_cred cid uid ad (snd (i2d_PUBKEY ossl key)) alg transports now)\<lparr> cred_transports := tr \<rparr>)"
    unfolding authentic_def register_cred_def by simp blast
  with enrol(1) assms(2) show ?thesis by (simp add: genuine_def)
next
  case (login pool r cid chal cred cnt now)
  then have "m cid = Some cred" by (auto simp: valid_login_def)
  with assms(2) have "genuine ossl js cbor m0 cid cred" by blast
  then have "genuine ossl js cbor m0 cid (cred\<lparr> cred_sign_count := cnt, cred_last_used_at := now \<rparr>)"
    by (fastforce simp: genuine_def authentic_def)
  with login(1) assms(2) show ?thesis by simp
qed (use assms(2) in auto)

lemma abs_steps_genuine:
  assumes "(abs_step ossl js cbor ngx wlcf)\<^sup>*\<^sup>* m0 m" and "m cid = Some cred"
  shows "genuine ossl js cbor m0 cid cred"
proof -
  from assms(1) have "\<forall>cid cred. m cid = Some cred \<longrightarrow> genuine ossl js cbor m0 cid cred"
  proof (induction rule: rtranclp_induct)
    case (step m1 m2)
    from abs_step_genuine [OF step.hyps(2) step.IH] show ?case .
  qed (simp add: genuine_start)
  with assms(2) show ?thesis by blast
qed

text \<open>The calls of a history happened in states of the system.\<close>

lemma history_events:
  assumes "history hi dbs ossl js cbor ngx jwx wlcf s es s'"
  shows "(sys_step hi dbs ossl js cbor ngx jwx wlcf)\<^sup>*\<^sup>* s s'
     \<and> (\<forall>e \<in> set es. (sys_step hi dbs ossl js cbor ngx jwx wlcf)\<^sup>*\<^sup>* s (ev_before e)
          \<and> (\<exists>rc s2. ngx_http_auth_webauthn_verify_content (ev_body e) hi ossl js ngx jwx (ev_jti e) (ev_now e) (ev_pool e) wlcf (ev_req e)
               http_out_fresh (ev_before e) = (rc, ev_out e, s2)))"
  using assms
proof induction
  case (verify es s1 e rc s2)
  then have "sys_step hi dbs ossl js cbor ngx jwx wlcf s1 s2" by (intro sys_step.verify)
  with verify show ?case by (auto intro: rtranclp.rtrancl_into_rtrancl)
next
  case (step es s1 s2)
  then show ?case by (auto intro: rtranclp.rtrancl_into_rtrancl)
qed simp

lemma cookie_text_inject: "cookie_text wlcf t = cookie_text wlcf t' \<longleftrightarrow> t = t'"
  by (simp add: cookie_text_def)

lemma verify_content_cookie:
  assumes "ngx_http_auth_webauthn_verify_content body hi ossl js ngx jwx jti now pool wlcf r out s = (rc, out', s')"
    and "ho_headers out' \<noteq> ho_headers out"
  shows "\<exists>s2. ngx_http_auth_webauthn_verify_done hi ossl js ngx jwx jti now pool wlcf r out s = (out', s2)"
  using assms by (auto simp: ngx_http_auth_webauthn_verify_content_def Let_def split: if_splits prod.splits)

lemma genuine_plain:
  assumes "genuine ossl js cbor m0 cid cred" and "\<And>cid cred. m0 cid = Some cred \<Longrightarrow> plain cid"
  shows "plain cid"
proof (cases "authentic ossl js cbor cid cred")
  case True
  then show ?thesis unfolding authentic_def using plain_basis [OF encode_alphabet] by blast
next
  case False
  with assms show ?thesis by (auto simp: genuine_def)
qed

text \<open>The gate opens only for a session, whatever memory does.\<close>

lemma build_jwks_sound: "ngx_http_auth_webauthn_build_jwks ngx jwx pool wlcf = Some ks \<Longrightarrow> jwks_of ngx jwx wlcf = Some ks"
  by (auto simp: ngx_http_auth_webauthn_build_jwks_def jwks_of_def ngx_http_auth_webauthn_b64url_def ngx_http_auth_webauthn_json_escape_def
      split: if_splits option.splits)

lemma check_session_sound:
  assumes "check_session ngx jwx now pool wlcf r = Session p exp"
  shows "session_ok ngx jwx wlcf r now p exp"
proof -
  have sl: "\<not> exp \<le>s now \<Longrightarrow> now <s exp" for exp :: time_t by (simp add: word_sless_alt word_sle_eq)
  show ?thesis
    using assms unfolding check_session_def memcmp_differs iss_differs claim_test session_ok_def
    by (auto simp: Option.bind_eq_Some_conv dest!: build_jwks_sound sl split: option.splits if_splits)
qed

lemma access_sound:
  assumes "ngx_http_auth_webauthn_access_handler ngx jwx cv now pool wlcf r ctx0 hs out = (rc_code NGX_OK, ctx, hs', out')" and "lc_auth wlcf"
  obtains p exp where "session_ok ngx jwx wlcf r now p exp" "ctx = Some (ctx_of jwx p exp)"
proof (cases "check_session ngx jwx now pool wlcf r")
  case (Session p exp)
  have "NGX_HTTP_INTERNAL_SERVER_ERROR \<noteq> 0" by (simp add: NGX_HTTP_INTERNAL_SERVER_ERROR_def)
  with assms Session have "ctx = Some (ctx_of jwx p exp)"
    by (auto simp: ngx_http_auth_webauthn_access_handler_def Let_def copy_claim_def ctx_of_def claim_text_def ctx_zero_def
        split: option.splits if_splits prod.splits)
  with check_session_sound [OF Session] show thesis by (rule that)
next
  case (Refuse st)
  with assms unauthorized_rc [of pool wlcf out] show thesis
    by (auto simp: ngx_http_auth_webauthn_access_handler_def Let_def NGX_HTTP_INTERNAL_SERVER_ERROR_def split: if_splits prod.splits)
next
  case Fail
  with assms show thesis
    by (auto simp: ngx_http_auth_webauthn_access_handler_def Let_def NGX_HTTP_INTERNAL_SERVER_ERROR_def split: if_splits)
qed

context redis_server
begin

text \<open>A recorded cookie belongs to a login of a genuine credential.\<close>

lemma event_login:
  assumes "history hi dbs ossl js cbor ngx jwx wlcf s es s'" and "i2d_law ossl"
    and "prefix = lc_redis_key_prefix wlcf" and "n = lc_redis_db wlcf" and "cred_inv prefix (dbs s n)"
    and "e \<in> set es" and "(''Set-Cookie'', cookie_text wlcf t) \<in> set (ho_headers (ev_out e))"
  obtains cid cred j where "logged_in dbs clock ossl js ngx wlcf e cid cred" "genuine ossl js cbor (cred_abs prefix (dbs s n)) cid cred"
    "session_token ngx jwx wlcf j (ev_now e) (cred_user_id cred) cid = Some t"
proof -
  from history_events [OF assms(1)] assms(6) obtain rc s2 where
    st: "(sys_step hi dbs ossl js cbor ngx jwx wlcf)\<^sup>*\<^sup>* s (ev_before e)" and
    v: "ngx_http_auth_webauthn_verify_content (ev_body e) hi ossl js ngx jwx (ev_jti e) (ev_now e) (ev_pool e) wlcf (ev_req e)
      http_out_fresh (ev_before e) = (rc, ev_out e, s2)" by blast
  note abs = sys_steps_abs [OF st assms(2-5)]
  have "ho_headers (ev_out e) \<noteq> ho_headers http_out_fresh" using assms(7) by (auto simp: http_out_fresh_def)
  from verify_content_cookie [OF v this] this obtain s3 where
    d: "ngx_http_auth_webauthn_verify_done hi ossl js ngx jwx (ev_jti e) (ev_now e) (ev_pool e) wlcf (ev_req e) http_out_fresh (ev_before e)
      = (ev_out e, s3)" and h: "ho_headers (ev_out e) \<noteq> ho_headers http_out_fresh" by blast
  show thesis
  proof (rule verify_done_login [OF d h conjunct1 [OF abs] assms(3,4), of True])
    fix cid chal cred cnt j jwt
    assume l: "valid_login ossl js ngx (ev_pool e) wlcf (ev_req e) (cred_abs prefix (dbs (ev_before e) n)) cid chal cred cnt"
      and c: "\<exists>t. clock (ev_before e) \<le> t \<and> t \<le> clock s3 \<and> live t (dbs (ev_before e) n) (prefix @ ''chal:'' @ chal) \<noteq> None"
      and tok: "session_token ngx jwx wlcf j (ev_now e) (cred_user_id cred) cid = Some jwt"
      and out: "ho_headers (ev_out e) = ho_headers http_out_fresh @ [(''Set-Cookie'', cookie_text wlcf jwt)]"
    have "cred_abs prefix (dbs (ev_before e) n) cid = Some cred" using l by (auto simp: valid_login_def)
    with abs have "genuine ossl js cbor (cred_abs prefix (dbs s n)) cid cred" by (blast intro: abs_steps_genuine)
    moreover have "logged_in dbs clock ossl js ngx wlcf e cid cred"
      using l c unfolding logged_in_def assms(3,4) Let_def by blast
    moreover have "jwt = t" using out assms(7) by (auto simp: http_out_fresh_def cookie_text_inject)
    ultimately show thesis using tok that by blast
  qed simp
qed

text \<open>What the gate admits goes back to such a login.\<close>

lemma admitted_login:
  assumes "history hi dbs ossl js cbor ngx jwx wlcf s es s'" and "i2d_law ossl"
    and "prefix = lc_redis_key_prefix wlcf" and "n = lc_redis_db wlcf" and "cred_inv prefix (dbs s n)"
    and "\<And>cid cred. cred_abs prefix (dbs s n) cid = Some cred \<Longrightarrow> plain cid"
    and "plain (lc_rp_id wlcf)" and "\<And>x. set (core_encode_base64url ngx x) \<subseteq> set basis"
    and "jwx_law ngx jwx key_pair" and "key_ok key_pair wlcf" and "jwks_of ngx jwx gl = jwks_of ngx jwx wlcf"
    and "unforged ngx jwx gl wlcf es r" and "session_ok ngx jwx gl r now p exp"
  obtains e cid cred where "e \<in> set es" "logged_in dbs clock ossl js ngx wlcf e cid cred"
    "genuine ossl js cbor (cred_abs prefix (dbs s n)) cid cred" "lc_rp_id gl = lc_rp_id wlcf"
    "session_payload jwx p (lc_rp_id wlcf) (cred_user_id cred) cid (ev_now e + lc_jwt_ttl wlcf)" "exp = ev_now e + lc_jwt_ttl wlcf"
proof -
  from assms(13) obtain cookies t tok ks where c: "rq_cookie r = Some cookies" "ngx_http_parse_cookie ngx cookies (lc_cookie_name gl) = Some t"
    and t: "nxe_jwx_decode jwx t = Some tok" and ks: "jwks_of ngx jwx gl = Some ks" and v: "nxe_jwx_jws_verify jwx tok ks = NGX_OK"
    and p: "nxe_jwx_token_payload jwx tok = Some p" "nxe_jwx_claims_get_string jwx p ''aud'' = Some (lc_rp_id gl)"
      "nxe_jwx_claims_get_integer jwx p ''exp'' = Some exp" unfolding session_ok_def by blast
  from assms(12) c t ks v obtain e where e: "e \<in> set es" "(''Set-Cookie'', cookie_text wlcf t) \<in> set (ho_headers (ev_out e))"
    unfolding unforged_def by blast
  obtain cid cred j where l: "logged_in dbs clock ossl js ngx wlcf e cid cred" "genuine ossl js cbor (cred_abs prefix (dbs s n)) cid cred"
    and tok: "session_token ngx jwx wlcf j (ev_now e) (cred_user_id cred) cid = Some t"
    by (rule event_login [OF assms(1-5) e])
  obtain ks' where ks': "jwks_of ngx jwx wlcf = Some ks'" "signs jwx (lc_jwt_alg wlcf) (lc_jwt_secret wlcf) ks'"
    by (rule key_set_signs [OF assms(9,10)])
  have "plain cid" by (rule genuine_plain [OF l(2)]) (rule assms(6))
  moreover have "plain (core_encode_base64url ngx j)" using assms(8) by (rule plain_basis)
  ultimately obtain tok' p' where "nxe_jwx_decode jwx t = Some tok'" "nxe_jwx_token_payload jwx tok' = Some p'"
    "session_payload jwx p' (lc_rp_id wlcf) (cred_user_id cred) cid (ev_now e + lc_jwt_ttl wlcf)"
    using session_token_payload [OF ks'(2) tok assms(7)] by metis
  with t p have sp: "session_payload jwx p (lc_rp_id wlcf) (cred_user_id cred) cid (ev_now e + lc_jwt_ttl wlcf)" by simp
  with p(2,3) have "lc_rp_id gl = lc_rp_id wlcf" "exp = ev_now e + lc_jwt_ttl wlcf" by (simp_all add: session_payload_def)
  with e(1) l sp show thesis by (intro that)
qed

end

text \<open>A history of one call: the example login.\<close>

lemma toy_history:
  "\<exists>e s'. history mem_hi mem_dbs ex_ossl (ex_js ex_docs) ex_cbor_none toy_ngx toy_jwx ex_conf ex_login_store [e] s'
     \<and> ev_now e = 100 \<and> ho_headers (ev_out e) = [(''Set-Cookie'', cookie_text ex_conf toy_token)]"
proof -
  obtain out s' where v: "ngx_http_auth_webauthn_verify_done mem_hi ex_ossl (ex_js ex_docs) toy_ngx toy_jwx (Some ''j'') 100 ex_pool ex_conf ex_req
     http_out_fresh ex_login_store = (out, s')" "ho_headers out = [(''Set-Cookie'', cookie_text ex_conf toy_token)]" using toy_login by blast
  let ?e = "\<lparr> ev_body = (0, True), ev_jti = Some ''j'', ev_now = 100, ev_pool = ex_pool, ev_req = ex_req, ev_before = ex_login_store, ev_out = out \<rparr>"
  have "ngx_http_auth_webauthn_verify_content (ev_body ?e) mem_hi ex_ossl (ex_js ex_docs) toy_ngx toy_jwx (ev_jti ?e) (ev_now ?e) (ev_pool ?e) ex_conf (ev_req ?e)
      http_out_fresh ex_login_store = (NGX_DONE, ev_out ?e, s')"
    using v(1) by (simp add: ngx_http_auth_webauthn_verify_content_def ex_req_def NGX_HTTP_SPECIAL_RESPONSE_def)
  from history.verify [OF history.start _ this] have "history mem_hi mem_dbs ex_ossl (ex_js ex_docs) ex_cbor_none toy_ngx toy_jwx ex_conf
      ex_login_store ([] @ [?e]) s'" by simp
  with v(2) show ?thesis by (intro exI [of _ ?e] exI [of _ s']) simp
qed

lemma toy_admitted:
  "\<exists>ctx hs' out'. ngx_http_auth_webauthn_access_handler toy_ngx toy_jwx (\<lambda>_ _ v. Some v) 200 ex_pool ex_conf
     (ex_req\<lparr> rq_cookie := Some [''wa='' @ toy_token] \<rparr>) None [] http_out_fresh = (rc_code NGX_OK, ctx, hs', out')"
proof -
  obtain rc ctx hs' out' where a: "ngx_http_auth_webauthn_access_handler toy_ngx toy_jwx (\<lambda>_ _ v. Some v) 200 ex_pool ex_conf
     (ex_req\<lparr> rq_cookie := Some [''wa='' @ toy_token] \<rparr>) None [] http_out_fresh = (rc, ctx, hs', out')" by (metis surj_pair)
  have t: "(200 :: time_t) <s 100 + lc_jwt_ttl ex_conf" by code_simp
  have p: "plain (lc_rp_id ex_conf)" "plain ''id''" by (rule plainI; force simp: ex_conf_def)+
  have "if 200 <s 100 + lc_jwt_ttl ex_conf
     then rc = rc_code NGX_OK
       \<and> ctx = Some \<lparr> cx_user_id = cred_user_id ex_rec, cx_credential_id = ''id'', cx_auth_status = ''authenticated'',
                      cx_jwt_exp = 100 + lc_jwt_ttl ex_conf, cx_has_exp = True \<rparr>
     else rc \<noteq> rc_code NGX_OK \<and> map_option cx_auth_status ctx = Some ''expired''"
    by (rule gate_on_session [where cookies = "[''wa='' @ toy_token]", OF toy_law _ toy_session p toy_encode_basis _ _ _ _ _ _ a]) (simp_all add: ex_conf_def key_ok_def toy_ngx_def)
  with t a show ?thesis by simp
qed

end
