(* ===== verification/Concurrent.thy ===== *)
theory Concurrent
  imports System
begin

text \<open>
  Logins in several nginx workers at once. A worker blocks in each call to Redis, so the other workers, the other endpoints and
  the administration tool can act between any two calls of \<open>ngx_http_auth_webauthn_verify_done\<close>. The handler is cut at these points into
  stages; run without interruption they are the handler.
\<close>

section \<open>The stages of the verify handler\<close>

text \<open>A request with what its worker draws and reads for it.\<close>

record job =
  jb_jti :: "bytes option"
  jb_now :: time_t
  jb_pool :: ngx_pool_t
  jb_req :: http_req

text \<open>Where the handler stands, with its local variables.\<close>

datatype 'c stage =
    Start
  | Connected "'c redis_t option" bytes assertion bytes
  | Consumed_challenge "'c redis_t option" bytes assertion bytes
  | Verified "'c redis_t option" bytes credential "32 word"
  | Finished http_out

fun verify_stage ::
    "('c, 's) hiredis \<Rightarrow> 'k openssl \<Rightarrow> 'j nxe_json \<Rightarrow> ngx_core \<Rightarrow> ('t, 'ks, 'p) nxe_jwx \<Rightarrow> 'v loc_conf \<Rightarrow> job \<Rightarrow> 'c stage \<Rightarrow> 's
     \<Rightarrow> 'c stage \<times> 's" where
  "verify_stage hi ossl js ngx jwx wlcf j Start s =
     (if length (lc_rp_id wlcf) = 0 \<or> length (lc_redis_host wlcf) = 0 \<or> length (lc_jwt_secret wlcf) = 0 \<or> lc_origins wlcf = None
      then (Finished (finalize http_out_fresh NGX_HTTP_INTERNAL_SERVER_ERROR), s)
      else
      case ngx_http_auth_webauthn_read_body (jb_pool j) (jb_req j) of
        None \<Rightarrow> (Finished (reject ngx (jb_pool j) (jb_req j) http_out_fresh), s)
      | Some body \<Rightarrow>
      (case verify_parse ngx js (jb_pool j) body of
        None \<Rightarrow> (Finished (reject ngx (jb_pool j) (jb_req j) http_out_fresh), s)
      | Some (cid, assertion, challenge_raw) \<Rightarrow>
      let (rc, redis, s) = ngx_auth_webauthn_redis_connect hi (Some (jb_pool j)) (Some (redis_conf_of wlcf)) (Some None) s in
      if rc \<noteq> NGX_OK then (Finished (finalize http_out_fresh NGX_HTTP_INTERNAL_SERVER_ERROR), s)
      else (Connected (the redis) cid assertion challenge_raw, s)))"
| "verify_stage hi ossl js ngx jwx wlcf j (Connected redis cid assertion challenge_raw) s =
     (let (rc, s) = ngx_auth_webauthn_challenge_consume hi redis (Some (jb_pool j)) (Some (lc_redis_key_prefix wlcf)) (Some challenge_raw)
                      (length challenge_raw) s
      in
      if rc \<noteq> NGX_OK
      then (Finished (reject ngx (jb_pool j) (jb_req j) http_out_fresh), snd (ngx_auth_webauthn_redis_close hi redis s))
      else (Consumed_challenge redis cid assertion challenge_raw, s))"
| "verify_stage hi ossl js ngx jwx wlcf j (Consumed_challenge redis cid assertion challenge_raw) s =
     (let (rc, cred, s) = ngx_auth_webauthn_credential_get hi redis (Some (jb_pool j)) (Some (lc_redis_key_prefix wlcf)) (Some cid)
                            (Some credential_zero) s
      in
      if rc \<noteq> NGX_OK
      then (Finished (reject ngx (jb_pool j) (jb_req j) http_out_fresh), snd (ngx_auth_webauthn_redis_close hi redis s))
      else
      let (rc, result) = ngx_auth_webauthn_assertion_verify ossl js (core_decode_base64url ngx) (Some (jb_pool j))
            (Some assertion) (Some (cred_of (the cred))) (Some (policy_of wlcf challenge_raw))
            (Some \<lparr> auth_sign_count = 0 \<rparr>)
      in
      if rc \<noteq> NGX_OK
      then (Finished (reject ngx (jb_pool j) (jb_req j) http_out_fresh), snd (ngx_auth_webauthn_redis_close hi redis s))
      else (Verified redis cid (the cred) (auth_sign_count (the result)), s))"
| "verify_stage hi ossl js ngx jwx wlcf j (Verified redis cid cred cnt) s =
     (let (rc, s) = ngx_auth_webauthn_credential_update_counter hi redis (Some (jb_pool j)) (Some (lc_redis_key_prefix wlcf)) (Some cid)
                      cnt (jb_now j) s;
          s = snd (ngx_auth_webauthn_redis_close hi redis s)
      in (Finished (verify_mint ngx jwx (jb_jti j) (jb_pool j) wlcf (jb_req j) (jb_now j) (cred_user_id cred) cid http_out_fresh), s))"
| "verify_stage hi ossl js ngx jwx wlcf j (Finished out) s = (Finished out, s)"

section \<open>Workers\<close>

text \<open>The connection a worker holds.\<close>

fun held :: "'c stage \<Rightarrow> 'c option" where
  "held (Connected redis _ _ _) = Option.bind redis rd_ctx"
| "held (Consumed_challenge redis _ _ _) = Option.bind redis rd_ctx"
| "held (Verified redis _ _ _) = Option.bind redis rd_ctx"
| "held _ = None"

type_synonym 'c workers = "nat \<Rightarrow> (job \<times> 'c stage) option"

text \<open>Connections are private: what one client does leaves the database selected on the connections held by the others alone.\<close>

definition undisturbed :: "('s \<Rightarrow> 'c \<Rightarrow> nat) \<Rightarrow> 'c workers \<Rightarrow> 's \<Rightarrow> 's \<Rightarrow> bool" where
  "undisturbed sel ws s s' \<longleftrightarrow> (\<forall>k j st c. ws k = Some (j, st) \<longrightarrow> held st = Some c \<longrightarrow> sel s' c = sel s c)"

inductive conc_step ::
    "('c, 's) hiredis \<Rightarrow> ('s \<Rightarrow> nat \<Rightarrow> rdb) \<Rightarrow> ('s \<Rightarrow> 'c \<Rightarrow> nat) \<Rightarrow> 'k openssl \<Rightarrow> 'j nxe_json \<Rightarrow> cbor_load_t \<Rightarrow> ngx_core \<Rightarrow> ('t, 'ks, 'p) nxe_jwx
     \<Rightarrow> 'v loc_conf \<Rightarrow> 's \<times> 'c workers \<Rightarrow> 's \<times> 'c workers \<Rightarrow> bool" for hi dbs sel ossl js cbor ngx jwx wlcf where
  request: "ws i = None \<Longrightarrow> conc_step hi dbs sel ossl js cbor ngx jwx wlcf (s, ws) (s, ws(i \<mapsto> (j, Start)))"
| advance: "ws i = Some (j, st) \<Longrightarrow> verify_stage hi ossl js ngx jwx wlcf j st s = (st', s') \<Longrightarrow> undisturbed sel (ws(i := None)) s s' \<Longrightarrow>
     conc_step hi dbs sel ossl js cbor ngx jwx wlcf (s, ws) (s', ws(i \<mapsto> (j, st')))"
| respond: "ws i = Some (j, Finished out) \<Longrightarrow> conc_step hi dbs sel ossl js cbor ngx jwx wlcf (s, ws) (s, ws(i := None))"
| environment: "sys_step hi dbs ossl js cbor ngx jwx wlcf s s' \<Longrightarrow> undisturbed sel ws s s' \<Longrightarrow>
     conc_step hi dbs sel ossl js cbor ngx jwx wlcf (s, ws) (s', ws)"

text \<open>A run with the states of the store it passes through.\<close>

inductive conc_run ::
    "('c, 's) hiredis \<Rightarrow> ('s \<Rightarrow> nat \<Rightarrow> rdb) \<Rightarrow> ('s \<Rightarrow> 'c \<Rightarrow> nat) \<Rightarrow> 'k openssl \<Rightarrow> 'j nxe_json \<Rightarrow> cbor_load_t \<Rightarrow> ngx_core \<Rightarrow> ('t, 'ks, 'p) nxe_jwx
     \<Rightarrow> 'v loc_conf \<Rightarrow> 's \<Rightarrow> 's list \<Rightarrow> 's \<times> 'c workers \<Rightarrow> bool" for hi dbs sel ossl js cbor ngx jwx wlcf s0 where
  idle: "conc_run hi dbs sel ossl js cbor ngx jwx wlcf s0 [s0] (s0, \<lambda>_. None)"
| step: "conc_run hi dbs sel ossl js cbor ngx jwx wlcf s0 us c \<Longrightarrow> conc_step hi dbs sel ossl js cbor ngx jwx wlcf c c' \<Longrightarrow>
     conc_run hi dbs sel ossl js cbor ngx jwx wlcf s0 (us @ [fst c']) c'"

section \<open>What a worker has established\<close>

text \<open>In one of the states \<open>us\<close> of the store the challenge was live, and in one the request was a valid login.\<close>

definition was_live :: "('s \<Rightarrow> nat \<Rightarrow> rdb) \<Rightarrow> ('s \<Rightarrow> nat) \<Rightarrow> 'v loc_conf \<Rightarrow> 's list \<Rightarrow> bytes \<Rightarrow> bool" where
  "was_live dbs clock wlcf us chal \<longleftrightarrow>
     (\<exists>u \<in> set us. \<exists>t. clock u \<le> t \<and> live t (dbs u (lc_redis_db wlcf)) (lc_redis_key_prefix wlcf @ ''chal:'' @ chal) \<noteq> None)"

definition was_valid ::
    "('s \<Rightarrow> nat \<Rightarrow> rdb) \<Rightarrow> 'k openssl \<Rightarrow> 'j nxe_json \<Rightarrow> ngx_core \<Rightarrow> 'v loc_conf \<Rightarrow> 's list \<Rightarrow> job \<Rightarrow> bytes \<Rightarrow> bytes \<Rightarrow> credential \<Rightarrow> 32 word \<Rightarrow> bool" where
  "was_valid dbs ossl js ngx wlcf us j cid chal cred cnt \<longleftrightarrow>
     (\<exists>u \<in> set us. valid_login ossl js ngx (jb_pool j) wlcf (jb_req j)
        (cred_abs (lc_redis_key_prefix wlcf) (dbs u (lc_redis_db wlcf))) cid chal cred cnt)"

definition connected :: "('s \<Rightarrow> 'c \<Rightarrow> nat) \<Rightarrow> 'v loc_conf \<Rightarrow> 'c redis_t option \<Rightarrow> 's \<Rightarrow> bool" where
  "connected sel wlcf redis s \<longleftrightarrow> (\<exists>rd c. redis = Some rd \<and> rd_ctx rd = Some c \<and> sel s c = lc_redis_db wlcf)"

definition parsed_as :: "'j nxe_json \<Rightarrow> ngx_core \<Rightarrow> 'v loc_conf \<Rightarrow> job \<Rightarrow> bytes \<Rightarrow> assertion \<Rightarrow> bytes \<Rightarrow> bool" where
  "parsed_as js ngx wlcf j cid a chal \<longleftrightarrow> lc_origins wlcf \<noteq> None
     \<and> (\<exists>body. ngx_http_auth_webauthn_read_body (jb_pool j) (jb_req j) = Some body \<and> verify_parse ngx js (jb_pool j) body = Some (cid, a, chal))"

fun stage_ok ::
    "('s \<Rightarrow> nat \<Rightarrow> rdb) \<Rightarrow> ('s \<Rightarrow> 'c \<Rightarrow> nat) \<Rightarrow> ('s \<Rightarrow> nat) \<Rightarrow> 'k openssl \<Rightarrow> 'j nxe_json \<Rightarrow> ngx_core \<Rightarrow> ('t, 'ks, 'p) nxe_jwx \<Rightarrow> 'v loc_conf \<Rightarrow> 's list
     \<Rightarrow> job \<Rightarrow> 'c stage \<Rightarrow> 's \<Rightarrow> bool" where
  "stage_ok dbs sel clock ossl js ngx jwx wlcf us j Start s = True"
| "stage_ok dbs sel clock ossl js ngx jwx wlcf us j (Connected redis cid a chal) s =
     (connected sel wlcf redis s \<and> parsed_as js ngx wlcf j cid a chal)"
| "stage_ok dbs sel clock ossl js ngx jwx wlcf us j (Consumed_challenge redis cid a chal) s =
     (connected sel wlcf redis s \<and> parsed_as js ngx wlcf j cid a chal \<and> was_live dbs clock wlcf us chal)"
| "stage_ok dbs sel clock ossl js ngx jwx wlcf us j (Verified redis cid cred cnt) s =
     (connected sel wlcf redis s \<and> (\<exists>chal. was_live dbs clock wlcf us chal \<and> was_valid dbs ossl js ngx wlcf us j cid chal cred cnt))"
| "stage_ok dbs sel clock ossl js ngx jwx wlcf us j (Finished out) s =
     (ho_headers out \<noteq> [] \<longrightarrow> (\<exists>cid chal cred cnt r jwt. was_live dbs clock wlcf us chal \<and> was_valid dbs ossl js ngx wlcf us j cid chal cred cnt
        \<and> session_token ngx jwx wlcf r (jb_now j) (cred_user_id cred) cid = Some jwt
        \<and> ho_headers out = [(''Set-Cookie'', cookie_text wlcf jwt)]))"

section \<open>Lemmas\<close>

lemma was_live_mono: "was_live dbs clock wlcf us chal \<Longrightarrow> was_live dbs clock wlcf (us @ vs) chal"
  by (auto simp: was_live_def)

lemma was_valid_mono: "was_valid dbs ossl js ngx wlcf us j cid chal cred cnt \<Longrightarrow> was_valid dbs ossl js ngx wlcf (us @ vs) j cid chal cred cnt"
  by (auto simp: was_valid_def)

text \<open>What a worker has established stays established while the others work.\<close>

lemma stage_ok_frame:
  assumes "stage_ok dbs sel clock ossl js ngx jwx wlcf us j st s" and "\<And>c. held st = Some c \<Longrightarrow> sel s' c = sel s c"
  shows "stage_ok dbs sel clock ossl js ngx jwx wlcf (us @ vs) j st s'"
proof -
  have live: "was_live dbs clock wlcf (us @ vs) chal" if "was_live dbs clock wlcf us chal" for chal using that by (rule was_live_mono)
  have valid: "was_valid dbs ossl js ngx wlcf (us @ vs) j cid chal cred cnt" if "was_valid dbs ossl js ngx wlcf us j cid chal cred cnt"
    for cid chal cred cnt using that by (rule was_valid_mono)
  show ?thesis
  proof (cases st)
    case (Finished out)
    with assms(1) show ?thesis by simp (meson live valid)
  next
    case (Verified redis cid cred cnt)
    with assms show ?thesis by (auto simp: connected_def) (meson live valid)
  qed (use assms live in \<open>auto simp: connected_def\<close>)
qed

lemma reject_no_cookie [simp]: "ho_headers (reject ngx pool r http_out_fresh) = []" "ho_headers http_out_fresh = []"
  by (simp_all add: http_out_fresh_def)

text \<open>A request whose assertion is accepted for a stored record is a valid login.\<close>

lemma accepted_login:
  assumes "ngx_auth_webauthn_assertion_verify ossl js (core_decode_base64url ngx) (Some (jb_pool j)) (Some a)
      (Some (cred_of cr)) (Some (policy_of wlcf chal)) (Some \<lparr> auth_sign_count = 0 \<rparr>) = (NGX_OK, res)"
    and "parsed_as js ngx wlcf j cid a chal" and "creds cid = Some cr"
  shows "valid_login ossl js ngx (jb_pool j) wlcf (jb_req j) creds cid chal cr (auth_sign_count (the res))"
proof -
  from assms(2) obtain body origins where b: "ngx_http_auth_webauthn_read_body (jb_pool j) (jb_req j) = Some body"
    "verify_parse ngx js (jb_pool j) body = Some (cid, a, chal)" "lc_origins wlcf = Some origins" by (auto simp: parsed_as_def)
  obtain ad cd sig where a: "a = \<lparr> as_authenticator_data = Some ad, as_client_data_json = Some cd, as_signature = sig \<rparr>"
    using verify_parse_shape [OF b(2)] by blast
  from assms(1) obtain cnt where res: "res = Some \<lparr> auth_sign_count = cnt \<rparr>"
    by (auto simp: ngx_auth_webauthn_assertion_verify_def Let_def split: if_splits prod.splits)
  have "valid_assertion ossl js (core_decode_base64url ngx) ad cd sig (cred_of cr) (policy_of wlcf chal) origins cnt"
    using assms(1) res unfolding a by (intro assertion_verify_sound) (auto simp: b(3))
  with b a assms(3) res show ?thesis unfolding valid_login_def by auto
qed

context redis_server
begin

lemma stage_sound:
  assumes "verify_stage hi ossl js ngx jwx wlcf j st s = (st', s')" and "stage_ok dbs sel clock ossl js ngx jwx wlcf us j st s"
    and "s \<in> set us" and "cred_inv (lc_redis_key_prefix wlcf) (dbs s (lc_redis_db wlcf))"
  shows "stage_ok dbs sel clock ossl js ngx jwx wlcf us j st' s' \<and> cred_inv (lc_redis_key_prefix wlcf) (dbs s' (lc_redis_db wlcf))"
proof (cases st)
  case Start
  obtain rc redis s1 where con: "ngx_auth_webauthn_redis_connect hi (Some (jb_pool j)) (Some (redis_conf_of wlcf)) (Some None) s = (rc, redis, s1)"
    by (metis surj_pair)
  note c = connect_contract [OF con]
  have "s' = s \<or> s' = s1" and "(\<exists>out. st' = Finished out \<and> ho_headers out = [])
      \<or> (\<exists>cid a chal. rc = NGX_OK \<and> s' = s1 \<and> st' = Connected (the redis) cid a chal \<and> parsed_as js ngx wlcf j cid a chal)"
    using assms(1) unfolding Start by (auto simp: con parsed_as_def Let_def split: if_splits option.splits)
  with c assms(4) show ?thesis by (auto simp: connected_def redis_conf_of_def)
next
  case (Connected redis cid a chal)
  let ?p = "lc_redis_key_prefix wlcf" and ?n = "lc_redis_db wlcf"
  from assms(2) Connected obtain rd c where rd: "redis = Some rd" "rd_ctx rd = Some c" "sel s c = ?n" and pa: "parsed_as js ngx wlcf j cid a chal"
    by (auto simp: connected_def)
  obtain rc s1 where co: "ngx_auth_webauthn_challenge_consume hi (Some rd) (Some (jb_pool j)) (Some ?p) (Some chal) (length chal) s = (rc, s1)"
    by fastforce
  note cc = consume_contract [OF co rd(2), unfolded rd(3)]
  have "same_creds ?p (dbs s ?n) (dbs s1 ?n)"
    by (rule same_credsI [of "?p @ ''chal:'' @ chal"]) (use cc(2) chal_key_distinct in auto)
  then have inv: "cred_inv ?p (dbs s1 ?n)" using same_creds_frame(1) assms(4) by blast
  have live: "was_live dbs clock wlcf us chal" if "rc = NGX_OK" using cc(3) [OF that] assms(3) by (auto simp: was_live_def)
  show ?thesis
  proof (cases "rc = NGX_OK")
    case True
    then have "st' = Consumed_challenge (Some rd) cid a chal" "s' = s1" using assms(1) by (simp_all add: Connected rd(1) co)
    with inv live [OF True] pa rd cc(1) show ?thesis by (auto simp: connected_def keeps_def)
  next
    case False
    then have "st' = Finished (reject ngx (jb_pool j) (jb_req j) http_out_fresh)" "dbs s' = dbs s1"
      using assms(1) by (auto simp: Connected rd(1) co close_keeps(1))
    with inv show ?thesis by simp
  qed
next
  case (Consumed_challenge redis cid a chal)
  let ?p = "lc_redis_key_prefix wlcf" and ?n = "lc_redis_db wlcf"
  from assms(2) Consumed_challenge obtain rd c where rd: "redis = Some rd" "rd_ctx rd = Some c" "sel s c = ?n"
    and pa: "parsed_as js ngx wlcf j cid a chal" and live: "was_live dbs clock wlcf us chal" by (auto simp: connected_def)
  obtain rc cred s1 where ge: "ngx_auth_webauthn_credential_get hi (Some rd) (Some (jb_pool j)) (Some ?p) (Some cid) (Some credential_zero) s
      = (rc, cred, s1)" by (metis surj_pair)
  have "cred_inv ?p (dbs s (sel s c))" using assms(4) rd(3) by simp
  note gc = get_contract [OF ge rd(2) this]
  obtain rc2 res where av: "ngx_auth_webauthn_assertion_verify ossl js (core_decode_base64url ngx) (Some (jb_pool j)) (Some a)
      (Some (cred_of (the cred))) (Some (policy_of wlcf chal)) (Some \<lparr> auth_sign_count = 0 \<rparr>) = (rc2, res)" by fastforce
  show ?thesis
  proof (cases "rc = NGX_OK \<and> rc2 = NGX_OK")
    case True
    then have st': "st' = Verified (Some rd) cid (the cred) (auth_sign_count (the res))" "s' = s1"
      using assms(1) by (simp_all add: Consumed_challenge rd(1) ge av)
    obtain cr where cr: "cred = Some cr" "cred_abs ?p (dbs s ?n) cid = Some cr" using gc(3) True rd(3) by auto
    with accepted_login [where creds = "cred_abs ?p (dbs s ?n)", OF _ pa cr(2), of ossl res] av True
    have "valid_login ossl js ngx (jb_pool j) wlcf (jb_req j) (cred_abs ?p (dbs s ?n)) cid chal (the cred) (auth_sign_count (the res))" by simp
    with assms(3) have "was_valid dbs ossl js ngx wlcf us j cid chal (the cred) (auth_sign_count (the res))" by (auto simp: was_valid_def)
    with st' live gc(1,2) rd assms(4) show ?thesis by (auto simp: connected_def keeps_def)
  next
    case False
    then have "st' = Finished (reject ngx (jb_pool j) (jb_req j) http_out_fresh)" "dbs s' = dbs s1"
      using assms(1) by (auto simp: Consumed_challenge rd(1) ge av close_keeps(1) split: if_splits)
    with gc(2) assms(4) show ?thesis by simp
  qed
next
  case (Verified redis cid cred cnt)
  let ?p = "lc_redis_key_prefix wlcf" and ?n = "lc_redis_db wlcf"
  from assms(2) Verified obtain rd c chal where rd: "redis = Some rd" "rd_ctx rd = Some c" "sel s c = ?n"
    and est: "was_live dbs clock wlcf us chal" "was_valid dbs ossl js ngx wlcf us j cid chal cred cnt" by (auto simp: connected_def)
  obtain rc s1 where up: "ngx_auth_webauthn_credential_update_counter hi (Some rd) (Some (jb_pool j)) (Some ?p) (Some cid) cnt (jb_now j) s
      = (rc, s1)" by fastforce
  have "cred_inv ?p (dbs s (sel s c))" using assms(4) rd(3) by simp
  with credential_store.update_law [OF credential_store_laws [OF rd(2), where pool = "jb_pool j" and o' = credential_zero] this up]
    update_counter_contract [OF up rd(2) this] have inv: "cred_inv ?p (dbs s1 ?n)" by (auto simp: keeps_def rd(3))
  let ?out = "verify_mint ngx jwx (jb_jti j) (jb_pool j) wlcf (jb_req j) (jb_now j) (cred_user_id cred) cid http_out_fresh"
  have st': "st' = Finished ?out" "dbs s' = dbs s1" using assms(1) by (auto simp: Verified rd(1) up close_keeps(1))
  have "stage_ok dbs sel clock ossl js ngx jwx wlcf us j (Finished ?out) s'"
  proof -
    have "\<exists>r jwt. session_token ngx jwx wlcf r (jb_now j) (cred_user_id cred) cid = Some jwt
        \<and> ho_headers ?out = [(''Set-Cookie'', cookie_text wlcf jwt)]" if "ho_headers ?out \<noteq> []"
      using mint_granted [of ngx jwx "jb_jti j" "jb_pool j" wlcf "jb_req j" "jb_now j" "cred_user_id cred" cid http_out_fresh] that by auto
    with est show ?thesis unfolding stage_ok.simps by blast
  qed
  with st' inv show ?thesis by simp
next
  case (Finished out)
  with assms(1,2,4) show ?thesis by simp
qed

lemma conc_run_ok:
  assumes "conc_run hi dbs sel ossl js cbor ngx jwx wlcf s0 us c" and "i2d_law ossl"
    and "cred_inv (lc_redis_key_prefix wlcf) (dbs s0 (lc_redis_db wlcf))"
  shows "fst c \<in> set us \<and> cred_inv (lc_redis_key_prefix wlcf) (dbs (fst c) (lc_redis_db wlcf))
     \<and> (\<forall>i j st. snd c i = Some (j, st) \<longrightarrow> stage_ok dbs sel clock ossl js ngx jwx wlcf us j st (fst c))"
  using assms(1)
proof induction
  case idle
  then show ?case using assms(3) by simp
next
  case (step us c c')
  note IH = step.IH
  let ?ok = "stage_ok dbs sel clock ossl js ngx jwx wlcf"
  have more: "?ok (us @ vs) j st s'" if "?ok us j st s" "\<And>c. held st = Some c \<Longrightarrow> sel s' c = sel s c" for j st s s' vs
    using that by (rule stage_ok_frame)
  have same: "?ok (us @ vs) j st s" if "?ok us j st s" for j st s vs using that by (rule more) (rule refl)
  from step.hyps(2) show ?case
  proof cases
    case (request ws i s j)
    with IH show ?thesis by (auto intro: same)
  next
    case (advance ws i j st s st' s')
    from stage_sound [OF advance(4)] IH advance(1,3)
    have own: "?ok us j st' s'" and inv: "cred_inv (lc_redis_key_prefix wlcf) (dbs s' (lc_redis_db wlcf))" by auto
    have "?ok (us @ [s']) k st2 s'" if "(ws(i \<mapsto> (j, st'))) i2 = Some (k, st2)" for i2 k st2
    proof (cases "i2 = i")
      case True
      with that own show ?thesis by (auto intro: same)
    next
      case False
      with that have w: "ws i2 = Some (k, st2)" by simp
      with False advance(5) have "held st2 = Some d \<Longrightarrow> sel s' d = sel s d" for d
        unfolding undisturbed_def by (metis fun_upd_other)
      with w IH advance(1) show ?thesis by (intro more [where s = s]) auto
    qed
    with inv advance(2) show ?thesis by auto
  next
    case (respond ws i j out s)
    with IH show ?thesis by (auto intro: same split: if_splits)
  next
    case (environment s s' ws)
    have "cred_inv (lc_redis_key_prefix wlcf) (dbs s' (lc_redis_db wlcf))"
      using sys_step_abs [OF environment(3) assms(2) refl refl] IH environment(1) by simp
    moreover have "?ok (us @ [s']) k st2 s'" if "ws i2 = Some (k, st2)" for i2 k st2
      using IH that environment(1,4) by (intro more [where s = s]) (auto simp: undisturbed_def)
    ultimately show ?thesis using environment(2) by simp
  qed
qed

end

section \<open>Properties\<close>


text \<open>C14: logins stay sound under concurrency. However many workers handle logins at once, interleaved between any two of their calls to
  Redis with each other, the other endpoints, the administration tool and failures of Redis and memory: a worker that sets a cookie handled a request that was a
  valid login for a record which was registered when the worker read it, with a challenge that was live in Redis when the worker consumed it, and the cookie is the
  token of exactly that user and credential.\<close>

theorem concurrent_login_sound:
  assumes "redis_server hi dbs sel clock" and "i2d_law ossl"
    and "conc_run hi dbs sel ossl js cbor ngx jwx wlcf s0 us (s, ws)"
    and "cred_inv (lc_redis_key_prefix wlcf) (dbs s0 (lc_redis_db wlcf))"
    and "ws i = Some (j, Finished out)" and "ho_headers out \<noteq> []"
  shows "\<exists>cid chal cred cnt r jwt. was_live dbs clock wlcf us chal \<and> was_valid dbs ossl js ngx wlcf us j cid chal cred cnt
     \<and> session_token ngx jwx wlcf r (jb_now j) (cred_user_id cred) cid = Some jwt
     \<and> ho_headers out = [(''Set-Cookie'', cookie_text wlcf jwt)]"
proof -
  have "stage_ok dbs sel clock ossl js ngx jwx wlcf us j (Finished out) s"
    using redis_server.conc_run_ok [OF assms(1,3,2,4)] assms(5) unfolding fst_conv snd_conv by blast
  with assms(6) show ?thesis by simp
qed

subsection \<open>Two workers\<close>

text \<open>Two requests to log in with the example credential, under two challenges but with the same counter value, as an authenticator and its clone send them.\<close>

definition race_chal :: "bool \<Rightarrow> bytes" where
  "race_chal b = (if b then ''fedcba9876543210fedcba9876543210'' else ex_challenge)"

definition race_cd :: "bool \<Rightarrow> bytes" where
  "race_cd b = (if b then ''CE'' else ''CD'')"

definition race_body :: "bool \<Rightarrow> bytes" where
  "race_body b = (if b then ''BODZ'' else ''BODY'')"

definition race_sig :: "bool \<Rightarrow> bytes" where
  "race_sig b = ''KEY'' @ ex_auth_data @ race_cd b @ replicate 30 (CHR 0x00)"

definition race_doc :: "bool \<Rightarrow> (bytes \<times> ex_node) list" where
  "race_doc b =
     [(race_body b, Ex_object [(''id'', Ex_string ''id''),
        (''response'', Ex_object
          [(''clientDataJSON'', Ex_string (ngx_encode_base64url (race_cd b))),
           (''authenticatorData'', Ex_string (ngx_encode_base64url ex_auth_data)),
           (''signature'', Ex_string (ngx_encode_base64url (race_sig b)))])]),
      (race_cd b, Ex_object [(''type'', Ex_string ''webauthn.get''), (''challenge'', Ex_string (ngx_encode_base64url (race_chal b))),
         (''origin'', Ex_string ''https://a''), (''crossOrigin'', Ex_bool False)])]"

definition race_docs :: "(bytes \<times> ex_node) list" where
  "race_docs = race_doc False @ race_doc True"

definition race_job :: "bool \<Rightarrow> job" where
  "race_job b = \<lparr> jb_jti = Some ''j'', jb_now = 100, jb_pool = ex_pool, jb_req = ex_req\<lparr> rq_bufs := Some [(race_body b, False)] \<rparr> \<rparr>"

definition race_assertion :: "bool \<Rightarrow> assertion" where
  "race_assertion b = \<lparr> as_authenticator_data = Some ex_auth_data, as_client_data_json = Some (race_cd b), as_signature = race_sig b \<rparr>"

definition race_store :: mem where
  "race_store = mem_empty\<lparr> mem_dbs := (mem_dbs mem_empty)(0 := ex_db
     (''w:chal:'' @ race_chal False := Some (RString ''1'', Some 60000), ''w:chal:'' @ race_chal True := Some (RString ''1'', Some 60000))) \<rparr>"

lemma race_docs_of: "map_of race_docs (race_body b) = Some (snd (race_doc b ! 0))" "map_of race_docs (race_cd b) = Some (snd (race_doc b ! 1))"
  by (cases b; simp add: race_docs_def race_doc_def race_body_def race_cd_def del: ngx_encode_base64url.simps)+

lemma race_nonempty: "ngx_encode_base64url (race_cd b) \<noteq> []" "ngx_encode_base64url (race_sig b) \<noteq> []"
proof -
  have "ngx_encode_base64url x \<noteq> []" if "x \<noteq> []" for x using encode_length [of x] that by (cases x) auto
  then show "ngx_encode_base64url (race_cd b) \<noteq> []" "ngx_encode_base64url (race_sig b) \<noteq> []"
    by (simp_all add: race_cd_def race_sig_def del: ngx_encode_base64url.simps)
qed

lemma race_parsed: "parsed_as (ex_js race_docs) ex_ngx ex_conf (race_job b) ''id'' (race_assertion b) (race_chal b)"
proof -
  have "verify_parse ex_ngx (ex_js race_docs) ex_pool (race_body b) = Some (''id'', race_assertion b, race_chal b)"
    using race_docs_of [of b]
    by (simp add: verify_parse_def ngx_http_auth_webauthn_b64url_field_def race_doc_def ex_js_def ex_ngx_def race_assertion_def
        race_nonempty ex_nonempty decoded_encode del: ngx_encode_base64url.simps)
  moreover have "ngx_http_auth_webauthn_read_body ex_pool (ex_req\<lparr> rq_bufs := Some [(race_body b, False)] \<rparr>) = Some (race_body b)"
    by (simp add: ngx_http_auth_webauthn_read_body_def NGX_AUTH_WEBAUTHN_MAX_BODY_def race_body_def)
  ultimately show ?thesis by (simp add: parsed_as_def race_job_def ex_conf_def)
qed

lemma race_accepted:
  "ngx_auth_webauthn_assertion_verify ex_ossl (ex_js race_docs) (core_decode_base64url ex_ngx) (Some ex_pool) (Some (race_assertion b))
     (Some (cred_of ex_rec)) (Some (policy_of ex_conf (race_chal b))) (Some r0) = (NGX_OK, Some \<lparr> auth_sign_count = 9 \<rparr>)"
proof -
  have sc: "be32_bytes 9 = [CHR 0x00, CHR 0x00, CHR 0x00, CHR 0x09]" and fl: "of_byte 5 = CHR 0x05" by code_simp+
  have cred: "cred_of ex_rec = ex_cred" by (simp add: cred_of_def ex_rec_def ex_cred_def)
  have "clientdata_ok (ex_js race_docs) decoded (race_cd b) ''webauthn.get'' (race_chal b) [''https://a'']"
    using race_docs_of(2) [of b]
    by (simp add: clientdata_ok_def ex_js_def race_doc_def ngx_auth_webauthn_clientdata_get_string_def decoded_encode
        del: ngx_encode_base64url.simps)
  moreover have "valid_signature ex_ossl ex_cred (ex_auth_data @ race_cd b @ replicate 30 (CHR 0x00)) (race_sig b)"
    by (simp add: valid_signature_def alg_params_def ex_cred_def ex_ossl_def ex_key_def race_sig_def)
  moreover have "ex_auth_data = (''rp'' @ replicate 30 (CHR 0x00)) @ [of_byte 5] @ be32_bytes 9 @ []"
    by (simp add: ex_auth_data_def sc fl)
  moreover have "sha256 ex_ossl (race_cd b) = Some (race_cd b @ replicate 30 (CHR 0x00))"
    by (simp add: ex_ossl_sha256 race_cd_def)
  ultimately have "valid_assertion ex_ossl (ex_js race_docs) decoded ex_auth_data (race_cd b) (race_sig b) ex_cred
      (policy_of ex_conf (race_chal b)) [''https://a''] 9"
    unfolding valid_assertion_def
    by (intro conjI exI [of _ "''rp'' @ replicate 30 (CHR 0x00)"] exI [of _ 5] exI [of _ "[]"]
          exI [of _ "race_cd b @ replicate 30 (CHR 0x00)"])
      (simp_all add: policy_of_def ex_conf_def ex_ossl_sha256 counter_ok_def ex_cred_def FLAG_UP_def FLAG_UV_def FLAG_AT_def FLAG_ED_def)
  then show ?thesis
    unfolding race_assertion_def cred by (intro assertion_verify_complete) (simp_all add: ex_conf_def ex_ngx_def)
qed

abbreviation race_stage :: "job \<Rightarrow> nat stage \<Rightarrow> mem \<Rightarrow> nat stage \<times> mem" where
  "race_stage \<equiv> verify_stage mem_hi ex_ossl (ex_js race_docs) ex_ngx ex_jwx ex_conf"

definition race_conn :: "nat redis_t option \<Rightarrow> bool" where
  "race_conn redis \<longleftrightarrow> (\<exists>c. redis = Some \<lparr> rd_ctx = Some c, rd_pool = ex_pool \<rparr>)"

definition still :: "mem \<Rightarrow> mem \<Rightarrow> bool" where
  "still s s' \<longleftrightarrow> mem_sel s' = mem_sel s \<and> mem_clock s' \<le> mem_clock s + 1"

lemma race_start:
  assumes "mem_sel s = (\<lambda>_. 0)"
  shows "\<exists>redis s'. race_stage (race_job b) Start s = (Connected redis ''id'' (race_assertion b) (race_chal b), s') \<and> race_conn redis
     \<and> still s s' \<and> mem_dbs s' = mem_dbs s"
proof -
  obtain redis s' where c: "ngx_auth_webauthn_redis_connect mem_hi (Some ex_pool) (Some (redis_conf_of ex_conf)) (Some None) s = (NGX_OK, Some redis, s')"
    and r: "race_conn redis" "still s s'" "mem_dbs s' = mem_dbs s"
    by (simp add: ngx_auth_webauthn_redis_connect_def connect_open_def connect_timeout_def connect_auth_def connect_select_def
      redis_conf_of_def ex_conf_def mem_hi_def mem_connect_def Let_def race_conn_def still_def assms fun_upd_idem)
  obtain body where "ngx_http_auth_webauthn_read_body (jb_pool (race_job b)) (jb_req (race_job b)) = Some body"
    "verify_parse ex_ngx (ex_js race_docs) (jb_pool (race_job b)) body = Some (''id'', race_assertion b, race_chal b)"
    using race_parsed [of b] by (auto simp: parsed_as_def)
  moreover have "jb_pool (race_job b) = ex_pool" by (simp add: race_job_def)
  moreover have "lc_rp_id ex_conf \<noteq> []" "lc_redis_host ex_conf \<noteq> []" "lc_jwt_secret ex_conf \<noteq> []" "lc_origins ex_conf \<noteq> None" by (simp_all add: ex_conf_def)
  ultimately have "race_stage (race_job b) Start s = (Connected redis ''id'' (race_assertion b) (race_chal b), s')" using c by simp
  with r show ?thesis by blast
qed

lemma race_consume:
  assumes "race_conn redis" and "mem_sel s = (\<lambda>_. 0)"
    and "mem_dbs s 0 (''w:chal:'' @ race_chal b) = Some (RString v, Some e)" and "mem_clock s + 1 < e"
  shows "\<exists>s'. race_stage (race_job b) (Connected redis ''id'' a (race_chal b)) s = (Consumed_challenge redis ''id'' a (race_chal b), s')
     \<and> still s s' \<and> mem_dbs s' 0 = (mem_dbs s 0)(''w:chal:'' @ race_chal b := None)"
proof -
  obtain c where redis: "redis = Some \<lparr> rd_ctx = Some c, rd_pool = ex_pool \<rparr>" using assms(1) by (auto simp: race_conn_def)
  have len: "length (race_chal b) = 32" by (simp add: race_chal_def ex_challenge_len)
  obtain rc s' where co: "ngx_auth_webauthn_challenge_consume mem_hi redis (Some ex_pool) (Some ''w:'') (Some (race_chal b)) 32 s = (rc, s')"
    by fastforce
  then have tick: "mem_clock s' \<le> mem_clock s + 1" using mem_call_tick(1) [of redis "Some ex_pool" "Some ''w:''" "Some (race_chal b)" 32 s] by simp
  have rc: "rc = NGX_OK"
    by (rule mem_reliable.consume_reliable [OF co [unfolded redis]]) (use assms(2-4) len tick in auto)
  note cc = mem.consume_contract [OF co [unfolded redis len [symmetric]]]
  have "mem.keeps c s s'" "mem_dbs s' 0 = (mem_dbs s 0)(''w:chal:'' @ race_chal b := None)"
    using cc(1,3) rc assms(2) by auto
  moreover have "race_stage (race_job b) (Connected redis ''id'' a (race_chal b)) s = (Consumed_challenge redis ''id'' a (race_chal b), s')"
    using co rc len by (simp add: race_job_def ex_conf_def)
  ultimately show ?thesis using tick by (auto simp: still_def mem.keeps_def)
qed

lemma race_fetch:
  assumes "race_conn redis" and "mem_sel s = (\<lambda>_. 0)" and "cred_inv ''w:'' (mem_dbs s 0)" and "cred_abs ''w:'' (mem_dbs s 0) ''id'' = Some ex_rec"
  shows "\<exists>s'. race_stage (race_job b) (Consumed_challenge redis ''id'' (race_assertion b) (race_chal b)) s = (Verified redis ''id'' ex_rec 9, s')
     \<and> still s s' \<and> mem_dbs s' = mem_dbs s"
proof -
  obtain c where redis: "redis = Some \<lparr> rd_ctx = Some c, rd_pool = ex_pool \<rparr>" using assms(1) by (auto simp: race_conn_def)
  obtain rc cred s' where ge: "ngx_auth_webauthn_credential_get mem_hi redis (Some ex_pool) (Some ''w:'') (Some ''id'') (Some credential_zero) s
      = (rc, cred, s')" by (metis surj_pair)
  then have tick: "mem_clock s' \<le> mem_clock s + 1" using mem_call_tick(2) [of redis "Some ex_pool" "Some ''w:''" "Some ''id''" "Some credential_zero" s] by simp
  have inv: "cred_inv ''w:'' (mem_dbs s (mem_sel s c))" using assms(2,3) by simp
  from mem_reliable.get_reliable [OF ge [unfolded redis] _ inv _, of ex_rec] assms(2,4) have rc: "rc = NGX_OK" "cred = Some ex_rec" by simp_all
  note gc = mem.get_contract [OF ge [unfolded redis] _ inv]
  have "race_stage (race_job b) (Consumed_challenge redis ''id'' (race_assertion b) (race_chal b)) s = (Verified redis ''id'' ex_rec 9, s')"
    using ge rc race_accepted by (simp add: race_job_def ex_conf_def [THEN arg_cong [where f = lc_redis_key_prefix]])
  with gc tick show ?thesis by (auto simp: still_def mem.keeps_def)
qed

lemma race_finish:
  assumes "race_conn redis" and "mem_sel s = (\<lambda>_. 0)" and "cred_inv ''w:'' (mem_dbs s 0)"
  shows "\<exists>out s'. race_stage (race_job b) (Verified redis ''id'' ex_rec 9) s = (Finished out, s') \<and> still s s' \<and> ho_headers out \<noteq> []
     \<and> cred_inv ''w:'' (mem_dbs s' 0)"
proof -
  obtain c where redis: "redis = Some \<lparr> rd_ctx = Some c, rd_pool = ex_pool \<rparr>" using assms by (auto simp: race_conn_def)
  obtain rc s' where up: "ngx_auth_webauthn_credential_update_counter mem_hi redis (Some ex_pool) (Some ''w:'') (Some ''id'') 9 100 s = (rc, s')" by fastforce
  then have tick: "mem_clock s' \<le> mem_clock s + 1" using mem_call_tick(3) [of redis "Some ex_pool" "Some ''w:''" "Some ''id''" 9 100 s] by simp
  have inv: "cred_inv ''w:'' (mem_dbs s (mem_sel s c))" using assms(2,3) by simp
  have ctx: "rd_ctx \<lparr> rd_ctx = Some c, rd_pool = ex_pool \<rparr> = Some c" by simp
  have k: "mem.keeps c s s'" using mem.update_counter_contract [OF up [unfolded redis] ctx inv] by blast
  have inv': "cred_inv ''w:'' (mem_dbs s' 0)"
    using credential_store.update_law [OF mem.credential_store_laws [OF ctx, where pool = ex_pool and o' = credential_zero] inv up [unfolded redis]]
      k assms(2) by (simp add: mem.keeps_def)
  have close: "snd (ngx_auth_webauthn_redis_close mem_hi redis s') = s'" by (simp add: ngx_auth_webauthn_redis_close_def mem_hi_def redis)
  let ?out = "verify_mint ex_ngx ex_jwx (Some ''j'') ex_pool ex_conf (jb_req (race_job b)) 100 (cred_user_id ex_rec) ''id'' http_out_fresh"
  have "session_token ex_ngx ex_jwx ex_conf ''j'' 100 (cred_user_id ex_rec) ''id'' = Some ''T''" by (simp add: session_token_def ex_jwx_def)
  from mint_total(1) [OF _ this, of ex_pool "jb_req (race_job b)" http_out_fresh] have "ho_headers ?out \<noteq> []" by simp
  moreover have "lc_redis_key_prefix ex_conf = ''w:''" by (simp add: ex_conf_def)
  then have "race_stage (race_job b) (Verified redis ''id'' ex_rec 9) s = (Finished ?out, s')"
    using up close by (simp add: race_job_def)
  ultimately show ?thesis using k tick inv' by (auto simp: still_def mem.keeps_def)
qed

text \<open>A run of the two workers.\<close>

definition racing :: "mem \<Rightarrow> nat workers \<Rightarrow> bool" where
  "racing s ws \<longleftrightarrow> (\<exists>us. conc_run mem_hi mem_dbs mem_sel ex_ossl (ex_js race_docs) ex_cbor_none ex_ngx ex_jwx ex_conf race_store us (s, ws))"

lemma racing_idle: "racing race_store (\<lambda>_. None)"
  unfolding racing_def by (rule exI, rule conc_run.idle)

lemma racing_step:
  "racing s ws \<Longrightarrow> conc_step mem_hi mem_dbs mem_sel ex_ossl (ex_js race_docs) ex_cbor_none ex_ngx ex_jwx ex_conf (s, ws) (s', ws') \<Longrightarrow> racing s' ws'"
  unfolding racing_def by (erule exE, drule (1) conc_run.step) auto

lemma racing_advance:
  assumes "racing s ws" and "ws i = Some (j, st)" and "race_stage j st s = (st', s')" and "still s s'"
  shows "racing s' (ws(i \<mapsto> (j, st')))"
proof -
  have "undisturbed mem_sel (ws(i := None)) s s'" using assms(4) by (simp add: undisturbed_def still_def)
  then show ?thesis by (rule racing_step [OF assms(1) conc_step.advance [where ws = ws and i = i, OF assms(2,3)]])
qed

definition both :: "nat stage \<Rightarrow> nat stage \<Rightarrow> nat workers" where
  "both a b = (\<lambda>_. None)(0 \<mapsto> (race_job False, a), 1 \<mapsto> (race_job True, b))"

lemma racing_requests: "racing race_store (both Start Start)"
proof -
  have "racing race_store ((\<lambda>_. None)(0 \<mapsto> (race_job False, Start)))" by (rule racing_step [OF racing_idle conc_step.request]) simp
  then show ?thesis unfolding both_def by (rule racing_step [OF _ conc_step.request]) simp
qed

lemma both_advance:
  "racing s (both a b) \<Longrightarrow> race_stage (race_job False) a s = (a', s') \<Longrightarrow> still s s' \<Longrightarrow> racing s' (both a' b)"
  "racing s (both a b) \<Longrightarrow> race_stage (race_job True) b s = (b', s') \<Longrightarrow> still s s' \<Longrightarrow> racing s' (both a b')"
  using racing_advance [of s "both a b" 0 "race_job False" a a' s'] racing_advance [of s "both a b" 1 "race_job True" b b' s']
  by (simp_all add: both_def fun_upd_twist)

lemma still_trans0: "mem_sel s = (\<lambda>_. 0) \<Longrightarrow> still s s' \<Longrightarrow> mem_sel s' = (\<lambda>_. 0)"
  by (simp add: still_def)

lemma race_store_facts: "mem_sel race_store = (\<lambda>_. 0)" "mem_clock race_store = 0" "race_chal b \<noteq> race_chal (\<not> b)"
  "mem_dbs race_store 0 (''w:chal:'' @ race_chal b) = Some (RString ''1'', Some 60000)"
  "cred_inv ''w:'' (mem_dbs race_store 0)" "cred_abs ''w:'' (mem_dbs race_store 0) ''id'' = Some ex_rec"
proof -
  have d: "race_chal False \<noteq> race_chal True" by (simp add: race_chal_def ex_challenge_def)
  then show "race_chal b \<noteq> race_chal (\<not> b)" by (cases b) auto
  show "mem_sel race_store = (\<lambda>_. 0)" "mem_clock race_store = 0" by (simp_all add: race_store_def mem_empty_def)
  show "mem_dbs race_store 0 (''w:chal:'' @ race_chal b) = Some (RString ''1'', Some 60000)" using d by (cases b) (simp_all add: race_store_def)
  have f: "mem_dbs race_store 0 (cred_key ''w:'' i) = ex_db (cred_key ''w:'' i) \<and> mem_dbs race_store 0 (index_key ''w:'' i) = ex_db (index_key ''w:'' i)" for i
    by (simp add: race_store_def cred_key_def index_key_def)
  then show "cred_inv ''w:'' (mem_dbs race_store 0)" "cred_abs ''w:'' (mem_dbs race_store 0) ''id'' = Some ex_rec"
    using cred_inv_frame [of "mem_dbs race_store 0" "''w:''" ex_db] ex_db_inv ex_db_abs by simp_all
qed

text \<open>Both workers read the record before either stores its counter, and both answer with a session.\<close>

lemma race_run: "\<exists>s out0 out1. racing s (both (Finished out0) (Finished out1)) \<and> ho_headers out0 \<noteq> [] \<and> ho_headers out1 \<noteq> []"
proof -
  let ?k = "\<lambda>b. ''w:chal:'' @ race_chal b"
  note 0 = race_store_facts(1,2)
  obtain r0 s1 where 1: "racing s1 (both (Connected r0 ''id'' (race_assertion False) (race_chal False)) Start)" "race_conn r0" "still race_store s1"
    "mem_dbs s1 = mem_dbs race_store" using race_start [OF 0(1), of False] both_advance(1) [OF racing_requests] by blast
  note z1 = still_trans0 [OF 0(1) 1(3)]
  obtain r1 s2 where 2: "racing s2 (both (Connected r0 ''id'' (race_assertion False) (race_chal False)) (Connected r1 ''id'' (race_assertion True) (race_chal True)))"
    "race_conn r1" "still s1 s2" "mem_dbs s2 = mem_dbs race_store" using race_start [OF z1, of True] both_advance(2) [OF 1(1)] 1(4) by metis
  note z2 = still_trans0 [OF z1 2(3)]
  have c2: "mem_clock s2 \<le> 2" using 0(2) 1(3) 2(3) by (simp add: still_def)
  obtain s3 where 3: "racing s3 (both (Consumed_challenge r0 ''id'' (race_assertion False) (race_chal False)) (Connected r1 ''id'' (race_assertion True) (race_chal True)))"
    "still s2 s3" "mem_dbs s3 0 = (mem_dbs race_store 0)(?k False := None)"
    using race_consume [OF 1(2) z2, of False "''1''" 60000 "race_assertion False"] both_advance(1) [OF 2(1)] race_store_facts(4) [of False] 2(4) c2 by auto
  note z3 = still_trans0 [OF z2 3(2)]
  have k1: "mem_dbs s3 0 (?k True) = Some (RString ''1'', Some 60000)"
    using race_store_facts(3) [of True] race_store_facts(4) [of True] by (simp add: 3(3))
  have c3: "mem_clock s3 + 1 < 60000" using c2 3(2) by (simp add: still_def)
  obtain s4 where 4: "racing s4 (both (Consumed_challenge r0 ''id'' (race_assertion False) (race_chal False)) (Consumed_challenge r1 ''id'' (race_assertion True) (race_chal True)))"
    "still s3 s4" "mem_dbs s4 0 = (mem_dbs race_store 0)(?k False := None, ?k True := None)"
    using race_consume [OF 2(2) z3 k1 c3, of "race_assertion True"] both_advance(2) [OF 3(1)] 3(3) by metis
  note z4 = still_trans0 [OF z3 4(2)]
  have "mem_dbs s4 0 (cred_key ''w:'' i) = mem_dbs race_store 0 (cred_key ''w:'' i) \<and> mem_dbs s4 0 (index_key ''w:'' i) = mem_dbs race_store 0 (index_key ''w:'' i)" for i
    by (simp add: 4(3) cred_key_def index_key_def)
  then have i4: "cred_inv ''w:'' (mem_dbs s4 0)" "cred_abs ''w:'' (mem_dbs s4 0) ''id'' = Some ex_rec"
    using cred_inv_frame [of "mem_dbs s4 0" "''w:''" "mem_dbs race_store 0"] race_store_facts(5,6) by simp_all
  obtain s5 where 5: "racing s5 (both (Verified r0 ''id'' ex_rec 9) (Consumed_challenge r1 ''id'' (race_assertion True) (race_chal True)))"
    "still s4 s5" "mem_dbs s5 = mem_dbs s4" using race_fetch [OF 1(2) z4 i4, of False] both_advance(1) [OF 4(1)] by metis
  note z5 = still_trans0 [OF z4 5(2)]
  obtain s6 where 6: "racing s6 (both (Verified r0 ''id'' ex_rec 9) (Verified r1 ''id'' ex_rec 9))" "still s5 s6" "mem_dbs s6 = mem_dbs s4"
    using race_fetch [OF 2(2) z5, of True] i4 5(3) both_advance(2) [OF 5(1)] by metis
  note z6 = still_trans0 [OF z5 6(2)]
  obtain out0 s7 where 7: "racing s7 (both (Finished out0) (Verified r1 ''id'' ex_rec 9))" "still s6 s7" "ho_headers out0 \<noteq> []" "cred_inv ''w:'' (mem_dbs s7 0)"
    using race_finish [OF 1(2) z6, of False] i4(1) 6(3) both_advance(1) [OF 6(1)] by metis
  note z7 = still_trans0 [OF z6 7(2)]
  obtain out1 s8 where "racing s8 (both (Finished out0) (Finished out1))" "ho_headers out1 \<noteq> []"
    using race_finish [OF 2(2) z7 7(4), of True] both_advance(2) [OF 7(1)] by metis
  with 7(3) show ?thesis by blast
qed

theorem concurrent_login_sound_witness:
  "\<exists>us s ws j out. conc_run mem_hi mem_dbs mem_sel ex_ossl (ex_js race_docs) ex_cbor_none ex_ngx ex_jwx ex_conf race_store us (s, ws)
     \<and> ws 1 = Some (j, Finished out) \<and> (\<exists>cid chal cred cnt. was_valid mem_dbs ex_ossl (ex_js race_docs) ex_ngx ex_conf us j cid chal cred cnt)"
proof -
  obtain us s out0 out1 where r: "conc_run mem_hi mem_dbs mem_sel ex_ossl (ex_js race_docs) ex_cbor_none ex_ngx ex_jwx ex_conf race_store us
      (s, both (Finished out0) (Finished out1))" "ho_headers out1 \<noteq> []" using race_run unfolding racing_def by blast
  have w: "both (Finished out0) (Finished out1) 1 = Some (race_job True, Finished out1)" by (simp add: both_def)
  have "cred_inv (lc_redis_key_prefix ex_conf) (mem_dbs race_store (lc_redis_db ex_conf))" using race_store_facts(5) by (simp add: ex_conf_def)
  from concurrent_login_sound [OF mem.redis_server_axioms ex_i2d(1) r(1) this w r(2)] r(1) w show ?thesis by blast
qed

text \<open>C16: strict clone detection does not hold across workers. The record is read before the assertion is checked and its counter is stored after it, in
  separate commands; so there is a run in which two workers answer two requests for the same credential with a session each although both assertions carry the same counter value, which
  strict clone detection is to refuse: the second one would not be accepted on the record as the first one leaves it.\<close>

theorem clone_check_race:
  "\<exists>us s ws j0 j1 out0 out1 chal0 chal1.
     conc_run mem_hi mem_dbs mem_sel ex_ossl (ex_js race_docs) ex_cbor_none ex_ngx ex_jwx ex_conf race_store us (s, ws)
     \<and> ws 0 = Some (j0, Finished out0) \<and> ws 1 = Some (j1, Finished out1) \<and> ho_headers out0 \<noteq> [] \<and> ho_headers out1 \<noteq> []
     \<and> valid_login ex_ossl (ex_js race_docs) ex_ngx (jb_pool j0) ex_conf (jb_req j0) (cred_abs ''w:'' (mem_dbs race_store 0)) ''id'' chal0 ex_rec 9
     \<and> valid_login ex_ossl (ex_js race_docs) ex_ngx (jb_pool j1) ex_conf (jb_req j1) (cred_abs ''w:'' (mem_dbs race_store 0)) ''id'' chal1 ex_rec 9
     \<and> \<not> counter_ok (lc_clone_detection ex_conf) 9 (cred_sign_count (ex_rec\<lparr> cred_sign_count := 9 \<rparr>))"
proof -
  obtain us s out0 out1 where r: "conc_run mem_hi mem_dbs mem_sel ex_ossl (ex_js race_docs) ex_cbor_none ex_ngx ex_jwx ex_conf race_store us
      (s, both (Finished out0) (Finished out1))" "ho_headers out0 \<noteq> []" "ho_headers out1 \<noteq> []" using race_run unfolding racing_def by blast
  have v: "valid_login ex_ossl (ex_js race_docs) ex_ngx (jb_pool (race_job b)) ex_conf (jb_req (race_job b)) (cred_abs ''w:'' (mem_dbs race_store 0))
      ''id'' (race_chal b) ex_rec 9" for b
    using accepted_login [OF _ race_parsed [of b], of ex_ossl ex_rec "Some \<lparr> auth_sign_count = 9 \<rparr>"] race_accepted [of b] race_store_facts(6)
    by (simp add: race_job_def)
  have "\<not> counter_ok (lc_clone_detection ex_conf) 9 (cred_sign_count (ex_rec\<lparr> cred_sign_count := 9 \<rparr>))" by (simp add: counter_ok_def ex_conf_def)
  moreover have "both (Finished out0) (Finished out1) 0 = Some (race_job False, Finished out0)"
    "both (Finished out0) (Finished out1) 1 = Some (race_job True, Finished out1)" by (simp_all add: both_def)
  ultimately show ?thesis using r v [of False] v [of True] by blast
qed

end
