(* ===== verification/Spec2Isabelle.thy ===== *)
theory Spec2Isabelle
  imports Attestation Compat Directives History Concurrent
begin

text \<open>
  A verification of nginx-auth-webauthn: an nginx module that authenticates users with WebAuthn (passkeys) and keeps
  them signed in with a signed session cookie, and the command line tool that administers the credentials. The sources
  are under \<open>src/src\<close> (the module and the layer it shares with the tool) and \<open>src/tools/admin\<close>.

  \<^bold>\<open>The program.\<close> A browser asks the challenge endpoint for a random challenge, which is stored in Redis with a lifetime
  after a rate limit. It posts the authenticator's assertion to the verify endpoint, which consumes the challenge,
  reads the credential from Redis, verifies the assertion, stores the new counter and sets a cookie with a JSON Web
  Token. The access handler admits requests with a valid cookie and injects headers and variables. Credentials are
  registered from attestation responses, revoked, listed and shown by \<open>auth-webauthn-admin\<close>.

  \<^bold>\<open>The theories\<close>, bottom to top, with the sources they model:
  \<^item> \<open>Prelude\<close>: bytes, NULL-able pointers as options, nginx return codes, allocation as a parameter \<open>pool site n\<close>,
    decimal text; the lemmas and collections the others share.
  \<^item> \<open>Base64url\<close> (\<open>ngx_compat.c\<close>): the codec. \<open>Hash\<close>, \<open>Authdata\<close>, \<open>Clientdata\<close>, \<open>Cose\<close>, \<open>Attestation\<close>, \<open>Assertion\<close>
    (\<open>ngx_auth_webauthn_<name>.c\<close>): the parsers and verifiers, each with its declarative specification. \<open>Examples\<close>: instances of the
    parameters for the witnesses.
  \<^item> \<open>Redis\<close> (\<open>ngx_auth_webauthn_redis.c\<close>): the client over a record of hiredis functions. \<open>Redis_Server\<close>: the interface
    \<open>redis_server\<close>, a locale that says what hiredis and a Redis server promise (a command is executed once, or not at
    all, or executed with its reply lost), interpreted on an in-memory server; and the contracts of the client functions. \<open>Redis_Reliable\<close>: the
    extended locale \<open>reliable_server\<close> in which every command is answered.
  \<^item> \<open>Challenge\<close>, \<open>Credential\<close> (\<open>ngx_auth_webauthn_challenge.c\<close>, \<open>_credential.c\<close>): the stores, with the locales \<open>one_shot\<close>
    and \<open>credential_store\<close> for what their clients rely on, and the abstraction \<open>cred_abs\<close> of a database to a map of credentials.
  \<^item> \<open>Config\<close>, \<open>Http\<close>, \<open>Challenge_Handler\<close>, \<open>Json\<close>, \<open>Verify_Handler\<close>, \<open>Gate\<close> (\<open>ngx_http_auth_webauthn_module.c\<close>): the configuration, the
    response helpers, the two endpoints, a JSON reader as the specification of what is printed, the access handler and the
    variables. \<open>Session\<close>: the cookie between the verify endpoint and the gate. \<open>Directives\<close>: the directive table and the module
    descriptor, and the configurations a file can give with them.
  \<^item> \<open>Compat\<close> (\<open>ngx_compat.c\<close>): the pools and the logger of the tool. \<open>Admin\<close>, \<open>Admin_Commands\<close> (\<open>auth_webauthn_admin_*.c\<close>):
    options, files, times, dispatch and the four commands; \<open>Admin_Properties\<close>: what they do to the store.
  \<^item> \<open>System\<close>, \<open>History\<close> and this theory: everything together, as steps on one store and as histories with the responses given.
    \<open>Concurrent\<close>: the verify handler cut at its calls to Redis, with several workers interleaved.

  \<^bold>\<open>State and effects.\<close> The state of the Redis server and the connections is one value threaded through every function that
  uses hiredis; a handler returns its response and that state, a command of the tool its exit code, its output and that
  state. Out-parameters are arguments and results. Machine integers are words of their width (\<open>uint32_t\<close> counters, \<open>int64_t\<close>
  and \<open>time_t\<close> times, the \<open>int\<close> algorithm). Random bytes and the time of day are arguments.

  \<^bold>\<open>Parameters.\<close> nginx core, OpenSSL, hiredis, libcbor, nxe-json and nxe-jwx are records of functions or function
  arguments. What a theorem needs of them is a named hypothesis: \<open>redis_server\<close>, \<open>reliable_server\<close>, \<open>sha256_total\<close>, \<open>i2d_law\<close>, \<open>jwx_law\<close>,
  \<open>unforged\<close> (signatures), \<open>core_law\<close> (the slot setters and argument counts of nginx core). The concurrent
  steps take it that connections are private (\<open>undisturbed\<close>).

  \<^bold>\<open>What is shown.\<close> Soundness is proved whatever memory and Redis do, completeness with both up.
  \<^item> Whole system: the endpoints and the tool, interleaved in any order, refine an abstract store of credentials
    (\<open>system_refines\<close>), so every credential was attested (\<open>credentials_attested\<close>), and whoever passes the gate has logged in with one
    within the lifetime of the token (\<open>admission_traceable\<close>).
  \<^item> Login: a session is set only for a valid login with a live challenge (\<open>login_sound\<close>), a valid login gets one
    (\<open>login_complete\<close>), everything else one constant answer (\<open>verify_uniform\<close>); accepted counters increase
    (\<open>login_counters_increase\<close>); challenges are used at most once and expire (\<open>challenge_single_use\<close>, \<open>challenge_lifetime\<close>).
  \<^item> Concurrency: the stages run in a row are the handler (\<open>stages_are_handler\<close>); logins stay sound when workers interleave between any two
    calls to Redis (\<open>concurrent_login_sound\<close>); strict clone detection does not, as the counter is read and stored in separate
    commands (\<open>clone_check_race\<close>).
  \<^item> Session: the gate admits exactly valid tokens and fails closed (\<open>gate_correct\<close>, \<open>gate_fails_closed\<close>); a cookie is
    admitted as its user until it expires, and only for its RP id (\<open>session_roundtrip\<close>, \<open>session_bound_to_rp\<close>).
  \<^item> Verifiers and codecs: each equals its specification or is inverted by its counterpart, errors included.
  \<^item> Stores: read-after-write, revocation, decimal numbers exactly. Configuration: every accepted file gives a well-typed configuration that says what
    was written, with a key that fits (\<open>configuration_wf\<close>, \<open>block_exact\<close>, \<open>configured_key\<close>), and inheritance is as documented but for keys. Tool: each command's
    effect and output; reading ends within its bound; buffers fit; the pool leaks nothing.

  \<^bold>\<open>Loops and bounds.\<close> Every function is total by structural recursion or a measure; no fuel is used. The file reader's measure is
  the bytes left, and it stops at 16 MiB; the calendar computation of \<open>gmtime\<close> subtracts a year at a time. The tool's buffer for a time
  has 24 bytes, which is shown to be enough before the year ten million.

  \<^bold>\<open>Not modelled.\<close> nginx core and the libraries;
  logging, except the tool's logger; constant-time comparison as such (it is equality); freeing of JSON, CBOR and
  OpenSSL objects; tests, build files and documents.
\<close>

section \<open>The whole system\<close>

text \<open>C2: whoever passes the gate has logged in. Take any history of the system: the endpoints and the administration tool, interleaved in any
  order, with memory and Redis failing as they like. If the gate of a location that shares the signing key admits a
  request, then one of the responses of the verify endpoint in that history answered a valid login with a live challenge, by a
  credential that was registered at that time and goes back to an attested registration (or to the store the history began with);
  the gate's context names exactly that user and that credential; the RP id is the one of the login; and the token's lifetime, counted from
  the login, is not over. Assumed are the laws of the token library and that signatures are not forged (\<open>unforged\<close>).\<close>

theorem admission_traceable:
  assumes "redis_server hi dbs sel clock" and "i2d_law ossl"
    and "history hi dbs ossl js cbor ngx jwx wlcf s es s'"
    and "pre = lc_redis_key_prefix wlcf" and "n = lc_redis_db wlcf" and "cred_inv pre (dbs s n)"
    and "\<And>cid cred. cred_abs pre (dbs s n) cid = Some cred \<Longrightarrow> plain cid"
    and "plain (lc_rp_id wlcf)" and "\<And>x. set (core_encode_base64url ngx x) \<subseteq> set basis"
    and "jwx_law ngx jwx key_pair" and "key_ok key_pair wlcf"
    and "jwks_of ngx jwx gl = jwks_of ngx jwx wlcf" and "unforged ngx jwx gl wlcf es r" and "lc_auth gl"
    and "ngx_http_auth_webauthn_access_handler ngx jwx cv now pool gl r ctx0 hs out = (rc_code NGX_OK, ctx, hs', out')"
  shows "\<exists>e \<in> set es. \<exists>cid cred. logged_in dbs clock ossl js ngx wlcf e cid cred
     \<and> genuine ossl js cbor (cred_abs pre (dbs s n)) cid cred \<and> lc_rp_id gl = lc_rp_id wlcf \<and> now <s ev_now e + lc_jwt_ttl wlcf
     \<and> ctx = Some \<lparr> cx_user_id = cred_user_id cred, cx_credential_id = cid, cx_auth_status = ''authenticated'',
                    cx_jwt_exp = ev_now e + lc_jwt_ttl wlcf, cx_has_exp = True \<rparr>"
proof -
  obtain p exp where ok: "session_ok ngx jwx gl r now p exp" and ctx: "ctx = Some (ctx_of jwx p exp)"
    by (rule access_sound [OF assms(15,14)])
  have basis: "\<And>x. set (core_encode_base64url ngx x) \<subseteq> set basis" by (rule assms(9))
  have ids: "\<And>cid cred. cred_abs pre (dbs s n) cid = Some cred \<Longrightarrow> plain cid" by (rule assms(7))
  show ?thesis
  proof (rule redis_server.admitted_login [OF assms(1,3,2,4-6) ids assms(8) basis assms(10-13) ok])
    fix e cid cred
    assume "e \<in> set es" "logged_in dbs clock ossl js ngx wlcf e cid cred" "genuine ossl js cbor (cred_abs pre (dbs s n)) cid cred"
      "lc_rp_id gl = lc_rp_id wlcf" "session_payload jwx p (lc_rp_id wlcf) (cred_user_id cred) cid (ev_now e + lc_jwt_ttl wlcf)"
      "exp = ev_now e + lc_jwt_ttl wlcf"
    with ok ctx show ?thesis
      by (intro bexI [of _ e] exI [of _ cid] exI [of _ cred]) (simp_all add: session_payload_def ctx_of_def claim_text_def session_ok_def)
  qed
qed

theorem admission_traceable_witness:
  "\<exists>(e :: mem verify_event) cid cred. logged_in mem_dbs mem_clock ex_ossl (ex_js ex_docs) toy_ngx ex_conf e cid cred \<and> ev_now e = 100
     \<and> map_option cx_credential_id (fst (snd (ngx_http_auth_webauthn_access_handler toy_ngx toy_jwx (\<lambda>_ _ v. Some v) 200 ex_pool ex_conf
          (ex_req\<lparr> rq_cookie := Some [''wa='' @ toy_token] \<rparr>) None [] http_out_fresh))) = Some cid"
proof -
  obtain e s' where h: "history mem_hi mem_dbs ex_ossl (ex_js ex_docs) ex_cbor_none toy_ngx toy_jwx ex_conf ex_login_store [e] s'"
    and e: "ev_now e = 100" "ho_headers (ev_out e) = [(''Set-Cookie'', cookie_text ex_conf toy_token)]" using toy_history by blast
  let ?r = "ex_req\<lparr> rq_cookie := Some [''wa='' @ toy_token] \<rparr>"
  obtain ctx hs' out' where a: "ngx_http_auth_webauthn_access_handler toy_ngx toy_jwx (\<lambda>_ _ v. Some v) 200 ex_pool ex_conf ?r
     None [] http_out_fresh = (rc_code NGX_OK, ctx, hs', out')" using toy_admitted by blast
  have "\<exists>e \<in> set [e]. \<exists>cid cred. logged_in mem_dbs mem_clock ex_ossl (ex_js ex_docs) toy_ngx ex_conf e cid cred
     \<and> genuine ex_ossl (ex_js ex_docs) ex_cbor_none (cred_abs ''w:'' (mem_dbs ex_login_store 0)) cid cred \<and> lc_rp_id ex_conf = lc_rp_id ex_conf
     \<and> 200 <s ev_now e + lc_jwt_ttl ex_conf
     \<and> ctx = Some \<lparr> cx_user_id = cred_user_id cred, cx_credential_id = cid, cx_auth_status = ''authenticated'',
                    cx_jwt_exp = ev_now e + lc_jwt_ttl ex_conf, cx_has_exp = True \<rparr>"
  proof (rule admission_traceable [OF mem.redis_server_axioms ex_i2d(1) h _ _ ex_login_inv _ _ toy_encode_basis toy_law _ refl _ _ a])
    show "plain (lc_rp_id ex_conf)" by (rule plainI) (auto simp: ex_conf_def)
    show "plain cid" if "cred_abs ''w:'' (mem_dbs ex_login_store 0) cid = Some cred" for cid cred
      unfolding ex_stored_ids [OF that] by (rule plainI) auto
    show "unforged toy_ngx toy_jwx ex_conf ex_conf [e] ?r" using e(2) by (simp add: unforged_def toy_ngx_def)
  qed (simp_all add: ex_conf_def key_ok_def)
  then show ?thesis using a e(1) by (intro exI [of _ e]) auto
qed

text \<open>C3: the deployed system is the abstract credential store. The challenge endpoint, the verify endpoint and every run of
  the administration tool on the same key prefix and database, in any order and interleaved with
  anything that leaves the credential keys alone, keep the store well formed, and each of them changes the
  map of credentials in one of the ways the abstract machine allows: not at all, by an attested registration,
  by the counter of a valid login, or by a revocation.\<close>

theorem system_refines:
  assumes "redis_server hi dbs sel clock" and "i2d_law ossl"
    and "(sys_step hi dbs ossl js cbor ngx jwx wlcf)\<^sup>*\<^sup>* s s'"
    and "pre = lc_redis_key_prefix wlcf" and "n = lc_redis_db wlcf" and "cred_inv pre (dbs s n)"
  shows "cred_inv pre (dbs s' n) \<and> (abs_step ossl js cbor ngx wlcf)\<^sup>*\<^sup>* (cred_abs pre (dbs s n)) (cred_abs pre (dbs s' n))"
  by (rule redis_server.sys_steps_abs [OF assms(1,3,2,4-6)])

theorem system_refines_witness:
  "\<exists>(s' :: mem) cid cred. cred_abs ''w:'' (mem_dbs s' 0) cid = Some cred
     \<and> (abs_step ex_ossl (ex_js ex_responses) ex_cbor_none ex_ngx ex_conf)\<^sup>*\<^sup>* (cred_abs ''w:'' (mem_dbs mem_empty 0)) (cred_abs ''w:'' (mem_dbs s' 0))"
proof -
  obtain s' cid cred where s: "sys_step mem_hi mem_dbs ex_ossl (ex_js ex_responses) ex_cbor_none ex_ngx ex_jwx ex_conf mem_empty s'"
    "cred_abs ''w:'' (mem_dbs s' 0) cid = Some cred" using ex_sys_step by blast
  have c: "''w:'' = lc_redis_key_prefix ex_conf" "0 = lc_redis_db ex_conf" by (simp_all add: ex_conf_def)
  note r = system_refines [OF mem.redis_server_axioms ex_i2d(1) r_into_rtranclp [of "sys_step mem_hi mem_dbs ex_ossl (ex_js ex_responses)
      ex_cbor_none ex_ngx ex_jwx ex_conf", OF s(1)] c ex_empty_inv]
  show ?thesis by (intro exI [of _ s'] exI [of _ cid] exI [of _ cred] conjI s(2) conjunct2 [OF r])
qed

text \<open>C4: every credential is attested. However the endpoints and the tool were used since the store was empty, each registered
  credential stems from an attestation response that \<open>register\<close> verified: its id, public key, algorithm and AAGUID
  are the attested ones. With \<open>login_sound\<close>, a session is only ever given to the holder of an attested key.\<close>

theorem credentials_attested:
  assumes "redis_server hi dbs sel clock" and "i2d_law ossl"
    and "(sys_step hi dbs ossl js cbor ngx jwx wlcf)\<^sup>*\<^sup>* s s'"
    and "pre = lc_redis_key_prefix wlcf" and "n = lc_redis_db wlcf" and "cred_inv pre (dbs s n)"
    and "\<And>cid. cred_abs pre (dbs s n) cid = None" and "cred_abs pre (dbs s' n) cid = Some cred"
  shows "authentic ossl js cbor cid cred"
proof -
  have "(abs_step ossl js cbor ngx wlcf)\<^sup>*\<^sup>* (cred_abs pre (dbs s n)) (cred_abs pre (dbs s' n))"
    using redis_server.sys_steps_abs [OF assms(1,3,2,4-6)] by blast
  from abs_steps_authentic [OF this] assms(7,8) show ?thesis by simp
qed

theorem credentials_attested_witness:
  "\<exists>(s' :: mem) cid cred. cred_abs ''w:'' (mem_dbs s' 0) cid = Some cred
     \<and> authentic ex_ossl (ex_js ex_responses) ex_cbor_none cid cred"
proof -
  obtain s' cid cred where s: "sys_step mem_hi mem_dbs ex_ossl (ex_js ex_responses) ex_cbor_none ex_ngx ex_jwx ex_conf mem_empty s'"
    "cred_abs ''w:'' (mem_dbs s' 0) cid = Some cred" using ex_sys_step by blast
  have c: "''w:'' = lc_redis_key_prefix ex_conf" "0 = lc_redis_db ex_conf" by (simp_all add: ex_conf_def)
  have "cred_abs ''w:'' (mem_dbs mem_empty 0) i = None" for i by (simp add: cred_abs_def mem_empty_def)
  note r = credentials_attested [OF mem.redis_server_axioms ex_i2d(1) r_into_rtranclp [of "sys_step mem_hi mem_dbs ex_ossl (ex_js ex_responses)
      ex_cbor_none ex_ngx ex_jwx ex_conf", OF s(1)] c ex_empty_inv this]
  show ?thesis by (intro exI [of _ s'] exI [of _ cid] exI [of _ cred] conjI s(2) r [OF s(2)])
qed

end
